(* ===== verification/Prelude.thy ===== *)
theory Prelude
  imports Main "HOL-Library.List_Lexorder" "HOL-Library.Char_ord"
begin

text \<open>
  Shared vocabulary of the City2 Core development: the exceptions the Python code raises as
  one datatype, a result type for fallible pure code, the transaction combinators that thread
  a state through fallible steps, and the list-of-rows operations that stand for the SQL
  statements of the store (\<open>SELECT\<close> of one row by key, \<open>UPDATE ... WHERE\<close>,
  \<open>ORDER BY ... DESC LIMIT 1\<close>).

  Exceptions carry the constant part of their message; interpolated parts are left out.
\<close>

section \<open>Exceptions and results\<close>

datatype exc =
    CoreError string
  | StoreError string
  | ConflictError string
  | IdempotencyCollision string
  | IntegrityError string
  | ValidationError string
  | ValueError string
  | KeyError string
  | TypeError string
  | SqlError string
  | Injected string
  | RecursionError

type_synonym 'a result = "exc + 'a"

text \<open>Results of a command: whether it returned, and what it returned.\<close>

named_theorems tx_simps \<open>inversion of transaction steps that return\<close>
named_theorems db_simps \<open>what a database operation leaves unchanged\<close>

definition bindE :: "'a result \<Rightarrow> ('a \<Rightarrow> 'b result) \<Rightarrow> 'b result" where
  "bindE m f = (case m of Inl e \<Rightarrow> Inl e | Inr a \<Rightarrow> f a)"

definition guardE :: "bool \<Rightarrow> exc \<Rightarrow> unit result" where
  "guardE b e = (if b then Inr () else Inl e)"

lemma bindE_simps [simp]:
  "bindE (Inl e) f = Inl e"
  "bindE (Inr a) f = f a"
  by (simp_all add: bindE_def)

lemma bindE_Inr_iff [tx_simps]:
  "bindE m f = Inr b \<longleftrightarrow> (\<exists>a. m = Inr a \<and> f a = Inr b)"
  by (cases m) auto

lemma guardE_Inr_iff [tx_simps, simp]: "guardE b e = Inr u \<longleftrightarrow> b"
  by (simp add: guardE_def)

lemma guardE_simps [simp]:
  "guardE True e = Inr ()"
  "guardE False e = Inl e"
  by (simp_all add: guardE_def)

text \<open>\<open>for x in xs: f(x)\<close> where \<open>f\<close> may raise.\<close>

fun forE :: "('a \<Rightarrow> unit result) \<Rightarrow> 'a list \<Rightarrow> unit result" where
  "forE f [] = Inr ()"
| "forE f (x # xs) = bindE (f x) (\<lambda>_. forE f xs)"

text \<open>A list comprehension whose element expression may raise.\<close>

fun mapE :: "('a \<Rightarrow> 'b result) \<Rightarrow> 'a list \<Rightarrow> 'b list result" where
  "mapE f [] = Inr []"
| "mapE f (x # xs) = bindE (f x) (\<lambda>y. bindE (mapE f xs) (\<lambda>ys. Inr (y # ys)))"

lemma forE_Inr_iff [tx_simps]: "forE f xs = Inr u \<longleftrightarrow> (\<forall>x \<in> set xs. f x = Inr ())"
  by (induction xs) (auto simp: bindE_Inr_iff)

lemma forE_append: "forE f (xs @ ys) = bindE (forE f xs) (\<lambda>_. forE f ys)"
  by (induction xs) (simp_all add: bindE_def split: sum.splits)

lemma mapE_cong [fundef_cong]:
  "xs = ys \<Longrightarrow> (\<And>x. x \<in> set ys \<Longrightarrow> f x = g x) \<Longrightarrow> mapE f xs = mapE g ys"
  by (induction ys arbitrary: xs) auto

lemma mapE_map: "mapE f (map g xs) = mapE (\<lambda>x. f (g x)) xs"
  by (induction xs) simp_all

lemma forE_cong [fundef_cong]:
  "xs = ys \<Longrightarrow> (\<And>x. x \<in> set ys \<Longrightarrow> f x = g x) \<Longrightarrow> forE f xs = forE g ys"
  by (induction ys arbitrary: xs) auto

section \<open>Transactions: steps over a state that may raise\<close>

type_synonym ('s, 'a) tx = "'s \<Rightarrow> ('a \<times> 's) result"

definition tret :: "'a \<Rightarrow> ('s, 'a) tx" where
  "tret a s = Inr (a, s)"

definition traise :: "exc \<Rightarrow> ('s, 'a) tx" where
  "traise e s = Inl e"

definition tbind :: "('s, 'a) tx \<Rightarrow> ('a \<Rightarrow> ('s, 'b) tx) \<Rightarrow> ('s, 'b) tx" where
  "tbind m f s = (case m s of Inl e \<Rightarrow> Inl e | Inr (a, s') \<Rightarrow> f a s')"

definition tguard :: "bool \<Rightarrow> exc \<Rightarrow> ('s, unit) tx" where
  "tguard b e s = (if b then Inr ((), s) else Inl e)"

definition tlift :: "'a result \<Rightarrow> ('s, 'a) tx" where
  "tlift r s = (case r of Inl e \<Rightarrow> Inl e | Inr a \<Rightarrow> Inr (a, s))"

definition tget :: "('s \<Rightarrow> 'a) \<Rightarrow> ('s, 'a) tx" where
  "tget f s = Inr (f s, s)"

definition tmodify :: "('s \<Rightarrow> 's) \<Rightarrow> ('s, unit) tx" where
  "tmodify f s = Inr ((), f s)"

text \<open>A step whose effect is a fallible change of the state (an \<open>INSERT\<close> that may
  violate a constraint).\<close>

definition tupdate :: "('s \<Rightarrow> 's result) \<Rightarrow> ('s, unit) tx" where
  "tupdate f s = (case f s of Inl e \<Rightarrow> Inl e | Inr s' \<Rightarrow> Inr ((), s'))"

lemma tx_Inr_iff [tx_simps]:
  "tret a s = Inr (b, s') \<longleftrightarrow> b = a \<and> s' = s"
  "traise e s = Inr p \<longleftrightarrow> False"
  "tbind m f s = Inr (c, s') \<longleftrightarrow> (\<exists>a s1. m s = Inr (a, s1) \<and> f a s1 = Inr (c, s'))"
  "tguard b e s = Inr (u, s') \<longleftrightarrow> b \<and> s' = s"
  "tlift r s = Inr (d, s') \<longleftrightarrow> r = Inr d \<and> s' = s"
  "tget g s = Inr (x, s') \<longleftrightarrow> x = g s \<and> s' = s"
  "tmodify h s = Inr (v, s') \<longleftrightarrow> s' = h s"
  "tupdate k s = Inr (w, s') \<longleftrightarrow> k s = Inr s'"
  by (auto simp: tret_def traise_def tbind_def tguard_def tlift_def tget_def tmodify_def
      tupdate_def split: sum.splits)

lemma tx_eval [simp]:
  "tret a s = Inr (a, s)"
  "traise e s = Inl e"
  "tguard True e s = Inr ((), s)"
  "tguard False e s = Inl e"
  "tlift (Inr d) s = Inr (d, s)"
  "tlift (Inl e) s = Inl e"
  "tget g s = Inr (g s, s)"
  "tmodify h s = Inr ((), h s)"
  by (simp_all add: tret_def traise_def tguard_def tlift_def tget_def tmodify_def)

lemma tbind_eval:
  "m s = Inr (a, s1) \<Longrightarrow> tbind m f s = f a s1"
  "m s = Inl e \<Longrightarrow> tbind m f s = Inl e"
  by (simp_all add: tbind_def)

fun tfor :: "('a \<Rightarrow> ('s, unit) tx) \<Rightarrow> 'a list \<Rightarrow> ('s, unit) tx" where
  "tfor f [] = tret ()"
| "tfor f (x # xs) = tbind (f x) (\<lambda>_. tfor f xs)"

section \<open>Tables as lists of rows\<close>

definition update_where :: "('r \<Rightarrow> bool) \<Rightarrow> ('r \<Rightarrow> 'r) \<Rightarrow> 'r list \<Rightarrow> 'r list" where
  "update_where p f = map (\<lambda>r. if p r then f r else r)"

definition count_where :: "('r \<Rightarrow> bool) \<Rightarrow> 'r list \<Rightarrow> nat" where
  "count_where p rs = length (filter p rs)"

text \<open>\<open>SELECT ... ORDER BY k DESC LIMIT 1\<close>.\<close>

fun max_row :: "('r \<Rightarrow> int) \<Rightarrow> 'r list \<Rightarrow> 'r option" where
  "max_row k [] = None"
| "max_row k (r # rs) =
     (case max_row k rs of None \<Rightarrow> Some r
      | Some q \<Rightarrow> if k r < k q then Some q else Some r)"

lemma find_Some_iff: "List.find p rs = Some r \<Longrightarrow> r \<in> set rs \<and> p r"
  by (induction rs) (auto split: if_splits)

lemma find_None_iff_all: "List.find p rs = None \<longleftrightarrow> (\<forall>r \<in> set rs. \<not> p r)"
  by (induction rs) auto

lemma find_append:
  "List.find p (xs @ ys) = (case List.find p xs of None \<Rightarrow> List.find p ys | Some r \<Rightarrow> Some r)"
  by (induction xs) auto

lemma update_where_simps [simp]:
  "update_where p f [] = []"
  "update_where p f (r # rs) = (if p r then f r else r) # update_where p f rs"
  by (simp_all add: update_where_def)

lemma length_update_where [simp]: "length (update_where p f rs) = length rs"
  by (simp add: update_where_def)

lemma map_update_where:
  "(\<And>r. g (f r) = g r) \<Longrightarrow> map g (update_where p f rs) = map g rs"
  by (induction rs) auto

lemma set_update_where:
  "r \<in> set (update_where p f rs) \<longleftrightarrow>
     (\<exists>q \<in> set rs. (p q \<and> r = f q) \<or> (\<not> p q \<and> r = q))"
  by (induction rs) auto

lemma find_update_where_same:
  "(\<And>r. p (f r) = p r) \<Longrightarrow> List.find p (update_where p f rs) = map_option f (List.find p rs)"
  by (induction rs) auto

lemma find_update_where_other:
  "(\<And>r. q r \<Longrightarrow> p (f r) \<Longrightarrow> False) \<Longrightarrow> (\<And>r. q r \<Longrightarrow> p r \<Longrightarrow> False) \<Longrightarrow>
   List.find p (update_where q f rs) = List.find p rs"
  by (induction rs) auto

lemma max_row_None [simp]: "max_row k rs = None \<longleftrightarrow> rs = []"
  by (cases rs) (auto split: option.splits)

lemma max_row_Some: "max_row k rs = Some r \<Longrightarrow> r \<in> set rs \<and> (\<forall>q \<in> set rs. k q \<le> k r)"
proof (induction rs arbitrary: r)
  case (Cons a rs)
  then show ?case by (fastforce split: option.splits if_splits)
qed simp

lemma max_row_snoc:
  "(\<forall>q \<in> set rs. k q < k r) \<Longrightarrow> max_row k (rs @ [r]) = Some r"
  by (induction rs) auto

lemma count_where_simps [simp]:
  "count_where p [] = 0"
  "count_where p (r # rs) = (if p r then 1 else 0) + count_where p rs"
  by (simp_all add: count_where_def)

lemma count_where_append [simp]: "count_where p (xs @ ys) = count_where p xs + count_where p ys"
  by (simp add: count_where_def)

lemma count_where_zero: "count_where p rs = 0 \<longleftrightarrow> (\<forall>r \<in> set rs. \<not> p r)"
  by (induction rs) auto

lemma filter_snoc: "filter p (xs @ [x]) = filter p xs @ (if p x then [x] else [])"
  by simp

lemma distinct_map_update_where:
  "(\<And>r. g (f r) = g r) \<Longrightarrow> distinct (map g (update_where p f rs)) = distinct (map g rs)"
  by (simp only: map_update_where)

lemma find_by_key:
  "distinct (map g rs) \<Longrightarrow> r \<in> set rs \<Longrightarrow> List.find (\<lambda>q. g q = g r) rs = Some r"
  by (induction rs) (auto simp: image_iff)

end
