(* ===== verification/Json.thy ===== *)
theory Json
  imports Prelude
begin

text \<open>
  JSON values as Python holds them after \<open>json.loads\<close>: \<open>None\<close>, \<open>bool\<close>, \<open>int\<close>,
  \<open>float\<close>, \<open>str\<close>, \<open>list\<close> and \<open>dict\<close> with string keys. The type is polymorphic in the
  representation of strings: lists of Unicode code points (\<open>ujson\<close>) where the code looks at
  characters, Isabelle strings (\<open>json\<close>) everywhere else. A \<open>dict\<close> is an association list in
  insertion order.

  A finite \<open>float\<close> is given by what \<open>repr\<close> shows of it: its sign, the digits of its
  shortest round-trip decimal (no leading, no trailing zero, none at all for zero) and the
  position \<open>n\<close> of the decimal point, for the value \<open>0.d1 d2 ... dk * 10 ^ n\<close>.
\<close>

section \<open>Values\<close>

datatype pyfloat =
    PyFloat bool "nat list" int
  | PyInf bool
  | PyNaN

datatype 's jsn =
    JNull
  | JBool bool
  | JInt int
  | JFloat pyfloat
  | JStr 's
  | JList "'s jsn list"
  | JObj "('s \<times> 's jsn) list"

type_synonym ustr = "nat list"
type_synonym ujson = "ustr jsn"
type_synonym json = "string jsn"
type_synonym 's dict = "('s \<times> 's jsn) list"

text \<open>An Isabelle string as code points.\<close>

definition ucs :: "string \<Rightarrow> ustr" where
  "ucs s = map of_char s"

lemma ucs_simps [simp]:
  "ucs [] = []"
  "ucs (c # s) = of_char c # ucs s"
  by (simp_all add: ucs_def)

lemma ucs_inj: "ucs s = ucs t \<longleftrightarrow> s = t"
proof -
  have "inj (of_char :: char \<Rightarrow> nat)"
    by (rule injI) simp
  then show ?thesis by (simp add: ucs_def inj_map_eq_map)
qed

definition float_wf :: "pyfloat \<Rightarrow> bool" where
  "float_wf f = (case f of
      PyFloat neg ds n \<Rightarrow>
        (\<forall>d \<in> set ds. d \<le> 9) \<and> (ds = [] \<longrightarrow> n = 0) \<and>
        (ds \<noteq> [] \<longrightarrow> hd ds \<noteq> 0 \<and> last ds \<noteq> 0)
    | _ \<Rightarrow> True)"

text \<open>\<open>value == 0\<close>, \<open>math.isfinite(value)\<close>.\<close>

definition float_is_zero :: "pyfloat \<Rightarrow> bool" where
  "float_is_zero f = (case f of PyFloat neg ds n \<Rightarrow> ds = [] | _ \<Rightarrow> False)"

definition float_is_finite :: "pyfloat \<Rightarrow> bool" where
  "float_is_finite f = (case f of PyFloat neg ds n \<Rightarrow> True | _ \<Rightarrow> False)"

section \<open>Dictionaries\<close>

text \<open>\<open>d.get(k)\<close>, \<open>k in d\<close>, \<open>d[k]\<close>, \<open>d[k] = v\<close>, \<open>{**d, **e}\<close> (and
  \<open>d.update(e)\<close>), and \<open>{k: v for k, v in d.items() if k not in excluded}\<close>.\<close>

definition dict_get :: "'s dict \<Rightarrow> 's \<Rightarrow> 's jsn option" where
  "dict_get d k = map_of d k"

definition dict_has :: "'s dict \<Rightarrow> 's \<Rightarrow> bool" where
  "dict_has d k = (map_of d k \<noteq> None)"

definition dict_item :: "string dict \<Rightarrow> string \<Rightarrow> json result" where
  "dict_item d k = (case map_of d k of None \<Rightarrow> Inl (KeyError k) | Some v \<Rightarrow> Inr v)"

fun dict_set :: "'s \<Rightarrow> 's jsn \<Rightarrow> 's dict \<Rightarrow> 's dict" where
  "dict_set k v [] = [(k, v)]"
| "dict_set k v ((k', v') # d) = (if k = k' then (k, v) # d else (k', v') # dict_set k v d)"

fun dict_merge :: "'s dict \<Rightarrow> 's dict \<Rightarrow> 's dict" where
  "dict_merge d [] = d"
| "dict_merge d ((k, v) # e) = dict_merge (dict_set k v d) e"

definition dict_without :: "'s list \<Rightarrow> 's dict \<Rightarrow> 's dict" where
  "dict_without excluded d = filter (\<lambda>(k, v). k \<notin> set excluded) d"

text \<open>\<open>v.get(k)\<close> on a value that the caller knows to be a \<open>dict\<close>.\<close>

definition get :: "json \<Rightarrow> string \<Rightarrow> json option" where
  "get v k = (case v of JObj d \<Rightarrow> map_of d k | _ \<Rightarrow> None)"

text \<open>\<open>v[k]\<close>: \<open>KeyError\<close> for a missing key, \<open>TypeError\<close> when \<open>v\<close> is no \<open>dict\<close>.\<close>

definition item :: "json \<Rightarrow> string \<Rightarrow> json result" where
  "item v k = (case v of JObj d \<Rightarrow> dict_item d k | _ \<Rightarrow> Inl (TypeError ''not subscriptable''))"

definition dict_of :: "json \<Rightarrow> string dict" where
  "dict_of v = (case v of JObj d \<Rightarrow> d | _ \<Rightarrow> [])"

definition has_key :: "json \<Rightarrow> string \<Rightarrow> bool" where
  "has_key v k = (get v k \<noteq> None)"

text \<open>Python truth of a value, and typed views of a value.\<close>

definition truthy :: "'s list jsn \<Rightarrow> bool" where
  "truthy v = (case v of
      JNull \<Rightarrow> False
    | JBool b \<Rightarrow> b
    | JInt i \<Rightarrow> i \<noteq> 0
    | JFloat f \<Rightarrow> \<not> float_is_zero f
    | JStr s \<Rightarrow> s \<noteq> []
    | JList xs \<Rightarrow> xs \<noteq> []
    | JObj d \<Rightarrow> d \<noteq> [])"

definition as_str :: "json \<Rightarrow> string result" where
  "as_str v = (case v of JStr s \<Rightarrow> Inr s | _ \<Rightarrow> Inl (TypeError ''expected a string''))"

definition as_int :: "json \<Rightarrow> int result" where
  "as_int v = (case v of JInt i \<Rightarrow> Inr i | _ \<Rightarrow> Inl (TypeError ''expected an integer''))"

definition as_list :: "json \<Rightarrow> json list result" where
  "as_list v = (case v of JList xs \<Rightarrow> Inr xs | _ \<Rightarrow> Inl (TypeError ''expected a list''))"

lemma map_of_dict_set [simp]: "map_of (dict_set k v d) = (map_of d)(k \<mapsto> v)"
  by (induction d) auto

lemma map_of_dict_merge:
  "distinct (map fst e) \<Longrightarrow> map_of (dict_merge d e) = map_of d ++ map_of e"
proof (induction e arbitrary: d)
  case (Cons a e)
  obtain k v where a: "a = (k, v)" by (cases a)
  from Cons.prems a have nin: "map_of e k = None"
    by (simp add: map_of_eq_None_iff)
  have "map_of (dict_merge (dict_set k v d) e) = (map_of d)(k \<mapsto> v) ++ map_of e"
    using Cons by simp
  with nin show ?case
    by (intro ext) (simp add: a map_add_def split: option.splits)
qed simp

lemma set_keys_dict_set: "fst ` set (dict_set k v d) = insert k (fst ` set d)"
  by (simp flip: dom_map_of_conv_image_fst)

lemma distinct_dict_set: "distinct (map fst d) \<Longrightarrow> distinct (map fst (dict_set k v d))"
proof (induction d)
  case (Cons a d)
  obtain k' v' where "a = (k', v')" by (cases a)
  then show ?case
    using Cons set_keys_dict_set [of k v d] by auto
qed simp

lemma distinct_dict_merge: "distinct (map fst d) \<Longrightarrow> distinct (map fst (dict_merge d e))"
  by (induction d e rule: dict_merge.induct) (simp_all add: distinct_dict_set)

lemma get_JObj [simp]: "get (JObj d) k = map_of d k"
  by (simp add: get_def)

lemma item_JObj: "item (JObj d) k = dict_item d k"
  by (simp add: item_def)

lemma dict_item_Inr_iff [tx_simps]: "dict_item d k = Inr v \<longleftrightarrow> map_of d k = Some v"
  by (simp add: dict_item_def split: option.splits)

lemma item_Inr_iff [tx_simps]: "item v k = Inr w \<longleftrightarrow> get v k = Some w"
  by (simp add: item_def get_def dict_item_def split: jsn.splits option.splits)

lemma as_str_Inr_iff [tx_simps]: "as_str v = Inr s \<longleftrightarrow> v = JStr s"
  by (cases v) (simp_all add: as_str_def)

lemma as_int_Inr_iff [tx_simps]: "as_int v = Inr i \<longleftrightarrow> v = JInt i"
  by (cases v) (simp_all add: as_int_def)

lemma as_list_Inr_iff [tx_simps]: "as_list v = Inr xs \<longleftrightarrow> v = JList xs"
  by (cases v) (simp_all add: as_list_def)

lemma as_simps [simp]:
  "as_str (JStr s) = Inr s"
  "as_int (JInt i) = Inr i"
  "as_list (JList xs) = Inr xs"
  by (simp_all add: as_str_def as_int_def as_list_def)

lemma map_of_dict_without:
  "map_of (dict_without ex d) k = (if k \<in> set ex then None else map_of d k)"
  by (induction d) (auto simp: dict_without_def)

lemma distinct_dict_without:
  "distinct (map fst d) \<Longrightarrow> distinct (map fst (dict_without ex d))"
  unfolding dict_without_def by (rule distinct_map_filter)

section \<open>Well-formed values\<close>

text \<open>What every parsed or constructed Python value satisfies: keys of a \<open>dict\<close> are
  distinct and floats are in their shortest form.\<close>

fun wf_jsn :: "'s jsn \<Rightarrow> bool" where
  "wf_jsn (JFloat f) = float_wf f"
| "wf_jsn (JList xs) = list_all wf_jsn xs"
| "wf_jsn (JObj d) = (distinct (map fst d) \<and> list_all (\<lambda>p. wf_jsn (snd p)) d)"
| "wf_jsn _ = True"

end
