(* ===== verification/Canonical.thy ===== *)
theory Canonical
  imports Complex_Main Json
begin

text \<open>
  \<^verbatim>\<open>src/city2core/model.py\<close>: the canonical JSON text of a value
  (\<open>canonical_json\<close>, \<open>_assert_canonical_value\<close>, \<open>_encode_canonical\<close>,
  \<open>_encode_float\<close>), digests, timestamps and identifiers. Texts and strings are lists of
  code points. Python's own \<open>str(int)\<close>, \<open>repr(float)\<close>, \<open>json.dumps\<close> of a string and
  \<open>Decimal\<close> formatting are written out; SHA-256 is a parameter.
\<close>

section \<open>Python's number and string texts\<close>

fun dec_digits :: "nat \<Rightarrow> nat list" where
  "dec_digits n = (if n < 10 then [n] else dec_digits (n div 10) @ [n mod 10])"

declare dec_digits.simps [simp del]

definition digit_chars :: "nat list \<Rightarrow> ustr" where
  "digit_chars ds = map (\<lambda>d. 48 + d) ds"

definition str_int :: "int \<Rightarrow> ustr" where
  "str_int i = (if i < 0 then [45] else []) @ digit_chars (dec_digits (nat \<bar>i\<bar>))"

definition hex_digit :: "nat \<Rightarrow> nat" where
  "hex_digit d = (if d < 10 then 48 + d else 87 + d)"

text \<open>\<open>json.dumps(s, ensure_ascii=False)\<close>: the quote, the backslash and the control
  characters below \<open>0x20\<close> are escaped, everything else is written as it is.\<close>

definition escape_char :: "nat \<Rightarrow> ustr" where
  "escape_char c =
     (if c = 34 then [92, 34]
      else if c = 92 then [92, 92]
      else if c = 10 then [92, 110]
      else if c = 13 then [92, 114]
      else if c = 9 then [92, 116]
      else if c = 12 then [92, 102]
      else if c = 8 then [92, 98]
      else if c < 32 then [92, 117, 48, 48, hex_digit (c div 16), hex_digit (c mod 16)]
      else [c])"

definition dumps_str :: "ustr \<Rightarrow> ustr" where
  "dumps_str s = [34] @ concat (map escape_char s) @ [34]"

text \<open>\<open>key.encode("utf-16be")\<close> as a list of bytes; a lone surrogate cannot be encoded.\<close>

definition is_surrogate :: "nat \<Rightarrow> bool" where
  "is_surrogate c \<longleftrightarrow> 0xD800 \<le> c \<and> c \<le> 0xDFFF"

definition utf16_char :: "nat \<Rightarrow> nat list" where
  "utf16_char c =
     (if c < 0x10000 then [c div 256, c mod 256]
      else let d = c - 0x10000; hi = 0xD800 + d div 0x400; lo = 0xDC00 + d mod 0x400
           in [hi div 256, hi mod 256, lo div 256, lo mod 256])"

definition utf16be :: "ustr \<Rightarrow> nat list" where
  "utf16be s = concat (map utf16_char s)"

definition utf16_encodable :: "ustr \<Rightarrow> bool" where
  "utf16_encodable s \<longleftrightarrow> list_all (\<lambda>c. \<not> is_surrogate c) s"

section \<open>Floats\<close>

fun digits_value :: "nat list \<Rightarrow> nat" where
  "digits_value [] = 0"
| "digits_value (d # ds) = d * 10 ^ length ds + digits_value ds"

definition zeros :: "int \<Rightarrow> nat list" where
  "zeros n = replicate (nat n) 0"

text \<open>\<open>abs(value)\<close> of a finite float, as a rational.\<close>

definition float_abs :: "nat list \<Rightarrow> int \<Rightarrow> rat" where
  "float_abs ds n = of_nat (digits_value ds) * 10 powi (n - int (length ds))"

text \<open>\<open>repr(value)\<close> in parts: the digits before the point, the digits after it (none when
  there is no point) and the exponent when one is shown.\<close>

definition repr_parts :: "nat list \<Rightarrow> int \<Rightarrow> nat list \<times> nat list \<times> int option" where
  "repr_parts ds n =
     (if ds = [] then ([0], [0], None)
      else if n \<le> -4 \<or> 16 < n then ([hd ds], tl ds, Some (n - 1))
      else if n \<le> 0 then ([0], zeros (- n) @ ds, None)
      else if int (length ds) \<le> n then (ds @ zeros (n - int (length ds)), [0], None)
      else (take (nat n) ds, drop (nat n) ds, None))"

definition mantissa_text :: "nat list \<Rightarrow> nat list \<Rightarrow> ustr" where
  "mantissa_text ip fp = digit_chars ip @ (if fp = [] then [] else [46] @ digit_chars fp)"

text \<open>\<open>format(Decimal(text), "f")\<close> for a decimal with coefficient \<open>coef\<close> and exponent
  \<open>e\<close>.\<close>

definition decimal_fixed :: "nat list \<Rightarrow> int \<Rightarrow> ustr" where
  "decimal_fixed coef e =
     (let ds = (case dropWhile (\<lambda>d. d = 0) coef of [] \<Rightarrow> [0] | ds' \<Rightarrow> ds');
          dot = int (length ds) + e
      in if dot \<le> 0 then mantissa_text [0] (zeros (- dot) @ ds)
         else if int (length ds) \<le> dot then mantissa_text (ds @ zeros (dot - int (length ds))) []
         else mantissa_text (take (nat dot) ds) (drop (nat dot) ds))"

definition rstrip :: "nat \<Rightarrow> ustr \<Rightarrow> ustr" where
  "rstrip c s = rev (dropWhile (\<lambda>x. x = c) (rev s))"

definition strip_fraction :: "ustr \<Rightarrow> ustr" where
  "strip_fraction s = (if 46 \<in> set s then rstrip 46 (rstrip 48 s) else s)"

text \<open>\<open>_encode_float\<close>. The sign of \<open>shortest\<close> stays in front of both texts.\<close>

definition encode_float :: "pyfloat \<Rightarrow> ustr result" where
  "encode_float f = (case f of
      PyFloat neg ds n \<Rightarrow>
        if ds = [] then Inr [48]
        else
          let (ip, fp, ex) = repr_parts ds n;
              absolute = float_abs ds n;
              minus = (if neg then [45] else [])
          in if 1 / 10 ^ 6 \<le> absolute \<and> absolute < 10 ^ 21
             then Inr (strip_fraction
                    (minus @ decimal_fixed (ip @ fp)
                       ((case ex of None \<Rightarrow> 0 | Some e \<Rightarrow> e) - int (length fp))))
             else (case ex of
                 None \<Rightarrow> Inl (ValueError ''not enough values to unpack'')
               | Some exponent_number \<Rightarrow>
                   Inr (strip_fraction (minus @ mantissa_text ip fp) @ [101] @
                        (if 0 \<le> exponent_number then [43] else []) @ str_int exponent_number))
    | _ \<Rightarrow> Inl (ValueError ''not enough values to unpack''))"

section \<open>Canonical JSON\<close>

text \<open>\<open>_assert_canonical_value\<close>. Keys are strings by the type; like the code, it does not
  look for surrogates in keys.\<close>

fun assert_canonical :: "ujson \<Rightarrow> unit result" where
  "assert_canonical JNull = Inr ()"
| "assert_canonical (JBool b) = Inr ()"
| "assert_canonical (JStr s) =
     guardE (\<not> list_ex is_surrogate s) (ValueError ''unpaired Unicode surrogate is not valid JCS'')"
| "assert_canonical (JInt i) =
     guardE (\<bar>i\<bar> \<le> 9007199254740991) (ValueError ''integer exceeds the JCS interoperable range'')"
| "assert_canonical (JFloat f) =
     guardE (float_is_finite f) (ValueError ''non-finite values are not valid JCS'')"
| "assert_canonical (JList xs) = forE assert_canonical xs"
| "assert_canonical (JObj d) = forE (\<lambda>p. assert_canonical (snd p)) d"

fun join :: "ustr \<Rightarrow> ustr list \<Rightarrow> ustr" where
  "join sep [] = []"
| "join sep [t] = t"
| "join sep (t # u # ts) = t @ sep @ join sep (u # ts)"

definition sorted_items :: "ustr dict \<Rightarrow> ustr dict" where
  "sorted_items d = sort_key (\<lambda>p. utf16be (fst p)) d"

lemma set_sorted_items [simp]: "set (sorted_items d) = set d"
  by (simp add: sorted_items_def)

text \<open>\<open>_encode_canonical\<close>. Sorting the keys raises when one of them holds a lone
  surrogate (\<open>UnicodeEncodeError\<close>, a \<open>ValueError\<close>).\<close>

function encode :: "ujson \<Rightarrow> ustr result" where
  "encode JNull = Inr (ucs ''null'')"
| "encode (JBool b) = Inr (if b then ucs ''true'' else ucs ''false'')"
| "encode (JStr s) = Inr (dumps_str s)"
| "encode (JInt i) = Inr (str_int i)"
| "encode (JFloat f) = encode_float f"
| "encode (JList xs) = bindE (mapE encode xs) (\<lambda>ts. Inr ([91] @ join [44] ts @ [93]))"
| "encode (JObj d) =
     bindE (guardE (list_all (\<lambda>p. utf16_encodable (fst p)) d)
             (ValueError ''surrogates not allowed'')) (\<lambda>_.
     bindE (mapE (\<lambda>p. bindE (encode (snd p)) (\<lambda>t. Inr (dumps_str (fst p) @ [58] @ t)))
             (sorted_items d)) (\<lambda>ts.
     Inr ([123] @ join [44] ts @ [125])))"
  by pat_completeness auto
termination
proof (relation "measure size")
  fix d :: "ustr dict" and p
  assume "p \<in> set (sorted_items d)"
  then have "size (snd p) < Suc (size_list (\<lambda>p. size (snd p)) d)"
    by (induction d) (auto simp: less_Suc_eq_le le_Suc_eq)
  then have "size (snd p) < Suc (size_list (size_prod (\<lambda>_. 0) size) d)"
    by (rule less_le_trans) (simp, induction d, auto)
  then show "(snd p, JObj d) \<in> measure size"
    by simp
qed (auto simp: less_Suc_eq_le size_list_estimation')

definition canonical_json :: "ujson \<Rightarrow> ustr result" where
  "canonical_json v = bindE (assert_canonical v) (\<lambda>_. encode v)"

section \<open>The float encoder is the ECMAScript number-to-string algorithm\<close>

text \<open>
  RFC 8785 prescribes ECMAScript's \<open>Number::toString\<close>. With \<open>k\<close> shortest digits and the
  value \<open>0.d1 ... dk * 10 ^ n\<close> its clauses are the following.
\<close>

definition es_number :: "pyfloat \<Rightarrow> ustr" where
  "es_number f = (case f of
      PyFloat neg ds n \<Rightarrow>
        (let k = int (length ds) in
         if ds = [] then [48]
         else (if neg then [45] else []) @
           (if k \<le> n \<and> n \<le> 21 then digit_chars (ds @ zeros (n - k))
            else if 0 < n \<and> n \<le> 21 then
              digit_chars (take (nat n) ds) @ [46] @ digit_chars (drop (nat n) ds)
            else if - 6 < n \<and> n \<le> 0 then [48, 46] @ digit_chars (zeros (- n) @ ds)
            else digit_chars [hd ds] @ (if k = 1 then [] else [46] @ digit_chars (tl ds)) @ [101] @
              (if 0 \<le> n - 1 then [43] else [45]) @ digit_chars (dec_digits (nat \<bar>n - 1\<bar>))))
    | _ \<Rightarrow> [])"

lemma digits_value_less: "\<forall>d \<in> set ds. d \<le> 9 \<Longrightarrow> digits_value ds < 10 ^ length ds"
proof (induction ds)
  case (Cons d ds)
  then have "d * 10 ^ length ds + digits_value ds < 9 * 10 ^ length ds + 10 ^ length ds"
    by (intro add_le_less_mono mult_right_mono) auto
  then show ?case by simp
qed simp

lemma digits_value_ge:
  assumes "ds \<noteq> []" and "hd ds \<noteq> 0"
  shows "10 ^ (length ds - 1) \<le> digits_value ds"
proof -
  obtain d es where ds: "ds = d # es" using assms(1) by (cases ds) auto
  with assms(2) have "1 \<le> d" by simp
  then have "1 * 10 ^ length es \<le> d * 10 ^ length es + digits_value es"
    by (intro trans_le_add1 mult_right_mono) simp_all
  with ds show ?thesis by simp
qed

lemma float_abs_bounds:
  assumes "float_wf (PyFloat neg ds n)" and "ds \<noteq> []"
  shows "10 powi (n - 1) \<le> float_abs ds n" and "float_abs ds n < 10 powi n"
proof -
  let ?k = "length ds"
  have k: "0 < ?k" using assms(2) by simp
  have split_n: "(10::rat) powi n = 10 ^ ?k * 10 powi (n - int ?k)"
    by (simp flip: power_int_of_nat add: power_int_add [symmetric])
  have split_n1: "(10::rat) powi (n - 1) = 10 ^ (?k - 1) * 10 powi (n - int ?k)"
  proof -
    have "int (?k - 1) = int ?k - 1" using k by linarith
    then show ?thesis by (simp only: power_int_of_nat [symmetric] power_int_add [symmetric])
        (simp flip: power_int_of_nat add: power_int_add [symmetric])
  qed
  have "digits_value ds < 10 ^ ?k" and "10 ^ (?k - 1) \<le> digits_value ds"
    using assms digits_value_less [of ds] digits_value_ge [of ds] by (auto simp: float_wf_def)
  then have "of_nat (digits_value ds) < (10::rat) ^ ?k"
    and "(10::rat) ^ (?k - 1) \<le> of_nat (digits_value ds)"
    by (metis of_nat_less_iff of_nat_numeral of_nat_power,
        metis of_nat_le_iff of_nat_numeral of_nat_power)
  then show "10 powi (n - 1) \<le> float_abs ds n" and "float_abs ds n < 10 powi n"
    unfolding float_abs_def split_n split_n1
    by (simp_all add: mult_right_mono mult_strict_right_mono)
qed

lemma float_range:
  assumes "float_wf (PyFloat neg ds n)" and "ds \<noteq> []"
  shows "1 / 10 ^ 6 \<le> float_abs ds n \<longleftrightarrow> - 5 \<le> n"
    and "float_abs ds n < 10 ^ 21 \<longleftrightarrow> n \<le> 21"
proof -
  note b = float_abs_bounds [OF assms]
  have p: "(1::rat) / 10 ^ 6 = 10 powi (- 6)" "(10::rat) ^ 21 = 10 powi 21"
    by (simp_all add: power_int_def field_simps)
  have mono: "(10::rat) powi a \<le> 10 powi b" if "a \<le> b" for a b :: int
    using that by (simp add: power_int_increasing)
  show "1 / 10 ^ 6 \<le> float_abs ds n \<longleftrightarrow> - 5 \<le> n"
  proof
    assume "1 / 10 ^ 6 \<le> float_abs ds n"
    with b(2) p have "(10::rat) powi (- 6) < 10 powi n" by simp
    then show "- 5 \<le> n" using mono [of n "- 6"] by (cases "n \<le> - 6") simp_all
  next
    assume "- 5 \<le> n"
    with mono [of "- 6" "n - 1"] b(1) p show "1 / 10 ^ 6 \<le> float_abs ds n" by simp
  qed
  show "float_abs ds n < 10 ^ 21 \<longleftrightarrow> n \<le> 21"
  proof
    assume "float_abs ds n < 10 ^ 21"
    with b(1) p have "(10::rat) powi (n - 1) < 10 powi 21" by simp
    then show "n \<le> 21" using mono [of 21 "n - 1"] by (cases "21 \<le> n - 1") simp_all
  next
    assume "n \<le> 21"
    with mono [of n 21] b(2) p show "float_abs ds n < 10 ^ 21" by simp
  qed
qed

lemma rstrip_last_other: "s \<noteq> [] \<Longrightarrow> last s \<noteq> c \<Longrightarrow> rstrip c s = s"
  by (cases s rule: rev_cases) (auto simp: rstrip_def)

lemma rstrip_snoc [simp]: "rstrip c (s @ [c]) = rstrip c s"
  by (simp add: rstrip_def)

lemma strip_fraction_keep:
  "s \<noteq> [] \<Longrightarrow> last s \<noteq> 46 \<Longrightarrow> last s \<noteq> 48 \<Longrightarrow> strip_fraction s = s"
  by (simp add: strip_fraction_def rstrip_last_other)

lemma strip_fraction_no_point: "46 \<notin> set s \<Longrightarrow> strip_fraction s = s"
  by (simp add: strip_fraction_def)

lemma strip_fraction_point_zero:
  assumes "s \<noteq> []" and "last s \<noteq> 46"
  shows "strip_fraction (s @ [46, 48]) = s"
proof -
  have "rstrip 48 (s @ [46, 48]) = s @ [46]"
    using rstrip_snoc [of 48 "s @ [46]"] by (simp add: rstrip_last_other)
  then show ?thesis
    using assms by (simp add: strip_fraction_def rstrip_last_other)
qed

lemma digit_chars_simps [simp]:
  "digit_chars [] = []"
  "digit_chars (d # ds) = (48 + d) # digit_chars ds"
  "digit_chars (ds @ es) = digit_chars ds @ digit_chars es"
  "digit_chars ds = [] \<longleftrightarrow> ds = []"
  by (simp_all add: digit_chars_def)

lemma point_notin_digits [simp]: "46 \<notin> set (digit_chars ds)"
  by (auto simp: digit_chars_def)

lemma last_digit_chars: "ds \<noteq> [] \<Longrightarrow> last (digit_chars ds) = 48 + last ds"
  by (simp add: digit_chars_def last_map)

lemma zeros_simps [simp]: "zeros 0 = []" "n \<le> 0 \<Longrightarrow> zeros n = []"
  by (simp_all add: zeros_def)

lemma dropWhile_zeros: "dropWhile (\<lambda>d. d = 0) (zeros n @ ds) = dropWhile (\<lambda>d. d = 0) ds"
proof -
  have "dropWhile (\<lambda>d. d = (0::nat)) (replicate m 0 @ ds) = dropWhile (\<lambda>d. d = 0) ds" for m
    by (induction m) simp_all
  then show ?thesis by (simp add: zeros_def)
qed

lemma dropWhile_hd: "ds \<noteq> [] \<Longrightarrow> hd ds \<noteq> 0 \<Longrightarrow> dropWhile (\<lambda>d. d = (0::nat)) (ds @ es) = ds @ es"
  by (cases ds) auto

lemma decimal_fixed_eq:
  assumes "ds \<noteq> []" and "hd ds \<noteq> 0"
  shows "decimal_fixed (zeros m @ ds @ es) (n - int (length ds + length es)) =
    (if n \<le> 0 then mantissa_text [0] (zeros (- n) @ ds @ es)
     else if int (length ds + length es) \<le> n
       then mantissa_text (ds @ es @ zeros (n - int (length ds + length es))) []
     else mantissa_text (take (nat n) (ds @ es)) (drop (nat n) (ds @ es)))"
proof -
  let ?cs = "ds @ es"
  have nz: "dropWhile (\<lambda>d. d = 0) (zeros m @ ?cs) = ?cs"
    unfolding dropWhile_zeros using assms by (rule dropWhile_hd)
  have cs: "(case ?cs of [] \<Rightarrow> [0] | d # ds' \<Rightarrow> d # ds') = ?cs"
    using assms(1) by (cases ds) simp_all
  have dot: "int (length ?cs) + (n - int (length ds + length es)) = n" by simp
  show ?thesis
    unfolding decimal_fixed_def Let_def nz cs dot by simp
qed

lemma mantissa_text_cases:
  "mantissa_text ip [] = digit_chars ip"
  "fp \<noteq> [] \<Longrightarrow> mantissa_text ip fp = digit_chars ip @ [46] @ digit_chars fp"
  by (simp_all add: mantissa_text_def)

lemma strip_mantissa:
  assumes "fp \<noteq> []" and "last fp \<noteq> 0" and "46 \<notin> set m"
  shows "strip_fraction (m @ mantissa_text ip fp) = m @ mantissa_text ip fp"
  using assms by (intro strip_fraction_keep) (auto simp: mantissa_text_def last_digit_chars digit_chars_def last_map)

lemma encode_float_fixed:
  assumes wf: "float_wf (PyFloat neg ds n)" and ne: "ds \<noteq> []" and lo: "- 5 \<le> n" and hi: "n \<le> 21"
  shows "encode_float (PyFloat neg ds n) = Inr (es_number (PyFloat neg ds n))"
proof -
  let ?k = "int (length ds)"
  let ?m = "if neg then [45] else [] :: nat list"
  let ?p = "repr_parts ds n"
  let ?fix = "decimal_fixed (fst ?p @ fst (snd ?p))
    ((case snd (snd ?p) of None \<Rightarrow> 0 | Some e \<Rightarrow> e) - int (length (fst (snd ?p))))"
  have hd: "hd ds \<noteq> 0" and last: "last ds \<noteq> 0" using wf ne by (auto simp: float_wf_def)
  have m: "46 \<notin> set ?m" by simp
  have k: "ds = [hd ds] @ tl ds" using ne by simp
  have l1: "int (length ds - Suc 0) = ?k - 1" using ne by (cases ds) simp_all
  note fixed = decimal_fixed_eq [OF ne hd]
  consider (low) "n \<le> 0" | (int_exp) "0 < n" "?k \<le> n" "16 < n" | (int_fix) "0 < n" "?k \<le> n" "n \<le> 16"
    | (frac) "0 < n" "n < ?k" by linarith
  then have "strip_fraction (?m @ ?fix) = es_number (PyFloat neg ds n)"
  proof cases
    case low
    have "?fix = mantissa_text [0] (zeros (- n) @ ds)"
    proof (cases "n \<le> - 4")
      case True
      then show ?thesis
        using fixed [of 0 "[]" n] low ne k l1 by (simp add: repr_parts_def algebra_simps)
    next
      case False
      have "nat (1 - n) = Suc (nat (- n))" using low by linarith
      with False show ?thesis
        using fixed [of "1 - n" "[]" n] low ne by (simp add: repr_parts_def zeros_def algebra_simps)
    qed
    moreover have "zeros (- n) @ ds \<noteq> []" "last (zeros (- n) @ ds) \<noteq> 0" using ne last by auto
    ultimately have "strip_fraction (?m @ ?fix) = ?m @ mantissa_text [0] (zeros (- n) @ ds)"
      using m by (simp add: strip_mantissa)
    moreover have "\<not> ?k \<le> n" using low ne l1 by (cases ds) auto
    ultimately show ?thesis
      using low lo ne by (simp add: es_number_def mantissa_text_def Let_def)
  next
    case int_exp
    then have "?fix = mantissa_text (ds @ zeros (n - ?k)) []"
      using fixed [of 0 "[]" n] ne k l1 by (simp add: repr_parts_def algebra_simps)
    then show ?thesis
      using int_exp hi ne by (simp add: es_number_def mantissa_text_cases strip_fraction_no_point Let_def)
  next
    case int_fix
    have "?fix = mantissa_text (ds @ zeros (n - ?k)) [0]"
      using fixed [of 0 "zeros (n - ?k) @ [0]" n] int_fix ne
      by (simp add: repr_parts_def zeros_def algebra_simps nat_diff_distrib')
    moreover have "strip_fraction ((?m @ digit_chars (ds @ zeros (n - ?k))) @ [46, 48]) =
        ?m @ digit_chars (ds @ zeros (n - ?k))"
      using ne last_digit_chars [of "ds @ zeros (n - ?k)"]
      by (intro strip_fraction_point_zero) (simp_all only: digit_chars_simps, auto)
    ultimately show ?thesis
      using int_fix hi ne by (simp add: es_number_def mantissa_text_cases Let_def)
  next
    case frac
    have "?fix = mantissa_text (take (nat n) ds) (drop (nat n) ds)"
      using fixed [of 0 "[]" n] frac ne k l1
      by (cases "16 < n") (simp_all add: repr_parts_def algebra_simps)
    moreover have "drop (nat n) ds \<noteq> []" "last (drop (nat n) ds) \<noteq> 0" using frac last by auto
    ultimately have "strip_fraction (?m @ ?fix) =
        ?m @ mantissa_text (take (nat n) ds) (drop (nat n) ds)"
      using strip_mantissa [OF _ _ m, of "drop (nat n) ds"] by metis
    with frac hi ne show ?thesis by (simp add: es_number_def mantissa_text_cases Let_def)
  qed
  then show ?thesis
    using float_range [OF wf ne] lo hi ne
    by (simp add: encode_float_def Let_def case_prod_beta)
qed

lemma encode_float_exponent:
  assumes wf: "float_wf (PyFloat neg ds n)" and ne: "ds \<noteq> []" and out: "n < - 5 \<or> 21 < n"
  shows "encode_float (PyFloat neg ds n) = Inr (es_number (PyFloat neg ds n))"
proof -
  let ?m = "if neg then [45] else [] :: nat list"
  have last: "last ds \<noteq> 0" using wf ne by (auto simp: float_wf_def)
  have parts: "repr_parts ds n = ([hd ds], tl ds, Some (n - 1))"
    using ne out by (auto simp: repr_parts_def)
  have strip: "strip_fraction (?m @ mantissa_text [hd ds] (tl ds)) = ?m @ mantissa_text [hd ds] (tl ds)"
  proof (cases "tl ds = []")
    case True
    have "46 \<noteq> 48 + d" for d :: nat by simp
    with True show ?thesis by (intro strip_fraction_no_point) (auto simp: mantissa_text_def)
  next
    case False
    with last have "last (tl ds) \<noteq> 0" by (simp add: last_tl)
    with False show ?thesis by (simp add: strip_mantissa)
  qed
  have k1: "int (length ds) = 1 \<longleftrightarrow> tl ds = []" using ne by (cases ds) auto
  have k2: "\<not> (int (length ds) \<le> n \<and> n \<le> 21)" "\<not> (0 < n \<and> n \<le> 21)" "\<not> (- 6 < n \<and> n \<le> 0)"
    using out ne by auto
  have "encode_float (PyFloat neg ds n) =
      Inr (?m @ mantissa_text [hd ds] (tl ds) @ [101] @ (if 0 \<le> n - 1 then [43] else []) @ str_int (n - 1))"
    using float_range [OF wf ne] out ne strip by (auto simp: encode_float_def parts)
  also have "\<dots> = Inr (es_number (PyFloat neg ds n))"
    using ne k1 k2 by (auto simp: es_number_def mantissa_text_def str_int_def Let_def)
  finally show ?thesis .
qed

text \<open>
  C31. For every finite float the encoder returns, and what it returns is the number text RFC 8785
  prescribes (ECMAScript's algorithm): the thresholds, the stripped zeros, the exponent form and
  its sign agree on every shortest decimal.
\<close>

theorem encode_float_is_ecmascript:
  assumes "float_wf (PyFloat neg ds n)"
  shows "encode_float (PyFloat neg ds n) = Inr (es_number (PyFloat neg ds n))"
proof (cases "ds = []")
  case True
  then show ?thesis by (simp add: encode_float_def es_number_def)
next
  case False
  then show ?thesis
    using encode_float_fixed [OF assms] encode_float_exponent [OF assms] by fastforce
qed

theorem encode_float_is_ecmascript_witness:
  "encode_float (PyFloat True [1, 5] (- 6)) = Inr (ucs ''-1.5e-7'')"
proof -
  have "float_wf (PyFloat True [1, 5] (- 6))" by (simp add: float_wf_def)
  from encode_float_is_ecmascript [OF this] show ?thesis
    by (simp add: es_number_def dec_digits.simps)
qed

end
