(* ===== verification/CanonicalText.thy ===== *)
theory CanonicalText
  imports Canonical
begin

text \<open>
  The normal form of a value, and \<open>json.loads\<close> on canonical texts. Reading a canonical text
  back gives the normal form: objects sorted by the UTF-16 form of their keys, and floats with an
  integral value below \<open>1e21\<close> read as integers. So a canonical text and a normal form
  determine each other; the store theories represent a JSON \<open>TEXT\<close> column by the value its
  text denotes.
\<close>

section \<open>Normal forms\<close>

definition float_norm :: "pyfloat \<Rightarrow> 's jsn" where
  "float_norm f = (case f of
      PyFloat neg ds n \<Rightarrow>
        if ds = [] then JInt 0
        else if int (length ds) \<le> n \<and> n \<le> 21
        then JInt ((if neg then -1 else 1) * int (digits_value ds * 10 ^ nat (n - int (length ds))))
        else JFloat f
    | _ \<Rightarrow> JFloat f)"

fun norm_by :: "('s \<Rightarrow> nat list) \<Rightarrow> 's jsn \<Rightarrow> 's jsn" where
  "norm_by ord (JFloat f) = float_norm f"
| "norm_by ord (JList xs) = JList (map (norm_by ord) xs)"
| "norm_by ord (JObj d) =
     JObj (sort_key (\<lambda>p. ord (fst p)) (map (\<lambda>p. (fst p, norm_by ord (snd p))) d))"
| "norm_by ord v = v"

definition unorm :: "ujson \<Rightarrow> ujson" where
  "unorm = norm_by utf16be"

section \<open>Reading a canonical text\<close>

fun strip_prefix :: "ustr \<Rightarrow> ustr \<Rightarrow> ustr option" where
  "strip_prefix [] s = Some s"
| "strip_prefix (c # p) [] = None"
| "strip_prefix (c # p) (d # s) = (if c = d then strip_prefix p s else None)"

fun span_digits :: "ustr \<Rightarrow> nat list \<times> ustr" where
  "span_digits [] = ([], [])"
| "span_digits (c # s) =
     (if 48 \<le> c \<and> c \<le> 57 then (case span_digits s of (ds, r) \<Rightarrow> ((c - 48) # ds, r))
      else ([], c # s))"

definition make_float :: "bool \<Rightarrow> nat list \<Rightarrow> int \<Rightarrow> pyfloat" where
  "make_float neg cs point =
     (let ds = dropWhile (\<lambda>d. d = 0) cs
      in if ds = [] then PyFloat neg [] 0
         else PyFloat neg (rstrip 0 ds) (point - int (length cs - length ds)))"

definition split_sign :: "ustr \<Rightarrow> bool \<times> ustr" where
  "split_sign s = (case s of [] \<Rightarrow> (False, [])
    | c # r \<Rightarrow> if c = 45 then (True, r) else (False, c # r))"

definition split_exp_sign :: "ustr \<Rightarrow> bool \<times> ustr" where
  "split_exp_sign s = (if s \<noteq> [] \<and> hd s = 43 then (False, tl s) else split_sign s)"

definition parse_fraction :: "ustr \<Rightarrow> nat list \<times> ustr" where
  "parse_fraction s = (case s of [] \<Rightarrow> ([], [])
    | c # r \<Rightarrow> if c = 46 then span_digits r else ([], c # r))"

definition parse_exponent :: "ustr \<Rightarrow> (int option \<times> ustr) option" where
  "parse_exponent s =
     (if s \<noteq> [] \<and> (hd s = 101 \<or> hd s = 69) then
        (case split_exp_sign (tl s) of (neg, r) \<Rightarrow>
         case span_digits r of (ds, r') \<Rightarrow>
           if ds = [] then None
           else Some (Some ((if neg then -1 else 1) * int (digits_value ds)), r'))
      else Some (None, s))"

definition parse_number :: "ustr \<Rightarrow> (ujson \<times> ustr) option" where
  "parse_number s =
     (case split_sign s of (neg, s1) \<Rightarrow>
      case span_digits s1 of (ip, s2) \<Rightarrow>
      case parse_fraction s2 of (fp, s3) \<Rightarrow>
        if ip = [] \<or> (hd ip = 0 \<and> tl ip \<noteq> []) then None
        else (case parse_exponent s3 of
            None \<Rightarrow> None
          | Some (ex, s4) \<Rightarrow>
              if fp = [] \<and> ex = None
              then Some (JInt ((if neg then -1 else 1) * int (digits_value ip)), s4)
              else Some (JFloat (make_float neg (ip @ fp)
                     (int (length ip) + (case ex of None \<Rightarrow> 0 | Some e \<Rightarrow> e))), s4)))"

definition hex_value :: "nat \<Rightarrow> nat option" where
  "hex_value c =
     (if 48 \<le> c \<and> c \<le> 57 then Some (c - 48)
      else if 97 \<le> c \<and> c \<le> 102 then Some (c - 87)
      else if 65 \<le> c \<and> c \<le> 70 then Some (c - 55)
      else None)"

definition unescape :: "ustr \<Rightarrow> (nat \<times> ustr) option" where
  "unescape s = (case s of
      [] \<Rightarrow> None
    | e # r \<Rightarrow>
        if e = 34 \<or> e = 92 \<or> e = 47 then Some (e, r)
        else if e = 110 then Some (10, r)
        else if e = 114 then Some (13, r)
        else if e = 116 then Some (9, r)
        else if e = 102 then Some (12, r)
        else if e = 98 then Some (8, r)
        else if e = 117 then
          (case map hex_value (take 4 r) of
             [Some a, Some b, Some c, Some d] \<Rightarrow> Some (4096 * a + 256 * b + 16 * c + d, drop 4 r)
           | _ \<Rightarrow> None)
        else None)"

text \<open>The characters of a string after its opening quote.\<close>

function parse_chars :: "ustr \<Rightarrow> (ustr \<times> ustr) option" where
  "parse_chars [] = None"
| "parse_chars (c # s) =
     (if c = 34 then Some ([], s)
      else if c = 92 then
        (case unescape s of
           None \<Rightarrow> None
         | Some (x, r) \<Rightarrow>
             if length r < length s then map_option (\<lambda>p. (x # fst p, snd p)) (parse_chars r) else None)
      else if c < 32 then None
      else map_option (\<lambda>p. (c # fst p, snd p)) (parse_chars s))"
  by pat_completeness auto
termination by (relation "measure length") auto

definition parse_str :: "ustr \<Rightarrow> (ustr \<times> ustr) option" where
  "parse_str s = (case s of c # r \<Rightarrow> if c = 34 then parse_chars r else None | [] \<Rightarrow> None)"

text \<open>Values, the elements of an array after its bracket, the members of an object after its
  brace. The fuel bounds the depth of the descent; the length of the text is enough.\<close>

fun parse_value :: "nat \<Rightarrow> ustr \<Rightarrow> (ujson \<times> ustr) option"
  and parse_elems :: "nat \<Rightarrow> ustr \<Rightarrow> (ujson list \<times> ustr) option"
  and parse_members :: "nat \<Rightarrow> ustr \<Rightarrow> (ustr dict \<times> ustr) option" where
  "parse_value 0 s = None"
| "parse_value (Suc n) [] = None"
| "parse_value (Suc n) (c # r) =
     (if c = 110 then map_option (\<lambda>q. (JNull, q)) (strip_prefix (ucs ''ull'') r)
      else if c = 116 then map_option (\<lambda>q. (JBool True, q)) (strip_prefix (ucs ''rue'') r)
      else if c = 102 then map_option (\<lambda>q. (JBool False, q)) (strip_prefix (ucs ''alse'') r)
      else if c = 34 then map_option (\<lambda>p. (JStr (fst p), snd p)) (parse_chars r)
      else if c = 91 then
        (if strip_prefix [93] r \<noteq> None then Some (JList [], the (strip_prefix [93] r))
         else map_option (\<lambda>p. (JList (fst p), snd p)) (parse_elems n r))
      else if c = 123 then
        (if strip_prefix [125] r \<noteq> None then Some (JObj [], the (strip_prefix [125] r))
         else map_option (\<lambda>p. (JObj (fst p), snd p)) (parse_members n r))
      else parse_number (c # r))"
| "parse_elems 0 s = None"
| "parse_elems (Suc n) s =
     (case parse_value n s of
        None \<Rightarrow> None
      | Some (v, r) \<Rightarrow>
          (case r of
             [] \<Rightarrow> None
           | c # r' \<Rightarrow>
               if c = 93 then Some ([v], r')
               else if c = 44 then map_option (\<lambda>p. (v # fst p, snd p)) (parse_elems n r')
               else None))"
| "parse_members 0 s = None"
| "parse_members (Suc n) s =
     (case parse_str s of
        None \<Rightarrow> None
      | Some (k, q) \<Rightarrow>
          (case strip_prefix [58] q of
             None \<Rightarrow> None
           | Some q' \<Rightarrow>
               (case parse_value n q' of
                  None \<Rightarrow> None
                | Some (v, r) \<Rightarrow>
                    (case r of
                       [] \<Rightarrow> None
                     | c # r' \<Rightarrow>
                         if c = 125 then Some ([(k, v)], r')
                         else if c = 44
                         then map_option (\<lambda>p. ((k, v) # fst p, snd p)) (parse_members n r')
                         else None))))"

definition json_loads :: "ustr \<Rightarrow> ujson result" where
  "json_loads t = (case parse_value (Suc (length t)) t of
      Some (v, []) \<Rightarrow> Inr v
    | _ \<Rightarrow> Inl (ValueError ''not a canonical JSON text''))"

section \<open>Reading back numbers and strings\<close>

text \<open>What may follow a value in a canonical text: nothing, a comma, or a closing bracket.\<close>

definition delimited :: "ustr \<Rightarrow> bool" where
  "delimited rest \<longleftrightarrow> (rest = [] \<or> hd rest \<in> {44, 93, 125})"

lemma delimited_cases:
  assumes "delimited rest"
  obtains (empty) "rest = []" | (comma) r where "rest = 44 # r" | (bracket) r where "rest = 93 # r"
    | (brace) r where "rest = 125 # r"
  using assms by (cases rest) (auto simp: delimited_def)

lemma span_digits_append:
  assumes "\<forall>d \<in> set ds. d \<le> 9" and "rest = [] \<or> \<not> (48 \<le> hd rest \<and> hd rest \<le> 57)"
  shows "span_digits (digit_chars ds @ rest) = (ds, rest)"
  using assms
proof (induction ds)
  case Nil
  then show ?case by (cases rest) auto
qed simp

lemma dec_digits_props:
  "(\<forall>d \<in> set (dec_digits n). d \<le> 9) \<and> dec_digits n \<noteq> [] \<and>
   (hd (dec_digits n) = 0 \<longrightarrow> tl (dec_digits n) = [])"
proof (induction n rule: dec_digits.induct)
  case (1 n)
  show ?case
  proof (cases "n < 10")
    case True
    then show ?thesis using dec_digits.simps [of n] dec_digits.simps [of 0] by auto
  next
    case False
    let ?q = "dec_digits (n div 10)"
    have "hd ?q \<noteq> 0"
    proof
      assume h: "hd ?q = 0"
      with 1 False have "tl ?q = []" and "?q \<noteq> []" by blast+
      with h have "?q = [0]" by (cases ?q) auto
      moreover have "n div 10 < 10 \<Longrightarrow> ?q = [n div 10]" by (simp add: dec_digits.simps)
      moreover have "\<not> n div 10 < 10 \<Longrightarrow> length ?q \<noteq> 1"
        using dec_digits.simps [of "n div 10"] dec_digits.simps [of "n div 10 div 10"] by auto
      ultimately show False using False by (cases "n div 10 < 10") auto
    qed
    with 1 False show ?thesis by (auto simp: dec_digits.simps [of n])
  qed
qed

lemma digits_value_snoc: "digits_value (ds @ [d]) = 10 * digits_value ds + d"
  by (induction ds) (simp_all add: algebra_simps)

lemma digits_value_dec [simp]: "digits_value (dec_digits n) = n"
proof (induction n rule: dec_digits.induct)
  case (1 n)
  then show ?case
    using dec_digits.simps [of n] by (cases "n < 10") (simp_all add: digits_value_snoc)
qed

lemma digits_value_zeros: "digits_value (ds @ zeros m) = digits_value ds * 10 ^ nat m"
proof -
  have "digits_value (replicate j 0) = 0" for j by (induction j) simp_all
  then have "digits_value (ds @ replicate j 0) = digits_value ds * 10 ^ j" for j
    by (induction ds) (simp_all add: algebra_simps power_add)
  then show ?thesis by (simp add: zeros_def)
qed

lemma parse_exponent_delimited: "delimited rest \<Longrightarrow> parse_exponent rest = Some (None, rest)"
  by (erule delimited_cases) (simp_all add: parse_exponent_def)

lemma parse_fraction_delimited: "delimited rest \<Longrightarrow> parse_fraction rest = ([], rest)"
  by (erule delimited_cases) (simp_all add: parse_fraction_def)

lemma split_sign_digits:
  "ds \<noteq> [] \<Longrightarrow>
   split_sign ((if neg then [45] else []) @ digit_chars ds @ rest) = (neg, digit_chars ds @ rest)"
  by (cases ds) (auto simp: split_sign_def)

lemma not_digit_delimited: "delimited rest \<Longrightarrow> rest = [] \<or> \<not> (48 \<le> hd rest \<and> hd rest \<le> 57)"
  by (auto simp: delimited_def)

lemma parse_number_int_text:
  assumes ds: "\<forall>d \<in> set ds. d \<le> 9" "ds \<noteq> []" "hd ds = 0 \<longrightarrow> tl ds = []" and d: "delimited rest"
  shows "parse_number ((if neg then [45] else []) @ digit_chars ds @ rest) =
    Some (JInt ((if neg then -1 else 1) * int (digits_value ds)), rest)"
  using ds span_digits_append [OF ds(1) not_digit_delimited [OF d]]
  by (auto simp: parse_number_def split_sign_digits parse_exponent_delimited [OF d]
      parse_fraction_delimited [OF d] simp del: append_assoc)

lemma parse_number_str_int:
  assumes "delimited rest"
  shows "parse_number (str_int i @ rest) = Some (JInt i, rest)"
proof -
  note p = dec_digits_props [of "nat \<bar>i\<bar>"]
  show ?thesis
    using parse_number_int_text [of "dec_digits (nat \<bar>i\<bar>)" rest "i < 0"] p assms
    by (auto simp: str_int_def)
qed

lemma make_float_eq:
  assumes "ds \<noteq> []" and "hd ds \<noteq> 0" and "last ds \<noteq> 0"
  shows "make_float neg (replicate m 0 @ ds) p = PyFloat neg ds (p - int m)"
proof -
  have "dropWhile (\<lambda>d. d = 0) (replicate m 0 @ ds) = ds"
    using dropWhile_zeros [of "int m" ds] dropWhile_hd [of ds "[]"] assms by (simp add: zeros_def)
  then show ?thesis
    using assms by (simp add: make_float_def Let_def rstrip_last_other)
qed

lemma parse_number_fraction_text:
  assumes ip: "\<forall>d \<in> set ip. d \<le> 9" "ip \<noteq> []" "hd ip = 0 \<longrightarrow> tl ip = []"
    and fp: "\<forall>d \<in> set fp. d \<le> 9" "fp \<noteq> []" and d: "delimited rest"
  shows "parse_number ((if neg then [45] else []) @ digit_chars ip @ [46] @ digit_chars fp @ rest) =
    Some (JFloat (make_float neg (ip @ fp) (int (length ip))), rest)"
proof -
  have "span_digits (digit_chars ip @ [46] @ digit_chars fp @ rest) = (ip, [46] @ digit_chars fp @ rest)"
    by (rule span_digits_append [OF ip(1)]) simp
  moreover have "parse_fraction ([46] @ digit_chars fp @ rest) = (fp, rest)"
    using span_digits_append [OF fp(1) not_digit_delimited [OF d]] by (simp add: parse_fraction_def)
  ultimately show ?thesis
    using split_sign_digits [OF ip(2), of neg "[46] @ digit_chars fp @ rest"] ip fp
    by (auto simp: parse_number_def parse_exponent_delimited [OF d])
qed

lemma parse_exponent_text:
  assumes d: "delimited rest"
  shows "parse_exponent ([101] @ (if 0 \<le> e then [43] else [45]) @
      digit_chars (dec_digits (nat \<bar>e\<bar>)) @ rest) = Some (Some e, rest)"
proof -
  note p = dec_digits_props [of "nat \<bar>e\<bar>"]
  have "span_digits (digit_chars (dec_digits (nat \<bar>e\<bar>)) @ rest) = (dec_digits (nat \<bar>e\<bar>), rest)"
    using p span_digits_append not_digit_delimited [OF d] by blast
  then show ?thesis
    using p by (cases "0 \<le> e") (simp_all add: parse_exponent_def split_exp_sign_def split_sign_def)
qed

lemma parse_number_exponent_text:
  assumes ip: "d \<le> 9" "d \<noteq> 0" and fp: "\<forall>d \<in> set fp. d \<le> 9" and dl: "delimited rest"
  shows "parse_number ((if neg then [45] else []) @ digit_chars [d] @
      (if fp = [] then [] else [46] @ digit_chars fp) @ [101] @
      (if 0 \<le> e then [43] else [45]) @ digit_chars (dec_digits (nat \<bar>e\<bar>)) @ rest) =
    Some (JFloat (make_float neg (d # fp) (1 + e)), rest)"
proof -
  let ?ex = "[101] @ (if 0 \<le> e then [43] else [45]) @ digit_chars (dec_digits (nat \<bar>e\<bar>)) @ rest"
  let ?fr = "(if fp = [] then [] else [46] @ digit_chars fp) @ ?ex"
  have 1: "span_digits (digit_chars [d] @ ?fr) = ([d], ?fr)"
    by (rule span_digits_append) (use ip in auto)
  have "span_digits (digit_chars fp @ ?ex) = (fp, ?ex)"
    by (rule span_digits_append [OF fp]) auto
  then have 2: "parse_fraction ?fr = (fp, ?ex)"
    by (simp add: parse_fraction_def)
  have 3: "split_sign ((if neg then [45] else []) @ digit_chars [d] @ ?fr) = (neg, digit_chars [d] @ ?fr)"
    by (rule split_sign_digits) simp
  show ?thesis
    unfolding parse_number_def 3 prod.case 1 2 parse_exponent_text [OF dl] option.case
    using ip by simp
qed

lemma parse_number_es:
  assumes wf: "float_wf (PyFloat neg ds n)" and dl: "delimited rest"
  shows "parse_number (es_number (PyFloat neg ds n) @ rest) = Some (float_norm (PyFloat neg ds n), rest)"
proof (cases "ds = []")
  case True
  then show ?thesis
    using parse_number_int_text [of "[0]" rest False] dl by (simp add: es_number_def float_norm_def)
next
  case False
  let ?k = "int (length ds)"
  have ds: "\<forall>d \<in> set ds. d \<le> 9" "hd ds \<noteq> 0" "last ds \<noteq> 0" using wf False by (auto simp: float_wf_def)
  have z: "\<forall>d \<in> set (zeros m). d \<le> 9" for m by (simp add: zeros_def)
  have k: "0 < ?k" using False by simp
  consider (int) "?k \<le> n" "n \<le> 21" | (frac) "0 < n" "n < ?k" "n \<le> 21" | (low) "- 6 < n" "n \<le> 0"
    | (exp) "\<not> (?k \<le> n \<and> n \<le> 21)" "\<not> (0 < n \<and> n \<le> 21)" "\<not> (- 6 < n \<and> n \<le> 0)"
    by linarith
  then show ?thesis
  proof cases
    case int
    have "\<forall>d \<in> set (ds @ zeros (n - ?k)). d \<le> 9"
      using ds z by (simp only: set_append ball_Un) blast
    with int show ?thesis
      using parse_number_int_text [of "ds @ zeros (n - ?k)" rest neg] ds False dl
      by (auto simp: es_number_def float_norm_def digits_value_zeros Let_def)
  next
    case frac
    have "hd (take (nat n) ds) \<noteq> 0" "take (nat n) ds \<noteq> []" "drop (nat n) ds \<noteq> []"
      using frac ds False by auto
    moreover have "make_float neg (take (nat n) ds @ drop (nat n) ds) (int (length (take (nat n) ds))) = PyFloat neg ds n"
    proof -
      have "\<not> length ds \<le> nat n" using frac by linarith
      with frac show ?thesis using make_float_eq [OF False ds(2,3), of neg 0 n] by (simp add: min_def)
    qed
    moreover have "\<forall>d \<in> set (take (nat n) ds). d \<le> 9" "\<forall>d \<in> set (drop (nat n) ds). d \<le> 9"
      using ds(1) by (meson in_set_takeD in_set_dropD)+
    ultimately show ?thesis
      using parse_number_fraction_text [of "take (nat n) ds" "drop (nat n) ds" rest neg] ds frac False dl
      by (auto simp: es_number_def float_norm_def Let_def)
  next
    case low
    have "make_float neg ([0] @ zeros (- n) @ ds) 1 = PyFloat neg ds n"
      using make_float_eq [OF False ds(2,3), of neg "Suc (nat (- n))" 1] low by (simp add: zeros_def)
    moreover have "\<forall>d \<in> set (zeros (- n) @ ds). d \<le> 9"
      using ds z by (simp only: set_append ball_Un) blast
    moreover have "\<not> ?k \<le> n" using low k by linarith
    ultimately show ?thesis
      using parse_number_fraction_text [of "[0]" "zeros (- n) @ ds" rest neg] ds low False dl
      by (auto simp: es_number_def float_norm_def Let_def)
  next
    case exp
    obtain d es where d: "ds = d # es" using False by (cases ds) auto
    have "make_float neg (d # es) (1 + (n - 1)) = PyFloat neg ds n"
      using make_float_eq [OF False ds(2,3), of neg 0 n] d by simp
    moreover have "int (length ds) = 1 \<longleftrightarrow> es = []" by (simp add: d)
    ultimately show ?thesis
      using parse_number_exponent_text [of d es rest neg "n - 1"] ds exp False dl d
      by (auto simp: es_number_def float_norm_def Let_def)
  qed
qed

lemma hex_value_digit: "d < 16 \<Longrightarrow> hex_value (hex_digit d) = Some d"
  by (auto simp: hex_value_def hex_digit_def)

lemma parse_chars_escape:
  "parse_chars (escape_char c @ t) = map_option (\<lambda>p. (c # fst p, snd p)) (parse_chars t)"
proof -
  consider (short) "c \<in> {34, 92, 10, 13, 9, 12, 8}" | (control) "c < 32" "c \<notin> {34, 92, 10, 13, 9, 12, 8}"
    | (plain) "\<not> c < 32" "c \<noteq> 34" "c \<noteq> 92" by blast
  then show ?thesis
  proof cases
    case short
    then show ?thesis by (auto simp: escape_char_def unescape_def)
  next
    case control
    then have "c div 16 < 16" "c mod 16 < 16" by auto
    then have h: "hex_value (hex_digit (c div 16)) = Some (c div 16)"
      "hex_value (hex_digit (c mod 16)) = Some (c mod 16)"
      by (simp_all add: hex_value_digit)
    have z: "hex_value 48 = Some 0" by (simp add: hex_value_def)
    have e: "escape_char c = [92, 117, 48, 48, hex_digit (c div 16), hex_digit (c mod 16)]"
      using control by (simp add: escape_char_def)
    have four: "take 4 (48 # 48 # a # b # t) = [48, 48, a, b]" "drop 4 (48 # 48 # a # b # t) = t"
      for a b :: nat by (simp_all add: numeral_eq_Suc)
    show ?thesis
      by (simp add: e unescape_def four h z)
  next
    case plain
    then show ?thesis by (simp add: escape_char_def)
  qed
qed

lemma parse_chars_text: "parse_chars (concat (map escape_char s) @ [34] @ rest) = Some (s, rest)"
  by (induction s) (simp_all add: parse_chars_escape)

lemma parse_str_dumps: "parse_str (dumps_str s @ rest) = Some (s, rest)"
  using parse_chars_text [of s rest] by (simp add: parse_str_def dumps_str_def)

section \<open>Reading back values\<close>

lemma insort_key_map:
  "(\<And>x. k (g x) = k x) \<Longrightarrow> insort_key k (g x) (map g xs) = map g (insort_key k x xs)"
  by (induction xs) simp_all

lemma sort_key_map: "(\<And>x. k (g x) = k x) \<Longrightarrow> sort_key k (map g xs) = map g (sort_key k xs)"
  by (induction xs) (simp_all add: insort_key_map)

lemma unorm_simps [simp]:
  "unorm JNull = JNull" "unorm (JBool b) = JBool b" "unorm (JStr s) = JStr s" "unorm (JInt i) = JInt i"
  "unorm (JFloat f) = float_norm f" "unorm (JList xs) = JList (map unorm xs)"
  "unorm (JObj d) = JObj (map (\<lambda>p. (fst p, unorm (snd p))) (sorted_items d))"
proof -
  show "unorm (JObj d) = JObj (map (\<lambda>p. (fst p, unorm (snd p))) (sorted_items d))"
    unfolding unorm_def norm_by.simps sorted_items_def by (subst sort_key_map) simp_all
qed (simp_all add: unorm_def)

definition number_start :: "nat \<Rightarrow> bool" where
  "number_start c \<longleftrightarrow> c = 45 \<or> (48 \<le> c \<and> c \<le> 57)"

lemma hd_digit_chars:
  "ds \<noteq> [] \<Longrightarrow> \<forall>d \<in> set ds. d \<le> 9 \<Longrightarrow> digit_chars ds \<noteq> [] \<and> number_start (hd (digit_chars ds))"
  by (cases ds) (auto simp: number_start_def)

lemma str_int_start: "str_int i \<noteq> [] \<and> number_start (hd (str_int i))"
  using hd_digit_chars [of "dec_digits (nat \<bar>i\<bar>)"] dec_digits_props [of "nat \<bar>i\<bar>"]
  by (auto simp: str_int_def number_start_def)

lemma es_number_start:
  assumes "float_wf (PyFloat neg ds n)"
  shows "es_number (PyFloat neg ds n) \<noteq> [] \<and> number_start (hd (es_number (PyFloat neg ds n)))"
proof (cases ds)
  case (Cons d es)
  with assms have "d \<le> 9" by (simp add: float_wf_def)
  moreover have "\<not> 1 + int (length es) \<le> n \<Longrightarrow> 0 < n \<Longrightarrow> take (nat n) ds = d # take (nat n - 1) es"
    using Cons by (cases "nat n") auto
  ultimately show ?thesis
    using Cons by (auto simp: es_number_def number_start_def Let_def)
qed (simp add: es_number_def number_start_def)

lemma encode_start:
  assumes "encode v = Inr t" and "wf_jsn v" and "assert_canonical v = Inr ()"
  shows "t \<noteq> [] \<and> hd t \<noteq> 93"
proof (cases v)
  case (JInt i)
  then show ?thesis using assms str_int_start [of i] by (auto simp: number_start_def)
next
  case (JFloat f)
  then obtain neg ds n where "f = PyFloat neg ds n"
    using assms by (cases f) (auto simp: float_is_finite_def)
  then show ?thesis
    using assms JFloat es_number_start [of neg ds n] encode_float_is_ecmascript [of neg ds n]
    by (auto simp: number_start_def)
qed (use assms in \<open>auto simp: dumps_str_def bindE_Inr_iff split: if_splits\<close>)

lemma parse_value_number:
  "s \<noteq> [] \<Longrightarrow> number_start (hd s) \<Longrightarrow> parse_value (Suc n) s = parse_number s"
  by (cases s) (auto simp: number_start_def)

lemma mapE_Inr_iff: "mapE f xs = Inr ys \<longleftrightarrow> list_all2 (\<lambda>x y. f x = Inr y) xs ys"
proof (induction xs arbitrary: ys)
  case (Cons x xs)
  then show ?case by (cases ys) (auto simp: bindE_Inr_iff list_all2_Cons1)
qed auto

lemma parse_elems_join:
  assumes "list_all2 (\<lambda>t v. \<forall>n rest. length t < n \<longrightarrow> delimited rest \<longrightarrow>
      parse_value n (t @ rest) = Some (v, rest)) ts vs"
    and "ts \<noteq> []" and "length (join [44] ts) + 1 < n"
  shows "parse_elems n (join [44] ts @ [93] @ rest) = Some (vs, rest)"
  using assms
proof (induction ts vs arbitrary: n rule: list_all2_induct)
  case (Cons t ts v vs)
  obtain m where n: "n = Suc m" using Cons.prems by (cases n) auto
  have d: "delimited (93 # r)" "delimited (44 # r)" for r by (simp_all add: delimited_def)
  show ?case
  proof (cases ts)
    case Nil
    then have "vs = []" using Cons.hyps by simp
    moreover have "parse_value m (t @ 93 # rest) = Some (v, 93 # rest)"
      using Cons n Nil d(1) by simp
    ultimately show ?thesis by (simp add: n Nil)
  next
    case (Cons u us)
    let ?rest = "44 # join [44] ts @ [93] @ rest"
    have "parse_value m (t @ ?rest) = Some (v, ?rest)"
      using Cons.hyps(1) Cons.prems n d(2) local.Cons by simp
    moreover have "parse_elems m (join [44] ts @ [93] @ rest) = Some (vs, rest)"
      using Cons.IH Cons.prems n local.Cons by simp
    ultimately show ?thesis by (simp add: n local.Cons)
  qed
qed simp

lemma parse_members_join:
  assumes "list_all2 (\<lambda>t p. \<exists>u. t = dumps_str (fst p) @ [58] @ u \<and>
      (\<forall>n rest. length u < n \<longrightarrow> delimited rest \<longrightarrow>
        parse_value n (u @ rest) = Some (snd p, rest))) ts ps"
    and "ts \<noteq> []" and "length (join [44] ts) + 1 < n"
  shows "parse_members n (join [44] ts @ [125] @ rest) = Some (ps, rest)"
  using assms
proof (induction ts ps arbitrary: n rule: list_all2_induct)
  case (Cons t ts p ps)
  obtain m where n: "n = Suc m" using Cons.prems by (cases n) auto
  obtain u where t: "t = dumps_str (fst p) @ [58] @ u"
    and u: "\<And>n rest. length u < n \<Longrightarrow> delimited rest \<Longrightarrow> parse_value n (u @ rest) = Some (snd p, rest)"
    using Cons.hyps(1) by blast
  have d: "delimited (125 # r)" "delimited (44 # r)" for r by (simp_all add: delimited_def)
  show ?case
  proof (cases ts)
    case Nil
    then have "ps = []" using Cons.hyps by simp
    moreover have "parse_value m (u @ 125 # rest) = Some (snd p, 125 # rest)"
      using u [of m] Cons.prems n Nil d(1) t by simp
    ultimately show ?thesis by (simp add: n Nil t parse_str_dumps)
  next
    case (Cons w ws)
    let ?rest = "44 # join [44] ts @ [125] @ rest"
    have "parse_value m (u @ ?rest) = Some (snd p, ?rest)"
      using u [of m ?rest] Cons.prems n d(2) local.Cons t by simp
    moreover have "parse_members m (join [44] ts @ [125] @ rest) = Some (ps, rest)"
      using Cons.IH Cons.prems n local.Cons by simp
    ultimately show ?thesis by (simp add: n local.Cons t parse_str_dumps)
  qed
qed simp

lemma join_start:
  "ts \<noteq> [] \<Longrightarrow> hd ts \<noteq> [] \<Longrightarrow> join sep ts \<noteq> [] \<and> hd (join sep ts) = hd (hd ts)"
  by (cases "(sep, ts)" rule: join.cases) auto

lemma strip_prefix_single: "strip_prefix [c] s = (case s of [] \<Rightarrow> None | d # r \<Rightarrow> if c = d then Some r else None)"
  by (cases s) auto

lemma parse_encode:
  assumes "wf_jsn v" and "assert_canonical v = Inr ()" and "encode v = Inr t"
    and "length t < n" and "delimited rest"
  shows "parse_value n (t @ rest) = Some (unorm v, rest)"
  using assms
proof (induction v arbitrary: t n rest)
  case JNull
  then show ?case by (cases n) auto
next
  case (JBool b)
  then show ?case by (cases n) (auto split: if_splits)
next
  case (JInt i)
  then show ?case
    using str_int_start [of i] parse_number_str_int [of rest i]
    by (cases n) (auto simp: parse_value_number simp del: parse_value.simps)
next
  case (JFloat f)
  then obtain neg ds e where "f = PyFloat neg ds e" by (cases f) (auto simp: float_is_finite_def)
  with JFloat show ?case
    using es_number_start [of neg ds e] encode_float_is_ecmascript [of neg ds e] parse_number_es [of neg ds e rest]
    by (cases n) (auto simp: parse_value_number simp del: parse_value.simps)
next
  case (JStr s)
  then show ?case
    using parse_chars_text [of s rest] by (cases n) (auto simp: dumps_str_def)
next
  case (JList xs)
  then obtain ts m where ts: "list_all2 (\<lambda>x t. encode x = Inr t) xs ts"
    and t: "t = [91] @ join [44] ts @ [93]" and n: "n = Suc m"
    by (cases n) (auto simp: bindE_Inr_iff mapE_Inr_iff)
  have ok: "wf_jsn x \<and> assert_canonical x = Inr ()" if "x \<in> set xs" for x
    using JList.prems that by (auto simp: list_all_iff forE_Inr_iff)
  show ?case
  proof (cases "ts = []")
    case True
    with ts show ?thesis by (simp add: t n)
  next
    case False
    have st: "hd ts \<noteq> [] \<and> hd (hd ts) \<noteq> 93"
    proof -
      obtain u us where "ts = u # us" using False by (cases ts) auto
      moreover from this obtain z where "encode z = Inr u" "z \<in> set xs"
        using ts by (auto simp: list_all2_Cons2)
      ultimately show ?thesis using ok [of z] encode_start [of z u] by simp
    qed
    have "list_all2 (\<lambda>t v. \<forall>n rest. length t < n \<longrightarrow> delimited rest \<longrightarrow>
        parse_value n (t @ rest) = Some (v, rest)) ts (map unorm xs)"
      using ts JList.IH ok by (auto simp: list_all2_conv_all_nth)
    from parse_elems_join [OF this False, of m rest] show ?thesis
      using JList.prems st join_start [OF False, of "[44]"]
      by (cases "join [44] ts") (auto simp: t n strip_prefix_single)
  qed
next
  case (JObj d)
  let ?ok = "\<lambda>p t. bindE (encode (snd p)) (\<lambda>u. Inr (dumps_str (fst p) @ [58] @ u)) = Inr t"
  from JObj.prems obtain ts m where ts: "list_all2 ?ok (sorted_items d) ts"
    and t: "t = [123] @ join [44] ts @ [125]" and n: "n = Suc m"
    by (cases n) (auto simp: bindE_Inr_iff mapE_Inr_iff)
  have ok: "wf_jsn (snd p) \<and> assert_canonical (snd p) = Inr ()" if "p \<in> set d" for p
    using JObj.prems that by (auto simp: list_all_iff forE_Inr_iff)
  show ?case
  proof (cases "ts = []")
    case True
    with ts show ?thesis by (simp add: t n)
  next
    case False
    have st: "hd ts \<noteq> [] \<and> hd (hd ts) = 34"
      using ts False by (cases ts) (auto simp: list_all2_Cons2 bindE_Inr_iff dumps_str_def)
    have IH: "parse_value n (u @ rest) = Some (unorm (snd p), rest)"
      if "p \<in> set d" "encode (snd p) = Inr u" "length u < n" "delimited rest" for p u n rest
      using JObj.IH [of p "snd p"] that ok by (cases p) auto
    have "list_all2 (\<lambda>t p. \<exists>u. t = dumps_str (fst p) @ [58] @ u \<and>
        (\<forall>n rest. length u < n \<longrightarrow> delimited rest \<longrightarrow> parse_value n (u @ rest) = Some (snd p, rest)))
        ts (map (\<lambda>p. (fst p, unorm (snd p))) (sorted_items d))"
    proof (rule list_all2_all_nthI)
      show "length ts = length (map (\<lambda>p. (fst p, unorm (snd p))) (sorted_items d))"
        using ts by (simp add: list_all2_lengthD)
    next
      fix i assume i: "i < length ts"
      let ?p = "sorted_items d ! i"
      have i': "i < length (sorted_items d)" using i ts by (simp add: list_all2_lengthD)
      then have "?p \<in> set d" using nth_mem by fastforce
      moreover obtain u where "encode (snd ?p) = Inr u" "ts ! i = dumps_str (fst ?p) @ [58] @ u"
        using list_all2_nthD [OF ts i'] by (auto simp: bindE_Inr_iff)
      ultimately show "\<exists>u. ts ! i = dumps_str (fst (map (\<lambda>p. (fst p, unorm (snd p))) (sorted_items d) ! i)) @ [58] @ u \<and>
          (\<forall>n rest. length u < n \<longrightarrow> delimited rest \<longrightarrow> parse_value n (u @ rest) =
            Some (snd (map (\<lambda>p. (fst p, unorm (snd p))) (sorted_items d) ! i), rest))"
        using IH i' by (intro exI [of _ u]) simp
    qed
    from parse_members_join [OF this False, of m rest] show ?thesis
      using JObj.prems st join_start [OF False, of "[44]"]
      by (cases "join [44] ts") (auto simp: t n strip_prefix_single)
  qed
qed

text \<open>
  C7. Reading back the canonical text of a value gives its normal form: no key, element, number or
  character is lost or confused; only the order of keys and the float/int distinction of
  integral floats are normalised.
\<close>

theorem json_loads_canonical_json:
  assumes "wf_jsn v" and "canonical_json v = Inr t"
  shows "json_loads t = Inr (unorm v)"
proof -
  from assms(2) have "assert_canonical v = Inr ()" "encode v = Inr t"
    by (auto simp: canonical_json_def bindE_Inr_iff)
  with assms(1) have "parse_value (Suc (length t)) (t @ []) = Some (unorm v, [])"
    by (rule parse_encode) (simp_all add: delimited_def)
  then show ?thesis by (simp add: json_loads_def)
qed

theorem json_loads_canonical_json_witness:
  "json_loads (ucs ''{\"a\":[1,1.5],\"b\":null}'') =
     Inr (JObj [(ucs ''a'', JList [JInt 1, JFloat (PyFloat False [1, 5] 1)]), (ucs ''b'', JNull)])"
proof -
  let ?v = "JObj [(ucs ''b'', JNull),
     (ucs ''a'', JList [JFloat (PyFloat False [1] 1), JFloat (PyFloat False [1, 5] 1)])]"
  have wf: "wf_jsn ?v" by (simp add: float_wf_def)
  have f: "encode_float (PyFloat False [Suc 0] 1) = Inr [49]" "encode_float (PyFloat False [Suc 0, 5] 1) = Inr [49, 46, 53]"
    using encode_float_is_ecmascript [of False "[1]" 1] encode_float_is_ecmascript [of False "[1, 5]" 1]
    by (simp_all add: float_wf_def es_number_def)
  have t: "canonical_json ?v = Inr (ucs ''{\"a\":[1,1.5],\"b\":null}'')"
    by (simp add: canonical_json_def f float_is_finite_def utf16_encodable_def is_surrogate_def sorted_items_def
        utf16be_def utf16_char_def dumps_str_def escape_char_def)
  show ?thesis
    using json_loads_canonical_json [OF wf t]
    by (simp add: sorted_items_def utf16be_def utf16_char_def float_norm_def)
qed

section \<open>Texts and normal forms determine each other\<close>

lemma dec_digits_value:
  "ds \<noteq> [] \<Longrightarrow> hd ds \<noteq> 0 \<Longrightarrow> \<forall>d \<in> set ds. d \<le> 9 \<Longrightarrow> dec_digits (digits_value ds) = ds"
proof (induction ds rule: rev_induct)
  case (snoc d ds)
  show ?case
  proof (cases "ds = []")
    case True
    with snoc.prems show ?thesis using dec_digits.simps [of d] by simp
  next
    case False
    with snoc have IH: "dec_digits (digits_value ds) = ds" and d: "d \<le> 9" by auto
    have "hd ds \<noteq> 0" using False snoc.prems by simp
    moreover have "0 < (10::nat) ^ (length ds - 1)" by simp
    ultimately have "1 \<le> digits_value ds" using digits_value_ge [OF False] by linarith
    with d IH show ?thesis
      using dec_digits.simps [of "digits_value (ds @ [d])"] by (simp add: digits_value_snoc)
  qed
qed simp

lemma str_int_signed:
  "0 < m \<Longrightarrow> str_int ((if neg then -1 else 1) * int m) =
    (if neg then [45] else []) @ digit_chars (dec_digits m)"
  by (simp add: str_int_def)

lemma encode_float_norm:
  assumes "float_wf f" and "float_is_finite f"
  shows "encode (float_norm f) = encode_float f"
proof -
  obtain neg ds n where f: "f = PyFloat neg ds n" using assms by (cases f) (auto simp: float_is_finite_def)
  note es = encode_float_is_ecmascript [of neg ds n]
  consider (zero) "ds = []" | (int) "ds \<noteq> []" "int (length ds) \<le> n" "n \<le> 21"
    | (other) "ds \<noteq> []" "\<not> (int (length ds) \<le> n \<and> n \<le> 21)" by blast
  then show ?thesis
  proof cases
    case zero
    then show ?thesis using dec_digits.simps [of 0] by (simp add: f float_norm_def encode_float_def str_int_def)
  next
    case int
    let ?ds = "ds @ zeros (n - int (length ds))"
    have ds: "\<forall>d \<in> set ds. d \<le> 9" "hd ds \<noteq> 0" using assms int by (auto simp: f float_wf_def)
    have z: "\<forall>d \<in> set (zeros (n - int (length ds))). d \<le> 9" by (simp add: zeros_def)
    have "dec_digits (digits_value ?ds) = ?ds"
      by (rule dec_digits_value) (use ds z int in auto)
    moreover have "0 < digits_value ds"
    proof -
      have "0 < (10::nat) ^ (length ds - 1)" by simp
      then show ?thesis using digits_value_ge [OF int(1) ds(2)] by linarith
    qed
    then have "0 < digits_value ?ds" by (simp add: digits_value_zeros)
    moreover have "(float_norm f :: ujson) = JInt ((if neg then -1 else 1) * int (digits_value ?ds))"
      unfolding digits_value_zeros using int by (simp add: f float_norm_def)
    moreover have "encode_float f = Inr ((if neg then [45] else []) @ digit_chars ?ds)"
      using es assms int by (simp add: f es_number_def Let_def)
    ultimately show ?thesis by (simp only: encode.simps str_int_signed)
  next
    case other
    then show ?thesis by (auto simp: f float_norm_def)
  qed
qed

lemma sorted_items_sorted:
  "sorted_items (map (\<lambda>p. (fst p, f p)) (sorted_items d)) = map (\<lambda>p. (fst p, f p)) (sorted_items d)"
proof -
  have "sorted (map (\<lambda>p. utf16be (fst p)) (map (\<lambda>p. (fst p, f p)) (sorted_items d)))"
    by (simp add: sorted_items_def comp_def)
  then show ?thesis by (simp only: sorted_items_def [of "map _ _"] sort_key_id_if_sorted)
qed

lemma encode_unorm:
  "wf_jsn v \<Longrightarrow> assert_canonical v = Inr () \<Longrightarrow> encode (unorm v) = encode v"
proof (induction v)
  case (JFloat f)
  then show ?case by (simp add: encode_float_norm)
next
  case (JList xs)
  then have "encode (unorm x) = encode x" if "x \<in> set xs" for x
    using that by (auto simp: list_all_iff forE_Inr_iff)
  then have "mapE encode (map unorm xs) = mapE encode xs"
    unfolding mapE_map by (intro mapE_cong) simp_all
  then show ?case by simp
next
  case (JObj d)
  have ok: "encode (unorm (snd p)) = encode (snd p)" if "p \<in> set d" for p
  proof -
    have "wf_jsn (snd p)" "assert_canonical (snd p) = Inr ()"
      using JObj.prems that by (auto simp: list_all_iff forE_Inr_iff)
    then show ?thesis using JObj.IH [of p "snd p"] that by (cases p) auto
  qed
  have 1: "mapE (\<lambda>p. bindE (encode (snd p)) (\<lambda>t. Inr (dumps_str (fst p) @ [58] @ t)))
      (map (\<lambda>p. (fst p, unorm (snd p))) ps) =
    mapE (\<lambda>p. bindE (encode (snd p)) (\<lambda>t. Inr (dumps_str (fst p) @ [58] @ t))) ps"
    if "set ps \<subseteq> set d" for ps
    using that by (induction ps) (auto simp: ok)
  have 2: "list_all (\<lambda>p. utf16_encodable (fst p)) (map (\<lambda>p. (fst p, unorm (snd p))) (sorted_items d)) =
    list_all (\<lambda>p. utf16_encodable (fst p)) d"
    by (simp add: list_all_iff)
  show ?case
    using 1 [of "sorted_items d"] by (simp only: unorm_simps encode.simps sorted_items_sorted 2) simp
qed simp_all

text \<open>
  C32. Two values have the same canonical text exactly when they have the same normal form; so equal
  digests of canonical texts (of a collision-free hash) mean equal values up to key order, and a
  different order of keys never changes a digest.
\<close>

theorem canonical_text_eq_iff:
  assumes "wf_jsn v" and "wf_jsn w" and "canonical_json v = Inr t" and "canonical_json w = Inr u"
  shows "t = u \<longleftrightarrow> unorm v = unorm w"
proof -
  have *: "json_loads t = Inr (unorm v)" "json_loads u = Inr (unorm w)"
  proof -
    have "parse_value (Suc (length x)) (x @ []) = Some (unorm y, [])"
      if "wf_jsn y" "canonical_json y = Inr x" for x y
      using that by (intro parse_encode) (auto simp: canonical_json_def bindE_Inr_iff delimited_def)
    then show "json_loads t = Inr (unorm v)" "json_loads u = Inr (unorm w)"
      using assms by (simp_all add: json_loads_def)
  qed
  have "encode (unorm v) = Inr t" "encode (unorm w) = Inr u"
    using assms by (auto simp: canonical_json_def bindE_Inr_iff encode_unorm)
  then show ?thesis using * by (metis sum.inject(2))
qed

theorem canonical_text_eq_iff_witness:
  "(ucs ''{\"a\":1,\"b\":2}'' = ucs ''{\"a\":1,\"b\":2}'') =
   (unorm (JObj [(ucs ''b'', JInt 2), (ucs ''a'', JFloat (PyFloat False [Suc 0] 1))]) =
    unorm (JObj [(ucs ''a'', JInt 1), (ucs ''b'', JInt 2)]))"
proof -
  let ?v = "JObj [(ucs ''b'', JInt 2), (ucs ''a'', JFloat (PyFloat False [Suc 0] 1))] :: ujson"
  let ?w = "JObj [(ucs ''a'', JInt 1), (ucs ''b'', JInt 2)] :: ujson"
  have f: "encode_float (PyFloat False [Suc 0] 1) = Inr [49]"
    using encode_float_is_ecmascript [of False "[1]" 1] by (simp add: float_wf_def es_number_def)
  have i: "str_int 1 = [49]" "str_int 2 = [50]"
    using dec_digits.simps [of 1] dec_digits.simps [of 2] by (simp_all add: str_int_def)
  have wf: "wf_jsn ?v" "wf_jsn ?w" by (simp_all add: float_wf_def)
  have t: "canonical_json ?v = Inr (ucs ''{\"a\":1,\"b\":2}'')" "canonical_json ?w = Inr (ucs ''{\"a\":1,\"b\":2}'')"
    by (simp_all add: canonical_json_def f i float_is_finite_def utf16_encodable_def is_surrogate_def sorted_items_def
        utf16be_def utf16_char_def dumps_str_def escape_char_def)
  show ?thesis by (rule canonical_text_eq_iff [OF wf t])
qed

section \<open>Which values survive being stored and encoded again\<close>

text \<open>No float of the value is integral, beyond the interoperable integer range, and below
  \<open>1e21\<close>, where ECMAScript writes an integral float without an exponent.\<close>

definition float_reencodable :: "pyfloat \<Rightarrow> bool" where
  "float_reencodable f = (case f of
      PyFloat neg ds n \<Rightarrow>
        \<not> (int (length ds) \<le> n \<and> n \<le> 21 \<and>
           9007199254740991 < int (digits_value ds * 10 ^ nat (n - int (length ds))))
    | _ \<Rightarrow> True)"

fun reencodable :: "'s jsn \<Rightarrow> bool" where
  "reencodable (JFloat f) = float_reencodable f"
| "reencodable (JList xs) = list_all reencodable xs"
| "reencodable (JObj d) = list_all (\<lambda>p. reencodable (snd p)) d"
| "reencodable _ = True"

lemma assert_canonical_float_norm:
  "float_is_finite f \<Longrightarrow> assert_canonical (float_norm f) = Inr () \<longleftrightarrow> float_reencodable f"
  by (cases f) (auto simp: float_is_finite_def float_norm_def float_reencodable_def abs_mult)

lemma assert_canonical_unorm:
  "assert_canonical v = Inr () \<Longrightarrow> assert_canonical (unorm v) = Inr () \<longleftrightarrow> reencodable v"
proof (induction v)
  case (JFloat f)
  then show ?case by (simp add: assert_canonical_float_norm)
next
  case (JObj d)
  have "assert_canonical (unorm (snd p)) = Inr () \<longleftrightarrow> reencodable (snd p)" if "p \<in> set d" for p
  proof -
    have "assert_canonical (snd p) = Inr ()" using JObj.prems that by (auto simp: forE_Inr_iff)
    then show ?thesis using JObj.IH [of p "snd p"] that by (cases p) auto
  qed
  then show ?case by (auto simp: forE_Inr_iff list_all_iff)
qed (auto simp: forE_Inr_iff list_all_iff)

text \<open>
  C33. A canonical text that was stored, parsed and encoded again gives the same text exactly when the
  value holds no integral float between 2^53 and 1e21; for such a float the second encoding does not
  return at all (its text reads back as an integer beyond the JCS range), so an integrity check that
  re-encodes stored text cannot accept what the first encoding accepted.
\<close>

theorem reencode_stored_text_iff:
  assumes "wf_jsn v" and "canonical_json v = Inr t"
  shows "(bindE (json_loads t) canonical_json = Inr t) = reencodable v"
proof -
  have ac: "assert_canonical v = Inr ()" "encode v = Inr t"
    using assms by (auto simp: canonical_json_def bindE_Inr_iff)
  have "parse_value (Suc (length t)) (t @ []) = Some (unorm v, [])"
    using assms(1) ac by (intro parse_encode) (auto simp: delimited_def)
  then have "bindE (json_loads t) canonical_json = canonical_json (unorm v)"
    by (simp add: json_loads_def)
  moreover have "canonical_json (unorm v) = Inr t \<longleftrightarrow> assert_canonical (unorm v) = Inr ()"
    using ac assms(1) by (auto simp: canonical_json_def bindE_Inr_iff encode_unorm)
  ultimately show ?thesis using assert_canonical_unorm [OF ac(1)] by simp
qed

theorem reencode_stored_text_iff_witness:
  "\<exists>t. canonical_json (JFloat (PyFloat False [Suc 0] 17)) = Inr t \<and>
       bindE (json_loads t) canonical_json \<noteq> Inr t"
proof -
  let ?v = "JFloat (PyFloat False [Suc 0] 17) :: ujson"
  obtain t where t: "canonical_json ?v = Inr t"
    using encode_float_is_ecmascript [of False "[1]" 17]
    by (auto simp: canonical_json_def float_is_finite_def float_wf_def)
  have "wf_jsn ?v" by (simp add: float_wf_def)
  from reencode_stored_text_iff [OF this t] t show ?thesis
    by (auto simp: float_reencodable_def)
qed

end
