(* ===== verification/Regex.thy ===== *)
theory Regex
  imports Prelude
begin

text \<open>
  Python's \<open>re.search\<close> on the fragment of regular expressions that the schemas and the code
  use: literals, escapes, character classes, \<open>.\<close>, \<open>^\<close>, \<open>$\<close>, groups, alternation, the
  quantifiers \<open>*\<close>, \<open>+\<close>, \<open>?\<close>, \<open>{n}\<close>, \<open>{n,}\<close>, \<open>{m,n}\<close>, and a leading \<open>(?i)\<close>.
  Only whether there is a match is modelled, so the order in which the engine backtracks plays
  no role: the matcher computes the list of all positions where a match can end.

  As in Python, \<open>$\<close> also matches before a final newline.
\<close>

section \<open>Syntax\<close>

datatype regex =
    REps
  | RSet bool "(char \<times> char) list"  \<comment> \<open>negated, ranges\<close>
  | RBegin
  | REnd
  | RSeq regex regex
  | RAlt regex regex
  | RRep regex nat "nat option"

definition nl :: char where
  "nl = CHR 0x0A"

text \<open>What a backslash followed by a character stands for.\<close>

definition escape_set :: "char \<Rightarrow> (bool \<times> (char \<times> char) list) option" where
  "escape_set c =
     (if c = CHR ''d'' then Some (False, [(CHR ''0'', CHR ''9'')])
      else if c = CHR ''n'' then Some (False, [(nl, nl)])
      else if c = CHR ''s'' then
        Some (False, [(CHR 0x09, CHR 0x0D), (CHR 0x1C, CHR '' ''), (CHR 0x85, CHR 0x85), (CHR 0xA0, CHR 0xA0)])
      else if (CHR ''a'' \<le> c \<and> c \<le> CHR ''z'') \<or> (CHR ''A'' \<le> c \<and> c \<le> CHR ''Z'') \<or>
              (CHR ''0'' \<le> c \<and> c \<le> CHR ''9'') then None
      else Some (False, [(c, c)]))"

text \<open>The inside of \<open>[...]\<close> up to the closing bracket.\<close>

fun parse_class :: "string \<Rightarrow> ((char \<times> char) list \<times> string) option" where
  "parse_class [] = None"
| "parse_class (c # s) =
     (if c = CHR '']'' then Some ([], s)
      else if c = CHR 0x5C then
        (case s of [] \<Rightarrow> None
         | d # r \<Rightarrow>
             (case escape_set d of None \<Rightarrow> None
              | Some (neg, cs) \<Rightarrow> map_option (\<lambda>p. (cs @ fst p, snd p)) (parse_class r)))
      else
        (case s of
           m # d # r \<Rightarrow>
             if m = CHR ''-'' \<and> d \<noteq> CHR '']''
             then map_option (\<lambda>p. ((c, d) # fst p, snd p)) (parse_class r)
             else map_option (\<lambda>p. ((c, c) # fst p, snd p)) (parse_class s)
         | _ \<Rightarrow> map_option (\<lambda>p. ((c, c) # fst p, snd p)) (parse_class s)))"

fun parse_nat :: "nat option \<Rightarrow> string \<Rightarrow> nat option \<times> string" where
  "parse_nat acc [] = (acc, [])"
| "parse_nat acc (c # s) =
     (if CHR ''0'' \<le> c \<and> c \<le> CHR ''9''
      then parse_nat (Some ((case acc of None \<Rightarrow> 0 | Some a \<Rightarrow> 10 * a) + (of_char c - 48))) s
      else (acc, c # s))"

text \<open>A quantifier after an atom.\<close>

definition parse_quant :: "regex \<Rightarrow> string \<Rightarrow> (regex \<times> string) option" where
  "parse_quant r s = (case s of
      [] \<Rightarrow> Some (r, [])
    | c # t \<Rightarrow>
        if c = CHR ''*'' then Some (RRep r 0 None, t)
        else if c = CHR ''+'' then Some (RRep r 1 None, t)
        else if c = CHR ''?'' then Some (RRep r 0 (Some 1), t)
        else if c = CHR ''{'' then
          (case parse_nat None t of
             (Some m, d # u) \<Rightarrow>
               if d = CHR ''}'' then Some (RRep r m (Some m), u)
               else if d = CHR '','' then
                 (case parse_nat None u of
                    (hi, e # v) \<Rightarrow> if e = CHR ''}'' then Some (RRep r m hi, v) else None
                  | _ \<Rightarrow> None)
               else None
           | _ \<Rightarrow> None)
        else Some (r, s))"

text \<open>Alternatives, then concatenations of quantified atoms. Fuel: the length of the pattern.\<close>

fun parse_alt :: "nat \<Rightarrow> string \<Rightarrow> (regex \<times> string) option"
  and parse_seq :: "nat \<Rightarrow> string \<Rightarrow> (regex \<times> string) option"
  and parse_atom :: "nat \<Rightarrow> string \<Rightarrow> (regex \<times> string) option" where
  "parse_alt 0 s = None"
| "parse_alt (Suc n) s =
     (case parse_seq n s of
        None \<Rightarrow> None
      | Some (r, c # t) \<Rightarrow>
          if c = CHR ''|'' then map_option (\<lambda>p. (RAlt r (fst p), snd p)) (parse_alt n t)
          else Some (r, c # t)
      | Some (r, []) \<Rightarrow> Some (r, []))"
| "parse_seq 0 s = None"
| "parse_seq (Suc n) [] = Some (REps, [])"
| "parse_seq (Suc n) (c # s) =
     (if c = CHR ''|'' \<or> c = CHR '')'' then Some (REps, c # s)
      else case parse_atom n (c # s) of
        None \<Rightarrow> None
      | Some (a, t) \<Rightarrow>
          (case parse_quant a t of
             None \<Rightarrow> None
           | Some (q, u) \<Rightarrow> map_option (\<lambda>p. (RSeq q (fst p), snd p)) (parse_seq n u)))"
| "parse_atom 0 s = None"
| "parse_atom (Suc n) [] = None"
| "parse_atom (Suc n) (c # s) =
     (if c = CHR ''^'' then Some (RBegin, s)
      else if c = CHR ''$'' then Some (REnd, s)
      else if c = CHR ''.'' then Some (RSet True [(nl, nl)], s)
      else if c = CHR ''('' then
        (if s \<noteq> [] \<and> hd s = CHR ''?'' \<and> \<not> (tl s \<noteq> [] \<and> hd (tl s) = CHR '':'') then None
         else case parse_alt n (if s \<noteq> [] \<and> hd s = CHR ''?'' then drop 2 s else s) of
           Some (r, d # t) \<Rightarrow> if d = CHR '')'' then Some (r, t) else None
         | _ \<Rightarrow> None)
      else if c = CHR ''['' then
        (if s \<noteq> [] \<and> hd s = CHR ''^''
         then map_option (\<lambda>p. (RSet True (fst p), snd p)) (parse_class (tl s))
         else map_option (\<lambda>p. (RSet False (fst p), snd p)) (parse_class s))
      else if c = CHR 0x5C then
        (case s of [] \<Rightarrow> None
         | d # t \<Rightarrow> map_option (\<lambda>p. (RSet (fst p) (snd p), t)) (escape_set d))
      else if c \<in> {CHR ''*'', CHR ''+'', CHR ''?'', CHR ''{''} then None
      else Some (RSet False [(c, c)], s))"

definition compile :: "string \<Rightarrow> (bool \<times> regex) option" where
  "compile pat =
     (let ic = take 4 pat = ''(?i)''; body = (if ic then drop 4 pat else pat)
      in case parse_alt (3 * length body + 3) body of Some (r, []) \<Rightarrow> Some (ic, r) | _ \<Rightarrow> None)"

section \<open>Matching\<close>

text \<open>A position: whether it is the start of the text, and what follows.\<close>

type_synonym pos = "bool \<times> string"

definition swap_case :: "char \<Rightarrow> char" where
  "swap_case c =
     (if CHR ''a'' \<le> c \<and> c \<le> CHR ''z'' then char_of (of_char c - (32::nat))
      else if CHR ''A'' \<le> c \<and> c \<le> CHR ''Z'' then char_of (of_char c + (32::nat))
      else c)"

definition in_set :: "bool \<Rightarrow> bool \<Rightarrow> (char \<times> char) list \<Rightarrow> char \<Rightarrow> bool" where
  "in_set ic neg rs c =
     (neg \<noteq> (list_ex (\<lambda>(a, b). a \<le> c \<and> c \<le> b) rs \<or>
             (ic \<and> list_ex (\<lambda>(a, b). a \<le> swap_case c \<and> swap_case c \<le> b) rs)))"

definition step_all :: "(pos \<Rightarrow> pos list) \<Rightarrow> pos list \<Rightarrow> pos list" where
  "step_all f ps = remdups (concat (map f ps))"

fun rep_min :: "(pos \<Rightarrow> pos list) \<Rightarrow> nat \<Rightarrow> pos list \<Rightarrow> pos list" where
  "rep_min f 0 ps = ps"
| "rep_min f (Suc k) ps = (if ps = [] then [] else rep_min f k (step_all f ps))"

fun rep_opt :: "(pos \<Rightarrow> pos list) \<Rightarrow> nat \<Rightarrow> pos list \<Rightarrow> pos list" where
  "rep_opt f 0 ps = ps"
| "rep_opt f (Suc k) ps = (if ps = [] then [] else remdups (ps @ rep_opt f k (step_all f ps)))"

fun ends :: "bool \<Rightarrow> regex \<Rightarrow> pos \<Rightarrow> pos list" where
  "ends ic REps p = [p]"
| "ends ic (RSet neg rs) p =
     (case snd p of [] \<Rightarrow> [] | c # s \<Rightarrow> if in_set ic neg rs c then [(False, s)] else [])"
| "ends ic RBegin p = (if fst p then [p] else [])"
| "ends ic REnd p = (if snd p = [] \<or> snd p = [nl] then [p] else [])"
| "ends ic (RSeq a b) p = step_all (ends ic b) (ends ic a p)"
| "ends ic (RAlt a b) p = remdups (ends ic a p @ ends ic b p)"
| "ends ic (RRep r lo hi) p =
     rep_opt (ends ic r) (case hi of None \<Rightarrow> Suc (length (snd p)) | Some h \<Rightarrow> h - lo)
       (rep_min (ends ic r) lo [p])"

fun suffixes_from :: "bool \<Rightarrow> string \<Rightarrow> pos list" where
  "suffixes_from b [] = [(b, [])]"
| "suffixes_from b (c # s) = (b, c # s) # suffixes_from False s"

text \<open>\<open>re.search(pattern, text) is not None\<close>. A pattern outside the fragment raises.\<close>

definition re_search :: "string \<Rightarrow> string \<Rightarrow> bool result" where
  "re_search pat text =
     (case compile pat of
        None \<Rightarrow> Inl (ValueError ''unsupported pattern'')
      | Some (ic, r) \<Rightarrow> Inr (list_ex (\<lambda>p. ends ic r p \<noteq> []) (suffixes_from True text)))"

section \<open>The matcher computes exactly the denotation of the expression\<close>

fun sem :: "bool \<Rightarrow> regex \<Rightarrow> (pos \<times> pos) set" where
  "sem ic REps = Id"
| "sem ic (RSet neg rs) = {((b, c # s), (False, s)) | b c s. in_set ic neg rs c}"
| "sem ic RBegin = {(p, p) | p. fst p}"
| "sem ic REnd = {(p, p) | p. snd p = [] \<or> snd p = [nl]}"
| "sem ic (RSeq a b) = sem ic a O sem ic b"
| "sem ic (RAlt a b) = sem ic a \<union> sem ic b"
| "sem ic (RRep r lo hi) =
     (case hi of
        None \<Rightarrow> (sem ic r ^^ lo) O (sem ic r)\<^sup>*
      | Some h \<Rightarrow> (sem ic r ^^ lo) O (\<Union>j \<le> h - lo. sem ic r ^^ j))"

lemma set_step_all:
  "(\<And>p. set (f p) = R `` {p}) \<Longrightarrow> set (step_all f ps) = R `` set ps"
  by (auto simp: step_all_def)

lemma set_rep_min:
  "(\<And>p. set (f p) = R `` {p}) \<Longrightarrow> set (rep_min f k ps) = (R ^^ k) `` set ps"
proof (induction k arbitrary: ps)
  case (Suc k)
  have "set (rep_min f (Suc k) ps) = (R ^^ k) `` (R `` set ps)"
    using Suc set_step_all [of f R ps] by simp
  then show ?case by (simp only: relpow_Suc_I2 relpow_commute relcomp_Image relpow.simps flip: relpow_commute)
qed simp

lemma set_rep_opt:
  "(\<And>p. set (f p) = R `` {p}) \<Longrightarrow> set (rep_opt f k ps) = (\<Union>j \<le> k. R ^^ j) `` set ps"
proof (induction k arbitrary: ps)
  case (Suc k)
  have "(\<Union>j \<le> Suc k. R ^^ j) = R ^^ 0 \<union> (\<Union>j \<le> k. R ^^ Suc j)"
    unfolding atMost_Suc_eq_insert_0 by simp
  then have "(\<Union>j \<le> Suc k. R ^^ j) = Id \<union> R O (\<Union>j \<le> k. R ^^ j)"
    by (simp only: relpow.simps relcomp_UNION_distrib flip: relpow_commute)
  then show ?case
    using Suc set_step_all [of f R ps] by (auto simp: relcomp_Image)
qed simp

lemma sem_progress: "(p, q) \<in> sem ic r \<Longrightarrow> q = p \<or> length (snd q) < length (snd p)"
proof (induction r arbitrary: p q)
  case (RSeq a b)
  then show ?case by fastforce
next
  case (RAlt a b)
  from RAlt.prems have "(p, q) \<in> sem ic a \<or> (p, q) \<in> sem ic b" by simp
  then show ?case using RAlt.IH by blast
next
  case (RRep r lo hi)
  have star: "q' = p' \<or> length (snd q') < length (snd p')" if "(p', q') \<in> (sem ic r)\<^sup>*" for p' q'
    using that by (induction rule: rtrancl_induct) (use RRep.IH in fastforce)+
  have "(p, q) \<in> (sem ic r)\<^sup>*"
    using RRep.prems by (auto split: option.splits intro: relpow_imp_rtrancl rtrancl_trans)
  then show ?case by (rule star)
qed auto

lemma rtrancl_bounded:
  assumes "\<And>p q. (p, q) \<in> R \<Longrightarrow> q = p \<or> m q < (m p :: nat)" and "(p, q) \<in> R\<^sup>*"
  shows "\<exists>j \<le> m p. (p, q) \<in> R ^^ j"
  using assms(2)
proof (induction rule: converse_rtrancl_induct)
  case base
  then show ?case by (intro exI [of _ 0]) simp
next
  case (step y z)
  then obtain j where j: "j \<le> m z" "(z, q) \<in> R ^^ j" by blast
  show ?case
  proof (cases "z = y")
    case False
    with assms(1) [OF step(1)] have "Suc j \<le> m y" using j by auto
    moreover have "(y, q) \<in> R ^^ Suc j" using step(1) j(2) by (rule relpow_Suc_I2)
    ultimately show ?thesis by blast
  qed (use j in blast)
qed

text \<open>
  The executable matcher returns exactly the positions that the relational denotation of the
  expression allows, so its verdict on a pattern and a text is the verdict of Python's search.
\<close>

lemma ends_sound_complete: "set (ends ic r p) = sem ic r `` {p}"
proof (induction r arbitrary: p)
  case REps
  then show ?case by simp
next
  case (RSet neg rs)
  obtain b s where p: "p = (b, s)" by (cases p)
  show ?case by (cases s) (simp_all add: p Image_singleton)
next
  case RBegin
  show ?case by (cases p) (auto simp: Image_singleton)
next
  case REnd
  obtain b s where p: "p = (b, s)" by (cases p)
  show ?case by (auto simp: p Image_singleton)
next
  case (RAlt a b)
  then show ?case by (simp add: Un_Image)
next
  case (RSeq a b)
  then show ?case using set_step_all [of "ends ic b" "sem ic b"] by (simp add: relcomp_Image)
next
  case (RRep r lo hi)
  let ?R = "sem ic r"
  note min = set_rep_min [of "ends ic r" ?R, OF RRep.IH]
  note opt = set_rep_opt [of "ends ic r" ?R, OF RRep.IH]
  show ?case
  proof (cases hi)
    case None
    let ?k = "Suc (length (snd p))"
    have "(\<Union>j \<le> ?k. ?R ^^ j) `` ((?R ^^ lo) `` {p}) = ?R\<^sup>* `` ((?R ^^ lo) `` {p})"
    proof (rule antisym)
      show "?R\<^sup>* `` ((?R ^^ lo) `` {p}) \<subseteq> (\<Union>j \<le> ?k. ?R ^^ j) `` ((?R ^^ lo) `` {p})"
      proof
        fix q assume "q \<in> ?R\<^sup>* `` ((?R ^^ lo) `` {p})"
        then obtain x where x: "(p, x) \<in> ?R ^^ lo" "(x, q) \<in> ?R\<^sup>*" by auto
        obtain j where j: "j \<le> length (snd x)" "(x, q) \<in> ?R ^^ j"
          using rtrancl_bounded [of ?R "\<lambda>p. length (snd p)", OF sem_progress [where ic = ic and r = r] x(2)] by blast
        have "(p, x) \<in> sem ic (RRep r lo (Some lo))" using x(1) by auto
        then have "length (snd x) \<le> length (snd p)" using sem_progress by fastforce
        with j x(1) show "q \<in> (\<Union>j \<le> ?k. ?R ^^ j) `` ((?R ^^ lo) `` {p})"
          by (auto simp: Image_iff intro!: bexI [of _ x] bexI [of _ j])
      qed
    qed (auto intro: relpow_imp_rtrancl)
    then show ?thesis using None by (simp add: min opt relcomp_Image del: rep_opt.simps)
  next
    case (Some h)
    then show ?thesis by (simp add: min opt relcomp_Image)
  qed
qed

section \<open>What a searched text contains\<close>

text \<open>The characters between two positions all belong to sets of the expression.\<close>

fun consumes :: "regex \<Rightarrow> (bool \<times> (char \<times> char) list) list" where
  "consumes (RSet neg rs) = [(neg, rs)]"
| "consumes (RSeq a b) = consumes a @ consumes b"
| "consumes (RAlt a b) = consumes a @ consumes b"
| "consumes (RRep r lo hi) = consumes r"
| "consumes _ = []"

lemma rtrancl_consumed:
  assumes "\<And>p q. (p, q) \<in> R \<Longrightarrow> \<exists>u. snd p = u @ snd q \<and> (\<forall>c \<in> set u. P c)"
    and "(p, q) \<in> R\<^sup>*"
  shows "\<exists>u. snd p = u @ snd q \<and> (\<forall>c \<in> set u. P c)"
  using assms(2)
proof (induction rule: converse_rtrancl_induct)
  case base
  then show ?case by (intro exI [of _ "[]"]) simp
next
  case (step y z)
  then obtain v where v: "snd z = v @ snd q" "\<forall>c \<in> set v. P c" by blast
  obtain u where u: "snd y = u @ snd z" "\<forall>c \<in> set u. P c" using assms(1) [OF step(1)] by blast
  with v show ?case by (intro exI [of _ "u @ v"]) auto
qed

lemma sem_consumed:
  "(p, q) \<in> sem ic r \<Longrightarrow>
   \<exists>u. snd p = u @ snd q \<and> (\<forall>c \<in> set u. list_ex (\<lambda>(neg, rs). in_set ic neg rs c) (consumes r))"
proof (induction r arbitrary: p q)
  case (RSeq a b)
  then obtain x where x: "(p, x) \<in> sem ic a" "(x, q) \<in> sem ic b" by auto
  obtain u where u: "snd p = u @ snd x" "\<forall>c \<in> set u. list_ex (\<lambda>(neg, rs). in_set ic neg rs c) (consumes a)"
    using RSeq.IH(1) [OF x(1)] by blast
  obtain v where v: "snd x = v @ snd q" "\<forall>c \<in> set v. list_ex (\<lambda>(neg, rs). in_set ic neg rs c) (consumes b)"
    using RSeq.IH(2) [OF x(2)] by blast
  from u v show ?case by (intro exI [of _ "u @ v"]) auto
next
  case (RAlt a b)
  from RAlt.prems have "(p, q) \<in> sem ic a \<or> (p, q) \<in> sem ic b" by simp
  then show ?case using RAlt.IH by fastforce
next
  case (RRep r lo hi)
  have "(p, q) \<in> (sem ic r)\<^sup>*"
    using RRep.prems by (auto split: option.splits intro: relpow_imp_rtrancl rtrancl_trans)
  from rtrancl_consumed [OF _ this, of "\<lambda>c. list_ex (\<lambda>(neg, rs). in_set ic neg rs c) (consumes r)"]
  show ?case using RRep.IH by simp
qed (auto intro: exI [of _ "[]"])

fun end_anchored :: "regex \<Rightarrow> bool" where
  "end_anchored (RSeq a b) = ((a = REnd \<and> b = REps) \<or> end_anchored b)"
| "end_anchored r = False"

lemma sem_end_anchored:
  "(p, q) \<in> sem ic r \<Longrightarrow> end_anchored r \<Longrightarrow> snd q = [] \<or> snd q = [nl]"
proof (induction r arbitrary: p q)
  case (RSeq a b)
  then obtain x where x: "(p, x) \<in> sem ic a" "(x, q) \<in> sem ic b" by auto
  show ?case
  proof (cases "end_anchored b")
    case True
    then show ?thesis by (rule RSeq.IH(2) [OF x(2)])
  next
    case False
    with RSeq.prems x show ?thesis by auto
  qed
qed simp_all

lemma anchored_search_chars:
  assumes "compile pat = Some (ic, RSeq RBegin r)" and "end_anchored r"
    and "re_search pat text = Inr True" and "c \<in> set text" and "c \<noteq> nl"
  shows "list_ex (\<lambda>(neg, rs). in_set ic neg rs c) (consumes r)"
proof -
  from assms(1, 3) obtain p where p: "p \<in> set (suffixes_from True text)"
    and e: "ends ic (RSeq RBegin r) p \<noteq> []"
    by (auto simp: re_search_def list_ex_iff)
  from e obtain q where "q \<in> set (ends ic (RSeq RBegin r) p)"
    by (cases "ends ic (RSeq RBegin r) p") auto
  then have "(p, q) \<in> sem ic (RSeq RBegin r)" by (simp only: ends_sound_complete Image_singleton_iff)
  then have x: "(p, q) \<in> sem ic r" and "fst p" by auto
  have start: "p = (True, text)"
  proof -
    have "\<forall>p \<in> set (suffixes_from False s). \<not> fst p" for s by (induction s) auto
    with p \<open>fst p\<close> show ?thesis by (cases "text") auto
  qed
  obtain u where u: "text = u @ snd q" "\<forall>c \<in> set u. list_ex (\<lambda>(neg, rs). in_set ic neg rs c) (consumes r)"
    using sem_consumed [OF x] start by auto
  with assms(4, 5) sem_end_anchored [OF x assms(2)] show ?thesis by auto
qed

end
