(* ===== verification/Schema.thy ===== *)
theory Schema
  imports Json Regex
begin

text \<open>
  \<open>src/city2core/schema.py\<close>: the JSON Schema subset that Core validates records and events
  with. The documents of a \<open>SchemaStore\<close> are an association list from file names to parsed
  documents. \<open>path\<close> arguments only serve messages and are left out. A document whose keyword
  has a value of the wrong JSON type (say, a number under \<open>enum\<close>) makes Python raise some
  error that is no \<open>ValidationError\<close>; here that is a \<open>TypeError\<close>.

  Validation follows references, so it may recurse without end; the fuel is the number of nested
  calls that the interpreter allows, and running out of it is Python's \<open>RecursionError\<close>, which the
  \<open>except ValidationError\<close> clauses do not catch.
\<close>

section \<open>Numbers\<close>

text \<open>The value of a finite \<open>float\<close>: the multiple \<open>m * 2 ^ e\<close> with a 53-bit \<open>m\<close> nearest to its
  decimal digits, ties to even. \<open>bit_len\<close> is \<open>int.bit_length\<close>.\<close>

fun bit_len :: "nat \<Rightarrow> nat" where
  "bit_len n = (if n = 0 then 0 else Suc (bit_len (n div 2)))"

declare bit_len.simps [simp del]

definition round_half_even :: "nat \<Rightarrow> nat \<Rightarrow> nat" where
  "round_half_even n d =
     (let q = n div d; r = n mod d
      in if 2 * r < d then q else if d < 2 * r then Suc q else if even q then q else Suc q)"

text \<open>\<open>n / d\<close> rounded, as a numerator and a denominator.\<close>

definition nearest_double :: "nat \<Rightarrow> nat \<Rightarrow> nat \<times> nat" where
  "nearest_double n d =
     (let e0 = int (bit_len n) - int (bit_len d) - 53;
          q = (n * 2 ^ nat (- e0)) div (d * 2 ^ nat e0);
          e = max (if 2 ^ 53 \<le> q then e0 + 1 else e0) (-1074)
      in (round_half_even (n * 2 ^ nat (- e)) (d * 2 ^ nat e) * 2 ^ nat e, 2 ^ nat (- e)))"

text \<open>A number is a fraction, an infinity, or not comparable at all.\<close>

datatype num = Frac int int | NInf bool | NNaN

definition digits_num :: "nat list \<Rightarrow> nat" where
  "digits_num ds = foldl (\<lambda>a d. 10 * a + d) 0 ds"

definition float_num :: "pyfloat \<Rightarrow> num" where
  "float_num f = (case f of
      PyFloat neg ds n \<Rightarrow>
        (let k = n - int (length ds);
             v = nearest_double (digits_num ds * 10 ^ nat k) (10 ^ nat (- k))
         in Frac ((if neg then -1 else 1) * int (fst v)) (int (snd v)))
    | PyInf neg \<Rightarrow> NInf neg
    | PyNaN \<Rightarrow> NNaN)"

definition num_of :: "json \<Rightarrow> num option" where
  "num_of v = (case v of
      JInt i \<Rightarrow> Some (Frac i 1)
    | JBool b \<Rightarrow> Some (Frac (if b then 1 else 0) 1)
    | JFloat f \<Rightarrow> Some (float_num f)
    | _ \<Rightarrow> None)"

fun num_less :: "num \<Rightarrow> num \<Rightarrow> bool" where
  "num_less (Frac a b) (Frac c d) = (a * d < c * b)"
| "num_less (Frac a b) (NInf neg) = (\<not> neg)"
| "num_less (NInf neg) (Frac c d) = neg"
| "num_less (NInf n) (NInf m) = (n \<and> \<not> m)"
| "num_less _ _ = False"

fun num_eq :: "num \<Rightarrow> num \<Rightarrow> bool" where
  "num_eq (Frac a b) (Frac c d) = (a * d = c * b)"
| "num_eq (NInf n) (NInf m) = (n = m)"
| "num_eq _ _ = False"

text \<open>\<open>a < b\<close> and \<open>a <= b\<close> on values of the program.\<close>

definition py_less :: "json \<Rightarrow> json \<Rightarrow> bool result" where
  "py_less v w = (case (num_of v, num_of w) of
      (Some a, Some b) \<Rightarrow> Inr (num_less a b)
    | _ \<Rightarrow> Inl (TypeError ''unorderable''))"

definition py_less_eq :: "json \<Rightarrow> json \<Rightarrow> bool result" where
  "py_less_eq v w = (case (num_of v, num_of w) of
      (Some a, Some b) \<Rightarrow> Inr (num_less a b \<or> num_eq a b)
    | _ \<Rightarrow> Inl (TypeError ''unorderable''))"

section \<open>Types and equality\<close>

definition is_type :: "json \<Rightarrow> string \<Rightarrow> bool" where
  "is_type v expected =
     (if expected = ''array'' then (case v of JList xs \<Rightarrow> True | _ \<Rightarrow> False)
      else if expected = ''boolean'' then (case v of JBool b \<Rightarrow> True | _ \<Rightarrow> False)
      else if expected = ''integer'' then (case v of JInt i \<Rightarrow> True | _ \<Rightarrow> False)
      else if expected = ''null'' then (case v of JNull \<Rightarrow> True | _ \<Rightarrow> False)
      else if expected = ''number'' then (case v of JInt i \<Rightarrow> True | JFloat f \<Rightarrow> True | _ \<Rightarrow> False)
      else if expected = ''object'' then (case v of JObj d \<Rightarrow> True | _ \<Rightarrow> False)
      else if expected = ''string'' then (case v of JStr s \<Rightarrow> True | _ \<Rightarrow> False)
      else False)"

lemma size_jsn_item: "p \<in> set d \<Longrightarrow> size (snd p) < size (JObj d)"
proof -
  assume "p \<in> set d"
  then have "size (snd p) \<le> size_list (size_prod (\<lambda>_. 0) size) d"
    by (induction d) (auto intro: le_SucI trans_le_add2)
  then show ?thesis by simp
qed

lemma size_jsn_elem: "x \<in> set xs \<Longrightarrow> size x < size (JList xs)"
  by (simp add: less_Suc_eq_le size_list_estimation')

function json_equal :: "json \<Rightarrow> json \<Rightarrow> bool" where
  "json_equal (JBool a) w = (case w of JBool b \<Rightarrow> a = b | _ \<Rightarrow> False)"
| "json_equal (JInt i) w = (case w of JInt j \<Rightarrow> i = j | JFloat g \<Rightarrow> num_eq (Frac i 1) (float_num g) | _ \<Rightarrow> False)"
| "json_equal (JFloat f) w = (case w of
      JInt j \<Rightarrow> num_eq (float_num f) (Frac j 1)
    | JFloat g \<Rightarrow> num_eq (float_num f) (float_num g)
    | _ \<Rightarrow> False)"
| "json_equal (JList xs) w = (case w of JList ys \<Rightarrow> list_all2 json_equal xs ys | _ \<Rightarrow> False)"
| "json_equal (JObj d) w = (case w of
      JObj e \<Rightarrow> set (map fst d) = set (map fst e) \<and>
        list_all (\<lambda>p. case map_of e (fst p) of None \<Rightarrow> False | Some u \<Rightarrow> json_equal (snd p) u) d
    | _ \<Rightarrow> False)"
| "json_equal (JStr s) w = (case w of JStr t \<Rightarrow> s = t | _ \<Rightarrow> False)"
| "json_equal JNull w = (case w of JNull \<Rightarrow> True | _ \<Rightarrow> False)"
  by pat_completeness auto
termination
  by (relation "measure (size \<circ> fst)")
    (auto simp del: jsn.size intro: size_jsn_item size_jsn_elem)

section \<open>The schema store\<close>

type_synonym documents = "(string \<times> json) list"

fun split_on :: "char \<Rightarrow> string \<Rightarrow> string list" where
  "split_on c [] = [[]]"
| "split_on c (x # s) =
     (if x = c then [] # split_on c s
      else case split_on c s of p # ps \<Rightarrow> (x # p) # ps | [] \<Rightarrow> [[x]])"

text \<open>\<open>Path(target).name\<close>: the last component that is neither empty nor \<open>.\<close>.\<close>

definition path_name :: "string \<Rightarrow> string" where
  "path_name s =
     (let ps = filter (\<lambda>p. p \<noteq> [] \<and> p \<noteq> ''.'') (split_on (CHR ''/'') s)
      in if ps = [] then [] else last ps)"

text \<open>\<open>raw.replace("~1", "/").replace("~0", "~")\<close>.\<close>

fun replace_pair :: "char \<Rightarrow> char \<Rightarrow> char \<Rightarrow> string \<Rightarrow> string" where
  "replace_pair a b r (x # y # s) =
     (if x = a \<and> y = b then r # replace_pair a b r s else x # replace_pair a b r (y # s))"
| "replace_pair a b r s = s"

definition unescape_pointer :: "string \<Rightarrow> string" where
  "unescape_pointer s =
     replace_pair (CHR ''~'') (CHR ''0'') (CHR ''~'') (replace_pair (CHR ''~'') (CHR ''1'') (CHR ''/'') s)"

definition unresolved_reference :: exc where
  "unresolved_reference = ValidationError ''unresolved schema reference''"

text \<open>\<open>node = node[part]\<close> for every part of a pointer.\<close>

fun walk_pointer :: "string list \<Rightarrow> json \<Rightarrow> json result" where
  "walk_pointer [] node = Inr node"
| "walk_pointer (p # ps) node =
     (case get node (unescape_pointer p) of
        None \<Rightarrow> Inl unresolved_reference
      | Some child \<Rightarrow> walk_pointer ps child)"

definition resolve :: "documents \<Rightarrow> string \<Rightarrow> string \<Rightarrow> json \<Rightarrow> (json \<times> string \<times> json) result" where
  "resolve docs ref name root =
     (let target = takeWhile (\<lambda>c. c \<noteq> CHR ''#'') ref;
          fragment = drop (Suc (length target)) ref
      in bindE (if target = [] then Inr (root, name)
                else case map_of docs (path_name target) of
                    None \<Rightarrow> Inl unresolved_reference
                  | Some document \<Rightarrow> Inr (document, path_name target)) (\<lambda>(document, name').
         bindE (if fragment = [] then Inr document
                else if hd fragment \<noteq> CHR ''/''
                then Inl (ValidationError ''unsupported reference fragment'')
                else walk_pointer (split_on (CHR ''/'') (tl fragment)) document) (\<lambda>node.
         Inr (node, name', document))))"

section \<open>Validation\<close>

text \<open>What \<open>for x in value\<close> visits.\<close>

definition iterate :: "json \<Rightarrow> json list result" where
  "iterate v = (case v of
      JList xs \<Rightarrow> Inr xs
    | JObj d \<Rightarrow> Inr (map (\<lambda>p. JStr (fst p)) d)
    | JStr s \<Rightarrow> Inr (map (\<lambda>c. JStr [c]) s)
    | _ \<Rightarrow> Inl (TypeError ''not iterable''))"

definition invalid :: "string \<Rightarrow> unit result" where
  "invalid msg = Inl (ValidationError msg)"

text \<open>A clause of the validator that applies when a keyword is present.\<close>

definition when_key :: "string dict \<Rightarrow> string \<Rightarrow> (json \<Rightarrow> unit result) \<Rightarrow> unit result" where
  "when_key schema k f = (case map_of schema k of None \<Rightarrow> Inr () | Some v \<Rightarrow> f v)"

text \<open>How many of the schemas accept; any other exception passes through.\<close>

fun count_valid :: "(json \<Rightarrow> unit result) \<Rightarrow> json list \<Rightarrow> nat result" where
  "count_valid f [] = Inr 0"
| "count_valid f (c # cs) =
     (case f c of
        Inr u \<Rightarrow> bindE (count_valid f cs) (\<lambda>n. Inr (Suc n))
      | Inl e \<Rightarrow> (case e of ValidationError m \<Rightarrow> count_valid f cs | _ \<Rightarrow> Inl e))"

definition reject_if :: "bool result \<Rightarrow> string \<Rightarrow> unit result" where
  "reject_if r msg = bindE r (\<lambda>b. if b then invalid msg else Inr ())"

definition check_type :: "json \<Rightarrow> json \<Rightarrow> unit result" where
  "check_type v expected =
     (case expected of JNull \<Rightarrow> Inr ()
      | _ \<Rightarrow> bindE (case expected of JStr s \<Rightarrow> Inr [expected] | _ \<Rightarrow> iterate expected) (\<lambda>es.
          if list_ex (\<lambda>e. case e of JStr s \<Rightarrow> is_type v s | _ \<Rightarrow> False) es then Inr ()
          else invalid ''expected type''))"

definition check_const_enum :: "string dict \<Rightarrow> json \<Rightarrow> unit result" where
  "check_const_enum schema v =
     bindE (when_key schema ''const'' (\<lambda>c. if json_equal v c then Inr () else invalid ''expected constant'')) (\<lambda>_.
     when_key schema ''enum'' (\<lambda>cs. bindE (iterate cs) (\<lambda>choices.
       if list_ex (json_equal v) choices then Inr () else invalid ''value is not in enum'')))"

definition check_required :: "string dict \<Rightarrow> string dict \<Rightarrow> unit result" where
  "check_required schema d =
     when_key schema ''required'' (\<lambda>ks. bindE (iterate ks) (forE (\<lambda>k. case k of
         JStr s \<Rightarrow> if dict_has d s then Inr () else invalid ''missing required property''
       | JList xs \<Rightarrow> Inl (TypeError ''unhashable'')
       | JObj e \<Rightarrow> Inl (TypeError ''unhashable'')
       | _ \<Rightarrow> invalid ''missing required property'')))"

text \<open>\<open>uniqueItems\<close>: no element equals an earlier one.\<close>

fun has_duplicate :: "json list \<Rightarrow> json list \<Rightarrow> bool" where
  "has_duplicate seen [] = False"
| "has_duplicate seen (x # xs) = (list_ex (json_equal x) seen \<or> has_duplicate (seen @ [x]) xs)"

definition check_list_size :: "string dict \<Rightarrow> json list \<Rightarrow> unit result" where
  "check_list_size schema xs =
     bindE (when_key schema ''minItems'' (\<lambda>m. reject_if (py_less (JInt (int (length xs))) m) ''fewer than minItems'')) (\<lambda>_.
     bindE (when_key schema ''maxItems'' (\<lambda>m. reject_if (py_less m (JInt (int (length xs)))) ''more than maxItems'')) (\<lambda>_.
     when_key schema ''uniqueItems'' (\<lambda>u.
       if truthy u \<and> has_duplicate [] xs then invalid ''array values are not unique'' else Inr ())))"

definition check_string :: "string dict \<Rightarrow> string \<Rightarrow> unit result" where
  "check_string schema s =
     bindE (when_key schema ''minLength'' (\<lambda>m. reject_if (py_less (JInt (int (length s))) m) ''shorter than minLength'')) (\<lambda>_.
     bindE (when_key schema ''maxLength'' (\<lambda>m. reject_if (py_less m (JInt (int (length s)))) ''longer than maxLength'')) (\<lambda>_.
     when_key schema ''pattern'' (\<lambda>p. bindE (as_str p) (\<lambda>pat.
       bindE (re_search pat s) (\<lambda>found. if found then Inr () else invalid ''string does not match pattern'')))))"

definition check_number :: "string dict \<Rightarrow> json \<Rightarrow> unit result" where
  "check_number schema v =
     bindE (when_key schema ''minimum'' (\<lambda>m. reject_if (py_less v m) ''value is below minimum'')) (\<lambda>_.
     bindE (when_key schema ''maximum'' (\<lambda>m. reject_if (py_less m v) ''value is above maximum'')) (\<lambda>_.
     bindE (when_key schema ''exclusiveMinimum'' (\<lambda>m. reject_if (py_less_eq v m) ''value is not above exclusiveMinimum'')) (\<lambda>_.
     when_key schema ''exclusiveMaximum'' (\<lambda>m. reject_if (py_less_eq m v) ''value is not below exclusiveMaximum''))))"

text \<open>The keyword clauses that look at the value only through schemas of its parts; \<open>sub s v\<close> stands for
  the recursive call.\<close>

definition check_combinators :: "(json \<Rightarrow> json \<Rightarrow> unit result) \<Rightarrow> string dict \<Rightarrow> json \<Rightarrow> unit result" where
  "check_combinators sub schema v =
     bindE (when_key schema ''allOf'' (\<lambda>cs. bindE (iterate cs) (forE (\<lambda>c. sub c v)))) (\<lambda>_.
     bindE (when_key schema ''anyOf'' (\<lambda>cs. bindE (iterate cs) (\<lambda>children.
       bindE (count_valid (\<lambda>c. sub c v) children) (\<lambda>n.
       if n < 1 then invalid ''does not satisfy anyOf'' else Inr ())))) (\<lambda>_.
     bindE (when_key schema ''oneOf'' (\<lambda>cs. bindE (iterate cs) (\<lambda>children.
       bindE (count_valid (\<lambda>c. sub c v) children) (\<lambda>n.
       if n \<noteq> 1 then invalid ''does not satisfy oneOf'' else Inr ())))) (\<lambda>_.
     when_key schema ''not'' (\<lambda>c. case sub c v of
         Inr u \<Rightarrow> invalid ''satisfies prohibited schema''
       | Inl e \<Rightarrow> (case e of ValidationError m \<Rightarrow> Inr () | _ \<Rightarrow> Inl e)))))"

definition is_dict :: "json \<Rightarrow> bool" where
  "is_dict v = (case v of JObj d \<Rightarrow> True | _ \<Rightarrow> False)"

definition check_property :: "(json \<Rightarrow> json \<Rightarrow> unit result) \<Rightarrow> string dict \<Rightarrow> string dict \<Rightarrow> string \<times> json \<Rightarrow> unit result" where
  "check_property sub schema properties kv =
     (case map_of properties (fst kv) of
        Some s \<Rightarrow> sub s (snd kv)
      | None \<Rightarrow>
          (case map_of schema ''additionalProperties'' of
             Some (JBool b) \<Rightarrow> if b then Inr () else invalid ''unexpected property''
           | Some (JObj s) \<Rightarrow> sub (JObj s) (snd kv)
           | _ \<Rightarrow> Inr ()))"

definition check_object :: "(json \<Rightarrow> json \<Rightarrow> unit result) \<Rightarrow> string dict \<Rightarrow> string dict \<Rightarrow> unit result" where
  "check_object sub schema d =
     bindE (when_key schema ''propertyNames'' (\<lambda>s.
       if is_dict s then forE (\<lambda>kv. sub s (JStr (fst kv))) d else Inr ())) (\<lambda>_.
     bindE (check_required schema d) (\<lambda>_.
     bindE (case map_of schema ''properties'' of
         None \<Rightarrow> Inr []
       | Some (JObj ps) \<Rightarrow> Inr ps
       | Some _ \<Rightarrow> Inl (TypeError ''properties'')) (\<lambda>properties.
     forE (check_property sub schema properties) d)))"

definition check_list :: "(json \<Rightarrow> json \<Rightarrow> unit result) \<Rightarrow> string dict \<Rightarrow> json list \<Rightarrow> unit result" where
  "check_list sub schema xs =
     bindE (check_list_size schema xs) (\<lambda>_.
     when_key schema ''items'' (\<lambda>s. if is_dict s then forE (sub s) xs else Inr ()))"

text \<open>\<open>validate_instance\<close>. The root of the document is the schema itself when none (or an empty
  one) is passed down.\<close>

fun validate_instance ::
  "nat \<Rightarrow> documents \<Rightarrow> string \<Rightarrow> json option \<Rightarrow> json \<Rightarrow> json \<Rightarrow> unit result" where
  "validate_instance 0 docs name document_root schema v = Inl RecursionError"
| "validate_instance (Suc n) docs name document_root schema v =
     (case schema of
        JObj s \<Rightarrow>
          (let root = (case document_root of Some r \<Rightarrow> if truthy r then r else schema | None \<Rightarrow> schema);
               sub = validate_instance n docs name (Some root)
           in bindE (when_key s ''$ref'' (\<lambda>ref.
                bindE (as_str ref) (\<lambda>r.
                bindE (resolve docs r name root) (\<lambda>(target, target_name, target_root).
                validate_instance n docs target_name (Some target_root) target v)))) (\<lambda>_.
              bindE (check_combinators sub s v) (\<lambda>_.
              bindE (when_key s ''type'' (check_type v)) (\<lambda>_.
              bindE (check_const_enum s v) (\<lambda>_.
              case v of
                JObj d \<Rightarrow> check_object sub s d
              | JList xs \<Rightarrow> check_list sub s xs
              | JStr t \<Rightarrow> check_string s t
              | JInt i \<Rightarrow> check_number s v
              | JFloat f \<Rightarrow> check_number s v
              | _ \<Rightarrow> Inr ())))))
      | _ \<Rightarrow> Inl (TypeError ''schema is not an object''))"

definition validate_named :: "nat \<Rightarrow> documents \<Rightarrow> json \<Rightarrow> string \<Rightarrow> unit result" where
  "validate_named depth docs v name =
     (case map_of docs name of
        None \<Rightarrow> Inl (ValidationError ''unknown City2 schema'')
      | Some schema \<Rightarrow> validate_instance depth docs name None schema v)"

section \<open>Equality of JSON values\<close>

fun nan_free :: "json \<Rightarrow> bool" where
  "nan_free (JFloat f) = (f \<noteq> PyNaN)"
| "nan_free (JList xs) = list_all nan_free xs"
| "nan_free (JObj d) = list_all (\<lambda>p. nan_free (snd p)) d"
| "nan_free _ = True"

lemma num_eq_refl: "n \<noteq> NNaN \<Longrightarrow> num_eq n n"
  by (cases n) simp_all

lemma num_eq_sym: "num_eq a b = num_eq b a"
  by (cases a; cases b) auto

lemma float_num_not_nan: "f \<noteq> PyNaN \<Longrightarrow> float_num f \<noteq> NNaN"
  by (cases f) (simp_all add: float_num_def Let_def)

lemma json_equal_refl: "wf_jsn v \<Longrightarrow> nan_free v \<Longrightarrow> json_equal v v"
proof (induction v)
  case (JFloat f)
  then show ?case by (simp add: num_eq_refl float_num_not_nan)
next
  case (JList xs)
  then show ?case by (auto simp: list_all2_same list_all_iff)
next
  case (JObj d)
  then show ?case by (fastforce simp: list_all_iff)
qed simp_all

lemma json_equal_bool: "json_equal (JBool a) w \<longleftrightarrow> w = JBool a"
  by (cases w) auto

lemma json_equal_sym_imp: "wf_jsn v \<Longrightarrow> wf_jsn w \<Longrightarrow> json_equal v w \<Longrightarrow> json_equal w v"
proof (induction v arbitrary: w)
  case (JInt i)
  then show ?case by (cases w) (auto simp: num_eq_sym)
next
  case (JFloat f)
  then show ?case by (cases w) (auto simp: num_eq_sym)
next
  case (JList xs)
  then obtain ys where w: "w = JList ys" and a: "list_all2 json_equal xs ys" by (cases w) auto
  have "list_all2 (\<lambda>y x. json_equal y x) ys xs"
    unfolding list_all2_conv_all_nth
  proof (intro conjI allI impI)
    show "length ys = length xs" using a by (simp add: list_all2_lengthD)
    fix i assume i: "i < length ys"
    then have l: "i < length xs" using a by (simp add: list_all2_lengthD)
    show "json_equal (ys ! i) (xs ! i)"
      by (rule JList.IH) (use JList.prems w a i l in \<open>auto simp: list_all_length list_all2_conv_all_nth\<close>)
  qed
  then show ?case by (simp add: w)
next
  case (JObj d)
  then obtain e where w: "w = JObj e" and k: "set (map fst d) = set (map fst e)"
    and a: "list_all (\<lambda>p. case map_of e (fst p) of None \<Rightarrow> False | Some u \<Rightarrow> json_equal (snd p) u) d"
    by (cases w) auto
  have "case map_of d (fst q) of None \<Rightarrow> False | Some u \<Rightarrow> json_equal (snd q) u" if q: "q \<in> set e" for q
  proof -
    have "fst q \<in> fst ` set d" using k q by auto
    then obtain u where u: "map_of d (fst q) = Some u" by (metis domIff dom_map_of_conv_image_fst not_None_eq)
    then have m: "(fst q, u) \<in> set d" by (rule map_of_SomeD)
    have me: "map_of e (fst q) = Some (snd q)" using q JObj.prems w by simp
    have "json_equal u (snd q)" using a m me by (auto simp: list_all_iff)
    moreover have "wf_jsn u" "wf_jsn (snd q)" using m q JObj.prems w by (auto simp: list_all_iff)
    ultimately have "json_equal (snd q) u" using JObj.IH [OF m] by simp
    then show ?thesis by (simp add: u)
  qed
  then show ?case using k by (simp add: w list_all_iff)
qed (case_tac w; auto)+



section \<open>More recursion depth never changes a verdict\<close>

definition settles :: "'a result \<Rightarrow> 'a result \<Rightarrow> bool" where
  "settles r r' \<longleftrightarrow> r = Inl RecursionError \<or> r' = r"

lemma settles_refl [simp]: "settles r r"
  by (simp add: settles_def)

lemma settles_bindE [intro]:
  "settles r r' \<Longrightarrow> (\<And>a. settles (f a) (f' a)) \<Longrightarrow> settles (bindE r f) (bindE r' f')"
  by (cases r) (auto simp: settles_def)

lemma settles_when_key [intro]:
  "(\<And>v. settles (f v) (f' v)) \<Longrightarrow> settles (when_key s k f) (when_key s k f')"
  by (auto simp: when_key_def split: option.splits)

lemma settles_forE [intro]: "(\<And>x. settles (f x) (f' x)) \<Longrightarrow> settles (forE f xs) (forE f' xs)"
  by (induction xs) auto

lemma settles_count_valid [intro]:
  "(\<And>x. settles (f x) (f' x)) \<Longrightarrow> settles (count_valid f xs) (count_valid f' xs)"
proof (induction xs)
  case (Cons x xs)
  show ?case
  proof (cases "f x = Inl RecursionError")
    case False
    then have "f' x = f x" using Cons.prems [of x] by (auto simp: settles_def)
    then show ?thesis using Cons by (auto split: sum.splits exc.splits)
  qed (simp add: settles_def)
qed simp

lemma settles_check_combinators:
  assumes "\<And>c v. settles (sub c v) (sub' c v)"
  shows "settles (check_combinators sub s v) (check_combinators sub' s v)"
proof -
  have "settles (case sub c v of Inr u \<Rightarrow> invalid m | Inl e \<Rightarrow> (case e of ValidationError m \<Rightarrow> Inr () | _ \<Rightarrow> Inl e))
      (case sub' c v of Inr u \<Rightarrow> invalid m | Inl e \<Rightarrow> (case e of ValidationError m \<Rightarrow> Inr () | _ \<Rightarrow> Inl e))" for c m
    using assms [of c v] by (auto simp: settles_def split: sum.splits exc.splits)
  then show ?thesis
    unfolding check_combinators_def using assms
    by (intro settles_bindE settles_when_key settles_forE settles_count_valid) simp_all
qed

lemma settles_check_property:
  "(\<And>c v. settles (sub c v) (sub' c v)) \<Longrightarrow>
   settles (check_property sub s ps kv) (check_property sub' s ps kv)"
  by (auto simp: check_property_def split: option.splits jsn.splits)

lemma settles_check_object:
  assumes "\<And>c v. settles (sub c v) (sub' c v)"
  shows "settles (check_object sub s d) (check_object sub' s d)"
  unfolding check_object_def using assms
  by (intro settles_bindE settles_when_key settles_forE settles_check_property) (simp_all add: settles_forE)

lemma settles_check_list:
  assumes "\<And>c v. settles (sub c v) (sub' c v)"
  shows "settles (check_list sub s xs) (check_list sub' s xs)"
  unfolding check_list_def using assms
  by (intro settles_bindE settles_when_key) (simp_all add: settles_forE)

lemma validate_settles:
  "settles (validate_instance n docs name root schema v) (validate_instance (n + k) docs name root schema v)"
proof (induction n arbitrary: name root schema v)
  case 0
  then show ?case by (simp add: settles_def)
next
  case (Suc n)
  show ?case
  proof (cases schema)
    case (JObj s)
    let ?r = "case root of Some r \<Rightarrow> if truthy r then r else schema | None \<Rightarrow> schema"
    note sub = Suc.IH [of name "Some ?r"]
    note combs = settles_check_combinators [OF sub]
      settles_check_object [OF sub] settles_check_list [OF sub]
    show ?thesis
      unfolding JObj add_Suc validate_instance.simps jsn.case Let_def
      by (intro settles_bindE settles_when_key)
        (use Suc.IH combs JObj in \<open>auto split: jsn.splits prod.splits\<close>)
  qed simp_all
qed



text \<open>The empty schema accepts everything.\<close>

lemma validate_empty_schema: "validate_instance (Suc n) docs name None (JObj []) v = Inr ()"
  by (cases v) (simp_all add: when_key_def check_combinators_def check_const_enum_def check_object_def
      check_required_def check_property_def check_list_def check_list_size_def check_string_def check_number_def
      forE_Inr_iff)

end
