(* ===== verification/Ident.thy ===== *)
theory Ident
  imports CanonicalText Schema
begin

unbundle bit_operations_syntax

text \<open>
  The rest of \<open>src/city2core/model.py\<close>, on values whose strings are Isabelle strings:
  the normal form that stands for a canonical text, digests, RFC 3339 times, identifiers. And the
  environment of one call into Core: everything the code obtains from outside the repository or from
  its configuration, namely clock, entropy, the hash function, the schema documents, the fault hook and the
  connection's settings.
\<close>

section \<open>Canonical values and digests\<close>

definition to_u :: "json \<Rightarrow> ujson" where
  "to_u = map_jsn ucs"

definition norm :: "json \<Rightarrow> json" where
  "norm = norm_by (\<lambda>s. utf16be (ucs s))"

text \<open>\<open>canonical_json(value)\<close> as the value that its text denotes.\<close>

definition canonical :: "json \<Rightarrow> json result" where
  "canonical v = bindE (canonical_json (to_u v)) (\<lambda>_. Inr (norm v))"

lemma float_norm_map: "map_jsn f (float_norm g) = float_norm g"
  by (simp add: float_norm_def split: pyfloat.splits)

lemma to_u_norm: "to_u (norm v) = unorm (to_u v)"
proof (induction v)
  case (JFloat f)
  then show ?case by (simp add: to_u_def norm_def float_norm_map)
next
  case (JList xs)
  then show ?case by (simp add: to_u_def norm_def unorm_def)
next
  case (JObj d)
  let ?g = "\<lambda>p. (ucs (fst p), map_jsn ucs (snd p))"
  let ?n = "\<lambda>p. (fst p, norm (snd p))"
  have s: "sort_key (\<lambda>p. utf16be (fst p)) (map ?g xs) = map ?g (sort_key (\<lambda>p. utf16be (ucs (fst p))) xs)" for xs
  proof (induction xs)
    case (Cons x xs)
    have "insort_key (\<lambda>p. utf16be (fst p)) (?g x) (map ?g ys) = map ?g (insort_key (\<lambda>p. utf16be (ucs (fst p))) x ys)" for ys
      by (induction ys) simp_all
    with Cons show ?case by simp
  qed simp
  have e: "map (\<lambda>p. (fst p, unorm (snd p))) (map ?g d) = map ?g (map ?n d)"
    using JObj.IH by (auto simp: to_u_def)
  have "to_u (norm (JObj d)) = JObj (map ?g (sort_key (\<lambda>p. utf16be (ucs (fst p))) (map ?n d)))"
    by (simp add: to_u_def norm_def map_prod_def case_prod_unfold)
  also have "\<dots> = JObj (sort_key (\<lambda>p. utf16be (fst p)) (map (\<lambda>p. (fst p, unorm (snd p))) (map ?g d)))"
    by (simp only: s e)
  also have "\<dots> = unorm (to_u (JObj d))"
    by (simp add: to_u_def unorm_def map_prod_def case_prod_unfold)
  finally show ?case .
qed (simp_all add: to_u_def norm_def)

lemma wf_to_u: "wf_jsn v \<Longrightarrow> wf_jsn (to_u v)"
proof (induction v)
  case (JObj d)
  have "inj ucs" by (rule injI) (simp add: ucs_inj)
  then have "distinct (map ucs (map fst d))" using JObj.prems by (simp add: distinct_map inj_on_def)
  with JObj show ?case by (auto simp: to_u_def list_all_iff map_prod_def comp_def case_prod_unfold)
qed (auto simp: to_u_def list_all_iff)

text \<open>The normal form is what reading the canonical text back gives.\<close>

lemma canonical_denotes:
  assumes "wf_jsn v" and "canonical_json (to_u v) = Inr t"
  shows "canonical v = Inr (norm v)" and "json_loads t = Inr (to_u (norm v))"
  using assms json_loads_canonical_json [OF wf_to_u] by (simp_all add: canonical_def to_u_norm)

lemma canonical_Inr: "canonical v = Inr w \<Longrightarrow> w = norm v"
  by (auto simp: canonical_def bindE_Inr_iff)

section \<open>Times\<close>

record datetime =
  dt_year :: nat
  dt_month :: nat
  dt_day :: nat
  dt_hour :: nat
  dt_minute :: nat
  dt_second :: nat
  dt_micro :: nat

definition leap_year :: "nat \<Rightarrow> bool" where
  "leap_year y = (y mod 4 = 0 \<and> (y mod 100 \<noteq> 0 \<or> y mod 400 = 0))"

definition days_in_month :: "nat \<Rightarrow> nat \<Rightarrow> nat" where
  "days_in_month y m =
     (if m = 2 then (if leap_year y then 29 else 28) else if m \<in> {4, 6, 9, 11} then 30 else 31)"

definition valid_datetime :: "datetime \<Rightarrow> bool" where
  "valid_datetime t =
     (1 \<le> dt_year t \<and> dt_year t \<le> 9999 \<and> 1 \<le> dt_month t \<and> dt_month t \<le> 12 \<and>
      1 \<le> dt_day t \<and> dt_day t \<le> days_in_month (dt_year t) (dt_month t) \<and>
      dt_hour t < 24 \<and> dt_minute t < 60 \<and> dt_second t < 60 \<and> dt_micro t < 1000000)"

definition digit_char :: "nat \<Rightarrow> char" where
  "digit_char d = char_of (48 + d)"

text \<open>The last \<open>k\<close> decimal digits of a number.\<close>

fun pad :: "nat \<Rightarrow> nat \<Rightarrow> string" where
  "pad 0 n = []"
| "pad (Suc k) n = pad k (n div 10) @ [digit_char (n mod 10)]"

text \<open>\<open>utc_now\<close>: \<open>isoformat(timespec="microseconds").replace("+00:00", "Z")\<close> of a UTC time.\<close>

definition format_time :: "datetime \<Rightarrow> string" where
  "format_time t =
     pad 4 (dt_year t) @ ''-'' @ pad 2 (dt_month t) @ ''-'' @ pad 2 (dt_day t) @ ''T'' @
     pad 2 (dt_hour t) @ '':'' @ pad 2 (dt_minute t) @ '':'' @ pad 2 (dt_second t) @ ''.'' @
     pad 6 (dt_micro t) @ ''Z''"

definition is_digit :: "char \<Rightarrow> bool" where
  "is_digit c = (CHR ''0'' \<le> c \<and> c \<le> CHR ''9'')"

fun read_digits :: "nat \<Rightarrow> nat \<Rightarrow> string \<Rightarrow> (nat \<times> string) option" where
  "read_digits 0 a s = Some (a, s)"
| "read_digits (Suc k) a [] = None"
| "read_digits (Suc k) a (c # s) =
     (if is_digit c then read_digits k (10 * a + (of_char c - 48)) s else None)"

definition read_char :: "char \<Rightarrow> string \<Rightarrow> string option" where
  "read_char c s = (case s of [] \<Rightarrow> None | d # r \<Rightarrow> if c = d then Some r else None)"

text \<open>The digits of a fraction of a second, of which at most six count.\<close>

definition read_fraction :: "string \<Rightarrow> (nat \<times> string) option" where
  "read_fraction s =
     (let ds = takeWhile is_digit s; k = min 6 (length ds)
      in if ds = [] then None
         else case read_digits k 0 s of
             None \<Rightarrow> None
           | Some (v, _) \<Rightarrow> Some (v * 10 ^ (6 - k), drop (length ds) s))"

text \<open>\<open>HH[:MM[:SS[.ffffff]]]\<close>.\<close>

definition read_clock :: "string \<Rightarrow> ((nat \<times> nat \<times> nat \<times> nat) \<times> string) option" where
  "read_clock s0 =
     (case read_digits 2 0 s0 of
        None \<Rightarrow> None
      | Some (h, s1) \<Rightarrow>
          (case read_char (CHR '':'') s1 of
             None \<Rightarrow> Some ((h, 0, 0, 0), s1)
           | Some s2 \<Rightarrow>
               (case read_digits 2 0 s2 of
                  None \<Rightarrow> None
                | Some (mi, s3) \<Rightarrow>
                    (case read_char (CHR '':'') s3 of
                       None \<Rightarrow> Some ((h, mi, 0, 0), s3)
                     | Some s4 \<Rightarrow>
                         (case read_digits 2 0 s4 of
                            None \<Rightarrow> None
                          | Some (sec, s5) \<Rightarrow>
                              (if s5 \<noteq> [] \<and> (hd s5 = CHR ''.'' \<or> hd s5 = CHR '','')
                               then map_option (\<lambda>(us, r). ((h, mi, sec, us), r)) (read_fraction (tl s5))
                               else Some ((h, mi, sec, 0), s5)))))))"

definition read_date :: "string \<Rightarrow> ((nat \<times> nat \<times> nat) \<times> string) option" where
  "read_date s0 =
     (case read_digits 4 0 s0 of
        None \<Rightarrow> None
      | Some (y, s1) \<Rightarrow>
          (case Option.bind (read_char (CHR ''-'') s1) (read_digits 2 0) of
             None \<Rightarrow> None
           | Some (m, s2) \<Rightarrow>
               map_option (\<lambda>(d, r). ((y, m, d), r))
                 (Option.bind (read_char (CHR ''-'') s2) (read_digits 2 0))))"

text \<open>\<open>datetime.fromisoformat\<close> of a text ending in \<open>+00:00\<close>, for the extended calendar form
  \<open>YYYY-MM-DD?HH[:MM[:SS[.f+]]]+00:00\<close> with any separator character.\<close>

definition from_iso :: "string \<Rightarrow> datetime option" where
  "from_iso s =
     (case read_date s of
        None \<Rightarrow> None
      | Some ((y, m, d), []) \<Rightarrow> None
      | Some ((y, m, d), sep # r) \<Rightarrow>
          (case read_clock r of
             None \<Rightarrow> None
           | Some ((h, mi, sec, us), z) \<Rightarrow>
               (let t = \<lparr>dt_year = y, dt_month = m, dt_day = d, dt_hour = h, dt_minute = mi,
                         dt_second = sec, dt_micro = us\<rparr>
                in if z = ''+00:00'' \<and> valid_datetime t then Some t else None)))"

definition parse_time :: "string \<Rightarrow> datetime result" where
  "parse_time value =
     (if value = [] \<or> last value \<noteq> CHR ''Z''
      then Inl (ValueError ''timestamp must be UTC RFC 3339 with Z'')
      else case from_iso (butlast value @ ''+00:00'') of
          None \<Rightarrow> Inl (ValueError ''invalid isoformat string'')
        | Some t \<Rightarrow> Inr t)"

text \<open>Times of one zone compare field by field.\<close>

definition dt_key :: "datetime \<Rightarrow> nat list" where
  "dt_key t = [dt_year t, dt_month t, dt_day t, dt_hour t, dt_minute t, dt_second t, dt_micro t]"

definition dt_le :: "datetime \<Rightarrow> datetime \<Rightarrow> bool" where
  "dt_le a b = (dt_key a \<le> dt_key b)"

lemma is_digit_char: "d < 10 \<Longrightarrow> is_digit (digit_char d) \<and> of_char (digit_char d) = 48 + d"
proof -
  assume "d < 10"
  then have "d \<in> {0, 1, 2, 3, 4, 5, 6, 7, 8, 9}" by auto
  then show ?thesis by (auto simp: is_digit_def digit_char_def less_eq_char_def of_char_of take_bit_eq_mod)
qed

lemma read_digits_snoc:
  "read_digits k a s = Some (v, c # r) \<Longrightarrow> is_digit c \<Longrightarrow>
   read_digits (Suc k) a s = Some (10 * v + (of_char c - 48), r)"
  by (induction k a s rule: read_digits.induct) (auto split: if_splits)

lemma read_digits_pad: "n < 10 ^ k \<Longrightarrow> read_digits k 0 (pad k n @ r) = Some (n, r)"
proof (induction k arbitrary: n r)
  case (Suc k)
  have "n div 10 < 10 ^ k" using Suc.prems by (simp add: less_mult_imp_div_less mult.commute)
  from Suc.IH [OF this]
  have "read_digits k 0 (pad (Suc k) n @ r) = Some (n div 10, digit_char (n mod 10) # r)" by simp
  from read_digits_snoc [OF this] show ?case using is_digit_char [of "n mod 10"] by simp
qed simp

lemma takeWhile_pad: "takeWhile is_digit (pad k n @ r) = pad k n @ takeWhile is_digit r"
  by (induction k arbitrary: n r) (simp_all add: is_digit_char)

lemma length_pad [simp]: "length (pad k n) = k"
  by (induction k arbitrary: n) simp_all

lemma read_char_same [simp]: "read_char c (c # r) = Some r"
  by (simp add: read_char_def)

lemma from_iso_format:
  assumes "valid_datetime t"
  shows "from_iso (butlast (format_time t) @ ''+00:00'') = Some t"
proof -
  have b: "dt_year t < 10 ^ 4" "dt_month t < 10 ^ 2" "dt_day t < 10 ^ 2" "dt_hour t < 10 ^ 2"
    "dt_minute t < 10 ^ 2" "dt_second t < 10 ^ 2" "dt_micro t < 10 ^ 6"
    using assms by (auto simp: valid_datetime_def days_in_month_def split: if_splits)
  let ?us = "pad 6 (dt_micro t) @ ''+00:00''"
  let ?clock = "pad 2 (dt_hour t) @ CHR '':'' # pad 2 (dt_minute t) @ CHR '':'' # pad 2 (dt_second t) @ CHR ''.'' # ?us"
  have spelled: "butlast (format_time t) @ ''+00:00'' =
      pad 4 (dt_year t) @ CHR ''-'' # pad 2 (dt_month t) @ CHR ''-'' # pad 2 (dt_day t) @ CHR ''T'' # ?clock"
    by (simp add: format_time_def butlast_append)
  have tw: "takeWhile is_digit ?us = pad 6 (dt_micro t)"
    by (simp add: takeWhile_pad is_digit_def less_eq_char_def del: pad.simps)
  have fr: "read_fraction ?us = Some (dt_micro t, ''+00:00'')"
    using read_digits_pad [OF b(7)] unfolding read_fraction_def tw
    by (simp add: Let_def del: pad.simps) (metis length_pad length_0_conv zero_neq_numeral)
  have clock: "read_clock ?clock = Some ((dt_hour t, dt_minute t, dt_second t, dt_micro t), ''+00:00'')"
    using b fr by (simp add: read_clock_def read_digits_pad del: pad.simps)
  have date: "read_date (butlast (format_time t) @ ''+00:00'') =
      Some ((dt_year t, dt_month t, dt_day t), CHR ''T'' # ?clock)"
    using b unfolding spelled by (simp add: read_date_def read_digits_pad del: pad.simps)
  show ?thesis
    using assms unfolding from_iso_def date by (simp add: clock Let_def valid_datetime_def del: pad.simps)
qed

lemma parse_format_time:
  assumes "valid_datetime t"
  shows "parse_time (format_time t) = Inr t"
proof -
  have "format_time t \<noteq> [] \<and> last (format_time t) = CHR ''Z''" by (simp add: format_time_def)
  with from_iso_format [OF assms] show ?thesis by (simp add: parse_time_def)
qed

text \<open>
  C37. Every timestamp that Core writes reads back as the time it was written for.
\<close>

theorem parse_time_utc_now:
  assumes "valid_datetime t"
  shows "parse_time (format_time t) = Inr t"
  by (rule parse_format_time [OF assms])

lemma pad_numeral:
  "pad (numeral k) n = pad (pred_numeral k) (n div 10) @ [digit_char (n mod 10)]"
  by (simp only: numeral_eq_Suc [of k] pad.simps)

theorem parse_time_utc_now_witness:
  "parse_time ''2026-02-28T23:59:59.000120Z'' = Inr \<lparr>dt_year = 2026, dt_month = 2, dt_day = 28,
     dt_hour = 23, dt_minute = 59, dt_second = 59, dt_micro = 120\<rparr>"
proof -
  let ?t = "\<lparr>dt_year = 2026, dt_month = 2, dt_day = 28, dt_hour = 23, dt_minute = 59, dt_second = 59,
      dt_micro = 120\<rparr>"
  have "valid_datetime ?t" by (simp add: valid_datetime_def days_in_month_def leap_year_def)
  moreover have "format_time ?t = ''2026-02-28T23:59:59.000120Z''"
    by (simp add: format_time_def pad_numeral digit_char_def char_of_def bit_0)
  ultimately show ?thesis using parse_time_utc_now [of ?t] by (simp only:)
qed

section \<open>Identifiers\<close>

definition zero_sha256 :: string where
  "zero_sha256 = replicate 64 (CHR ''0'')"

definition id_prefixes :: "(string \<times> string) list" where
  "id_prefixes =
     [(''action'', ''act_''), (''archive'', ''arc_''), (''context'', ''ctx_''), (''event'', ''evt_''),
      (''memory'', ''mem_''), (''objective'', ''obj_''), (''review'', ''rev_''), (''run'', ''run_''),
      (''task'', ''tsk_'')]"

definition hex_char :: "nat \<Rightarrow> char" where
  "hex_char d = (if d < 10 then char_of (48 + d) else char_of (87 + d))"

fun hex_pad :: "nat \<Rightarrow> nat \<Rightarrow> string" where
  "hex_pad 0 n = []"
| "hex_pad (Suc k) n = hex_pad k (n div 16) @ [hex_char (n mod 16)]"

text \<open>The 128 bits: 48 of the clock in milliseconds, version 7, 12 random bits, variant 2, 62 random bits.\<close>

definition uuid7_int :: "nat \<Rightarrow> nat \<Rightarrow> nat \<Rightarrow> nat" where
  "uuid7_int ms random_a random_b =
     push_bit 80 (take_bit 48 ms) OR push_bit 76 7 OR push_bit 64 random_a OR push_bit 62 2 OR random_b"

text \<open>\<open>str(uuid.UUID(int=value))\<close>.\<close>

definition uuid_text :: "nat \<Rightarrow> string" where
  "uuid_text n =
     (let h = hex_pad 32 n
      in take 8 h @ ''-'' @ take 4 (drop 8 h) @ ''-'' @ take 4 (drop 12 h) @ ''-'' @
         take 4 (drop 16 h) @ ''-'' @ drop 20 h)"

definition uuid7 :: "nat \<times> nat \<times> nat \<Rightarrow> string" where
  "uuid7 r = (case r of (ms, a, b) \<Rightarrow> uuid_text (uuid7_int ms a b))"

definition new_id :: "string \<Rightarrow> nat \<times> nat \<times> nat \<Rightarrow> string result" where
  "new_id kind r = (case map_of id_prefixes kind of
      None \<Rightarrow> Inl (ValueError ''unknown canonical ID kind'')
    | Some prefix \<Rightarrow> Inr (prefix @ uuid7 r))"

lemma uuid7_version:
  assumes "a < 2 ^ 12" and "b < 2 ^ 62"
  shows "uuid7_int ms a b div 16 ^ 19 mod 16 = 7"
proof -
  have z: "drop_bit 76 (push_bit 64 a) = 0" "drop_bit 76 b = 0"
    using assms by (simp_all add: drop_bit_push_bit del: drop_bit_eq_div push_bit_eq_mult)
      (simp_all add: drop_bit_eq_div)
  have "drop_bit 76 (uuid7_int ms a b) = push_bit 4 (take_bit 48 ms) OR 7"
    using z by (simp add: uuid7_int_def drop_bit_push_bit)
  then have "take_bit 4 (drop_bit 76 (uuid7_int ms a b)) = 7"
    using take_bit_push_bit [of 4 4 "take_bit 48 ms"] by simp
  moreover have "(16::nat) ^ 19 = 2 ^ 76" by simp
  ultimately show ?thesis by (simp only: take_bit_eq_mod drop_bit_eq_div) simp
qed

lemma uuid7_variant:
  assumes "b < 2 ^ 62"
  shows "uuid7_int ms a b div 16 ^ 15 mod 16 \<in> {8, 9, 10, 11}"
proof -
  have c: "drop_bit 60 b \<in> {0, 1, 2, 3}"
    using assms by (auto simp: drop_bit_eq_div)
  have z: "take_bit 4 (push_bit 20 (take_bit 48 ms)) = 0" "take_bit 4 (push_bit 4 a) = 0"
    by (simp_all add: take_bit_push_bit)
  have "take_bit 4 (drop_bit 60 (uuid7_int ms a b)) = take_bit 4 (push_bit 2 2 OR drop_bit 60 b)"
    using z by (simp add: uuid7_int_def drop_bit_push_bit)
  with c have "take_bit 4 (drop_bit 60 (uuid7_int ms a b)) \<in> {8, 9, 10, 11}" by auto
  moreover have "(16::nat) ^ 15 = 2 ^ 60" by simp
  ultimately show ?thesis by (simp only: take_bit_eq_mod drop_bit_eq_div) simp
qed

definition hex_set :: "(char \<times> char) list" where
  "hex_set = [(CHR ''0'', CHR ''9''), (CHR ''a'', CHR ''f'')]"

lemma hex_char_in_set: "d < 16 \<Longrightarrow> in_set False False hex_set (hex_char d)"
proof -
  assume "d < 16"
  then have "d = 0 \<or> d = 1 \<or> d = 2 \<or> d = 3 \<or> d = 4 \<or> d = 5 \<or> d = 6 \<or> d = 7 \<or> d = 8 \<or>
      d = 9 \<or> d = 10 \<or> d = 11 \<or> d = 12 \<or> d = 13 \<or> d = 14 \<or> d = 15" by presburger
  then show ?thesis
    by (elim disjE) (simp_all add: in_set_def hex_set_def hex_char_def less_eq_char_def of_char_of take_bit_eq_mod)
qed

lemma length_hex_pad [simp]: "length (hex_pad k n) = k"
  by (induction k arbitrary: n) simp_all

lemma hex_pad_nth: "i < k \<Longrightarrow> hex_pad k n ! i = hex_char (n div 16 ^ (k - 1 - i) mod 16)"
proof (induction k arbitrary: n i)
  case (Suc k)
  show ?case
  proof (cases "i < k")
    case True
    then have "Suc (k - 1 - i) = k - i" by simp
    then have "n div 16 div 16 ^ (k - 1 - i) = n div 16 ^ (k - i)"
      by (metis div_mult2_eq power_Suc)
    with True Suc.IH [OF True] show ?thesis by (simp add: nth_append)
  next
    case False
    with Suc.prems have "i = k" by simp
    then show ?thesis by (simp add: nth_append)
  qed
qed simp

lemma hex_pad_chars: "c \<in> set (hex_pad k n) \<Longrightarrow> in_set False False hex_set c"
  by (induction k arbitrary: n) (auto simp: hex_char_in_set)

lemma ends_repeat_set:
  "\<forall>c \<in> set u. in_set ic neg rs c \<Longrightarrow> u \<noteq> [] \<Longrightarrow>
   ends ic (RRep (RSet neg rs) (length u) (Some (length u))) (b, u @ r) = [(False, r)]"
proof -
  have "rep_min (ends ic (RSet neg rs)) (length u) [(b, u @ r)] = [(b \<and> u = [], r)]"
    if "\<forall>c \<in> set u. in_set ic neg rs c" for u
    using that by (induction u arbitrary: b) (auto simp: step_all_def)
  moreover assume "\<forall>c \<in> set u. in_set ic neg rs c" "u \<noteq> []"
  ultimately show ?thesis by simp
qed

definition uuid_pattern :: "string \<Rightarrow> string" where
  "uuid_pattern prefix =
     ''^'' @ prefix @ ''[0-9a-f]{8}-[0-9a-f]{4}-7[0-9a-f]{3}-[89ab][0-9a-f]{3}-[0-9a-f]{12}$''"

lemma hex_char_values:
  "hex_char 7 = CHR ''7''" "hex_char 8 = CHR ''8''" "hex_char 9 = CHR ''9''" "hex_char 10 = CHR ''a''"
  "hex_char 11 = CHR ''b''"
  by (simp_all add: hex_char_def char_of_def bit_0)

lemma uuid7_shape:
  assumes "a < 2 ^ 12" and "b < 2 ^ 62"
  obtains u1 u2 u3 v u4 u5 where
    "uuid7 (ms, a, b) = u1 @ CHR ''-'' # u2 @ CHR ''-'' # CHR ''7'' # u3 @ CHR ''-'' # v # u4 @ CHR ''-'' # u5"
    "length u1 = 8" "length u2 = 4" "length u3 = 3" "length u4 = 3" "length u5 = 12"
    "\<forall>c \<in> set (u1 @ u2 @ u3 @ u4 @ u5). in_set False False hex_set c"
    "v \<in> {CHR ''8'', CHR ''9'', CHR ''a'', CHR ''b''}"
proof -
  let ?h = "hex_pad 32 (uuid7_int ms a b)"
  have seven: "?h ! 12 = CHR ''7''"
  proof -
    have "?h ! 12 = hex_char (uuid7_int ms a b div 16 ^ 19 mod 16)" by (subst hex_pad_nth) simp_all
    then show ?thesis by (simp only: uuid7_version [OF assms] hex_char_values)
  qed
  have var: "?h ! 16 \<in> {CHR ''8'', CHR ''9'', CHR ''a'', CHR ''b''}"
  proof -
    have "?h ! 16 = hex_char (uuid7_int ms a b div 16 ^ 15 mod 16)" by (subst hex_pad_nth) simp_all
    moreover have "hex_char ` {8, 9, 10, 11} = {CHR ''8'', CHR ''9'', CHR ''a'', CHR ''b''}"
      by (simp only: image_insert image_empty hex_char_values)
    ultimately show ?thesis using uuid7_variant [OF assms(2), of ms a] by blast
  qed
  have 1: "take 4 (drop 12 ?h) = ?h ! 12 # take 3 (drop 13 ?h)"
    by (subst Cons_nth_drop_Suc [of 12 ?h, symmetric]) simp_all
  have 2: "take 4 (drop 16 ?h) = ?h ! 16 # take 3 (drop 17 ?h)"
    by (subst Cons_nth_drop_Suc [of 16 ?h, symmetric]) simp_all
  have hex: "in_set False False hex_set c" if "c \<in> set (take i (drop j ?h))" for c i j
    using that hex_pad_chars by (meson in_set_dropD in_set_takeD)
  show ?thesis
    by (rule that [of "take 8 ?h" "take 4 (drop 8 ?h)" "take 3 (drop 13 ?h)" "?h ! 16" "take 3 (drop 17 ?h)" "drop 20 ?h"])
      (use 1 2 seven var hex hex [of _ 8 0] hex [of _ 12 20] in \<open>auto simp: uuid7_def uuid_text_def Let_def\<close>)
qed

definition uuid_regex :: "char \<Rightarrow> char \<Rightarrow> char \<Rightarrow> char \<Rightarrow> regex" where
  "uuid_regex c1 c2 c3 c4 = RSeq RBegin (RSeq (RSet False [(c1, c1)])
      (RSeq (RSet False [(c2, c2)]) (RSeq (RSet False [(c3, c3)]) (RSeq (RSet False [(c4, c4)])
      (RSeq (RRep (RSet False hex_set) 8 (Some 8)) (RSeq (RSet False [(CHR ''-'', CHR ''-'')])
      (RSeq (RRep (RSet False hex_set) 4 (Some 4)) (RSeq (RSet False [(CHR ''-'', CHR ''-'')])
      (RSeq (RSet False [(CHR ''7'', CHR ''7'')]) (RSeq (RRep (RSet False hex_set) 3 (Some 3))
      (RSeq (RSet False [(CHR ''-'', CHR ''-'')])
      (RSeq (RSet False [(CHR ''8'', CHR ''8''), (CHR ''9'', CHR ''9''), (CHR ''a'', CHR ''a''), (CHR ''b'', CHR ''b'')])
      (RSeq (RRep (RSet False hex_set) 3 (Some 3)) (RSeq (RSet False [(CHR ''-'', CHR ''-'')])
      (RSeq (RRep (RSet False hex_set) 12 (Some 12)) (RSeq REnd REps))))))))))))))))"

lemma compile_uuid_pattern:
  "list_all (\<lambda>p. compile (uuid_pattern p) = Some (False, uuid_regex (p ! 0) (p ! 1) (p ! 2) (p ! 3)) \<and>
     p = [p ! 0, p ! 1, p ! 2, p ! 3]) (map snd id_prefixes)"
  by code_simp

lemma re_search_uuid:
  assumes "a < 2 ^ 12" and "b < 2 ^ 62"
    and "compile (uuid_pattern p) = Some (False, uuid_regex c1 c2 c3 c4)"
  shows "re_search (uuid_pattern p) ([c1, c2, c3, c4] @ uuid7 (ms, a, b)) = Inr True"
proof -
  from uuid7_shape [OF assms(1, 2), of ms] obtain u1 u2 u3 v u4 u5 where
    u: "uuid7 (ms, a, b) = u1 @ CHR ''-'' # u2 @ CHR ''-'' # CHR ''7'' # u3 @ CHR ''-'' # v # u4 @ CHR ''-'' # u5"
    and l: "length u1 = 8" "length u2 = 4" "length u3 = 3" "length u4 = 3" "length u5 = 12"
    and h: "\<forall>c \<in> set (u1 @ u2 @ u3 @ u4 @ u5). in_set False False hex_set c"
    and v: "v \<in> {CHR ''8'', CHR ''9'', CHR ''a'', CHR ''b''}" .
  have seq: "ends False x q = [q'] \<Longrightarrow> ends False y q' \<noteq> [] \<Longrightarrow> ends False (RSeq x y) q \<noteq> []" for x y q q'
    by (simp add: step_all_def)
  have lit: "ends False (RSet False [(c, c)]) (x, c # s) = [(False, s)]" for c x s
    by (simp add: in_set_def)
  have var: "ends False (RSet False [(CHR ''8'', CHR ''8''), (CHR ''9'', CHR ''9''), (CHR ''a'', CHR ''a''), (CHR ''b'', CHR ''b'')])
      (x, v # s) = [(False, s)]" for x s
    using v by (auto simp: in_set_def)
  have rep: "ends False (RRep (RSet False hex_set) n (Some n)) (x, w @ s) = [(False, s)]"
    if "length w = n" "0 < n" "\<forall>c \<in> set w. in_set False False hex_set c" for n w x s
    using ends_repeat_set [of w False False hex_set x s] that by (auto simp del: ends.simps)
  have start: "ends False RBegin (True, s) = [(True, s)]" for s by simp
  have fin: "ends False (RSeq REnd REps) (x, []) \<noteq> []" for x by (simp add: step_all_def)
  have "ends False r (True, [c1, c2, c3, c4] @ uuid7 (ms, a, b)) \<noteq> []"
    if "compile (uuid_pattern p) = Some (False, r)" for r
  proof -
    have r: "uuid7 (ms, a, b) = u1 @ CHR ''-'' # u2 @ CHR ''-'' # CHR ''7'' # u3 @ CHR ''-'' # v # u4 @ CHR ''-'' # u5 @ []"
      using u by simp
    show ?thesis
      using that h l unfolding assms(3) uuid_regex_def r append_Cons append_Nil option.inject prod.inject
      by (elim conjE, hypsubst) (intro seq [OF start] seq [OF lit] seq [OF var] seq [OF rep] fin; simp)
  qed
  then show ?thesis
    using assms(3) by (auto simp: re_search_def simp del: ends.simps)
qed

text \<open>
  C38. Every identifier that Core mints, of whatever kind and whatever the clock and the random bits,
  satisfies the pattern that the schemas demand of identifiers of that kind.
\<close>

theorem new_id_matches_contract:
  assumes "(kind, p) \<in> set id_prefixes" and "a < 2 ^ 12" and "b < 2 ^ 62"
  shows "\<exists>i. new_id kind (ms, a, b) = Inr i \<and> re_search (uuid_pattern p) i = Inr True"
proof -
  have "p \<in> set (map snd id_prefixes)" using assms(1) by force
  then have c: "compile (uuid_pattern p) = Some (False, uuid_regex (p ! 0) (p ! 1) (p ! 2) (p ! 3))"
    and p: "p = [p ! 0, p ! 1, p ! 2, p ! 3]"
    using compile_uuid_pattern by (auto simp: list_all_iff)
  have "distinct (map fst id_prefixes)" by (simp add: id_prefixes_def)
  then have "new_id kind (ms, a, b) = Inr (p @ uuid7 (ms, a, b))"
    using assms(1) by (simp add: new_id_def)
  moreover have "re_search (uuid_pattern p) (p @ uuid7 (ms, a, b)) = Inr True"
    using re_search_uuid [OF assms(2, 3) c] p by metis
  ultimately show ?thesis by blast
qed

theorem new_id_matches_contract_witness:
  "\<exists>i. new_id ''task'' (5, 7, 11) = Inr i \<and> re_search (uuid_pattern ''tsk_'') i = Inr True"
  by (rule new_id_matches_contract) (simp_all add: id_prefixes_def)

section \<open>The environment of a call\<close>

text \<open>
  \<open>ticks\<close> number the interactions of one call with its environment in the order they happen:
  \<open>clock n\<close> is what \<open>datetime.now\<close> returns at interaction \<open>n\<close>, \<open>entropy n\<close> the
  clock and random bits behind a new UUID, \<open>fence_token n\<close> a \<open>secrets.token_urlsafe\<close>, and
  \<open>fault_hook n\<close> tells whether the fault hook raises there at a named boundary. \<open>sha256\<close>
  is the digest of a canonical text, given by the value the text denotes. \<open>documents\<close> are the schema
  files, \<open>stack_depth\<close> the recursion limit left to the validator, \<open>writer_id\<close> the writer
  this process was configured with, and \<open>pragmas\<close> the connection's foreign_keys, journal_mode,
  synchronous and user_version.
\<close>

record env =
  clock :: "nat \<Rightarrow> datetime"
  entropy :: "nat \<Rightarrow> nat \<times> nat \<times> nat"
  fence_token :: "nat \<Rightarrow> string"
  fault_hook :: "nat \<Rightarrow> string \<Rightarrow> bool"
  sha256 :: "json \<Rightarrow> string"
  documents :: documents
  stack_depth :: nat
  writer_id :: string
  pragmas :: "int \<times> string \<times> int \<times> int"

definition sha256_json :: "env \<Rightarrow> json \<Rightarrow> string result" where
  "sha256_json E v = bindE (canonical v) (\<lambda>t. Inr (sha256 E t))"

definition digest_profile :: "env \<Rightarrow> string dict \<Rightarrow> string list \<Rightarrow> string result" where
  "digest_profile E value excluded = sha256_json E (JObj (dict_without excluded value))"

lemma sha256_json_Inr [tx_simps]: "sha256_json E v = Inr h \<longleftrightarrow> (\<exists>w. canonical v = Inr w) \<and> h = sha256 E (norm v)"
  by (auto simp: sha256_json_def bindE_Inr_iff dest: canonical_Inr)

lemma sha256_json_cong: "sha256 E = sha256 F \<Longrightarrow> sha256_json E v = sha256_json F v"
  by (simp add: sha256_json_def)

text \<open>A value without floats whose integers are interoperable has a canonical text.\<close>

fun plain :: "json \<Rightarrow> bool" where
  "plain (JInt i) = (\<bar>i\<bar> \<le> 9007199254740991)"
| "plain (JFloat f) = False"
| "plain (JList xs) = list_all plain xs"
| "plain (JObj d) = list_all (\<lambda>p. plain (snd p)) d"
| "plain _ = True"

lemma not_surrogate_ucs: "\<not> list_ex is_surrogate (ucs s)"
proof (induction s)
  case (Cons c s)
  have "of_char c < (256::nat)" by simp
  then have "\<not> 55296 \<le> (of_char c :: nat)" by linarith
  with Cons show ?case by (simp add: is_surrogate_def)
qed simp

lemma utf16_encodable_ucs: "utf16_encodable (ucs s)"
  using not_surrogate_ucs [of s] by (simp add: utf16_encodable_def list_all_iff list_ex_iff)

lemma mapE_total: "(\<And>x. x \<in> set xs \<Longrightarrow> \<exists>y. f x = Inr y) \<Longrightarrow> \<exists>ys. mapE f xs = Inr ys"
  by (induction xs) (fastforce simp: bindE_Inr_iff)+

lemma plain_encodes: "plain v \<Longrightarrow> assert_canonical (to_u v) = Inr () \<and> (\<exists>t. encode (to_u v) = Inr t)"
proof (induction v)
  case (JList xs)
  then have *: "assert_canonical (to_u x) = Inr ()" "\<exists>t. encode (to_u x) = Inr t" if "x \<in> set xs" for x
    using that by (auto simp: list_all_iff)
  have "\<exists>ts. mapE encode (map to_u xs) = Inr ts" by (rule mapE_total) (use * in auto)
  then show ?case using * by (auto simp: to_u_def forE_Inr_iff)
next
  case (JObj d)
  have *: "assert_canonical (to_u (snd p)) = Inr ()" "\<exists>t. encode (to_u (snd p)) = Inr t" if "p \<in> set d" for p
  proof -
    have "plain (snd p)" using that JObj.prems by (auto simp: list_all_iff)
    moreover have "snd p \<in> Basic_BNFs.snds p" by (cases p) simp
    ultimately have "assert_canonical (to_u (snd p)) = Inr () \<and> (\<exists>t. encode (to_u (snd p)) = Inr t)"
      by (rule JObj.IH [OF that, rotated])
    then show "assert_canonical (to_u (snd p)) = Inr ()" "\<exists>t. encode (to_u (snd p)) = Inr t" by blast+
  qed
  let ?d = "map (\<lambda>p. (ucs (fst p), to_u (snd p))) d"
  have o: "to_u (JObj d) = JObj ?d" by (simp add: to_u_def map_prod_def case_prod_unfold)
  have "\<exists>ts. mapE (\<lambda>p. bindE (encode (snd p)) (\<lambda>t. Inr (dumps_str (fst p) @ [58] @ t))) (sorted_items ?d) = Inr ts"
    by (rule mapE_total) (use * in \<open>auto simp: bindE_Inr_iff\<close>)
  then show ?case using * unfolding o by (auto simp: forE_Inr_iff list_all_iff utf16_encodable_ucs)
qed (simp_all add: to_u_def not_surrogate_ucs)

lemma canonical_plain: "plain v \<Longrightarrow> canonical v = Inr (norm v)"
  using plain_encodes [of v] by (auto simp: canonical_def canonical_json_def)

lemma sha256_json_plain: "plain v \<Longrightarrow> sha256_json E v = Inr (sha256 E (norm v))"
  by (simp add: sha256_json_def canonical_plain)

text \<open>A small environment in which commands can be evaluated: its clock advances by a second per
  interaction, no fault is injected, and its schema documents accept everything.\<close>

definition sample_env :: env where
  "sample_env = \<lparr>
     clock = (\<lambda>n. \<lparr>dt_year = 2026, dt_month = 1, dt_day = 1, dt_hour = 0, dt_minute = 0, dt_second = n mod 60,
       dt_micro = 0\<rparr>),
     entropy = (\<lambda>n. (n, 0, 0)),
     fence_token = (\<lambda>n. ''fence''),
     fault_hook = (\<lambda>n b. False),
     sha256 = (\<lambda>v. zero_sha256),
     documents = map (\<lambda>n. (n, JObj [])) [''event.schema.json'', ''objective.schema.json'',
       ''task-record.schema.json'', ''task-envelope.schema.json'', ''result.schema.json'', ''action.schema.json'',
       ''memory.schema.json'', ''context-pack.schema.json'', ''agent.schema.json'', ''producer-observation.schema.json''],
     stack_depth = 9,
     writer_id = ''w'',
     pragmas = (1, ''wal'', 2, 4)\<rparr>"

lemma sample_validate:
  assumes "name \<in> set (map fst (documents sample_env))"
  shows "validate_named (stack_depth sample_env) (documents sample_env) v name = Inr ()"
proof -
  have "stack_depth sample_env = Suc 8" by (simp add: sample_env_def)
  moreover have "map_of (documents sample_env) name = Some (JObj [])"
    using assms by (auto simp: sample_env_def)
  ultimately show ?thesis by (simp only: validate_named_def option.case validate_empty_schema)
qed

lemma sample_env_simps [simp]:
  "fault_hook sample_env n b = False"
  "sha256 sample_env v = zero_sha256"
  "writer_id sample_env = ''w''"
  "entropy sample_env n = (n, 0, 0)"
  "fence_token sample_env n = ''fence''"
  "map fst (documents sample_env) = [''event.schema.json'', ''objective.schema.json'',
       ''task-record.schema.json'', ''task-envelope.schema.json'', ''result.schema.json'', ''action.schema.json'',
       ''memory.schema.json'', ''context-pack.schema.json'', ''agent.schema.json'', ''producer-observation.schema.json'']"
  by (simp_all add: sample_env_def)

end
