(* ===== verification/Store.thy ===== *)
theory Store
  imports Ident
begin

text \<open>
  \<open>src/city2core/store.py\<close> and the tables of \<open>migrations/0001\<close>: the database as a record of
  tables, the write transaction (\<open>expect_version\<close>, \<open>append_event\<close>), the idempotent
  \<open>command\<close> wrapper with its fault boundaries, and the integrity check of the event log.

  A table is the list of its rows in the order of insertion; \<open>INSERT\<close> and \<open>UPDATE\<close> raise
  \<open>SqlError\<close> where a declared \<open>CHECK\<close>, \<open>UNIQUE\<close>, \<open>PRIMARY KEY\<close> or \<open>FOREIGN KEY\<close>
  would. A JSON text column holds the value that the text denotes. The four columns that every
  projection row copies from its latest event form one \<open>event_marker\<close>, as in the code.
\<close>

section \<open>Rows\<close>

record event_marker =
  mk_event_id :: string
  mk_event_sha256 :: string
  mk_database_sequence :: int
  mk_aggregate_version :: int

record event_row =
  ev_database_sequence :: int
  ev_event_id :: string
  ev_aggregate_type :: string
  ev_aggregate_id :: string
  ev_event_type :: string
  ev_aggregate_version :: int
  ev_aggregate_sequence :: int
  ev_writer_id :: string
  ev_writer_sequence :: int
  ev_actor :: string
  ev_occurred_at :: string
  ev_recorded_at :: string
  ev_idempotency_key :: string
  ev_prior_event_sha256 :: string
  ev_payload_sha256 :: string
  ev_payload :: json
  ev_event_sha256 :: string
  ev_sensitivity :: string

record dedup_row =
  dd_key :: string
  dd_command_sha256 :: string
  dd_result :: json
  dd_committed_at :: string

datatype objective_status = Proposed | Active | Paused | Completed | Cancelled | Superseded

datatype task_state =
    TProposed | TAwaitingApproval | TReady | TLeased | TRunning | TReview | TChangesRequested
  | TAccepted | TRejected | TCancellationRequested | TCancelled | TExpired | TNeedsReconciliation
  | TFailedTerminal

datatype run_status =
    RLeased | RRunning | RReview | RCompleted | RFailed | RExpired | RCancelled
  | RCompletedAfterCancel

datatype action_state = APrepared | ADispatched | AConfirmed | AUnknown | AFailed | ACompensated

record objective_revision_row =
  or_objective_id :: string
  or_revision :: int
  or_sha256 :: string
  or_record :: json
  or_created_at :: string

record objective_row =
  o_objective_id :: string
  o_marker :: event_marker
  o_revision :: int
  o_sha256 :: string
  o_status :: objective_status
  o_record :: json
  o_updated_at :: string

record task_revision_row =
  tr_task_id :: string
  tr_revision :: int
  tr_sha256 :: string
  tr_record :: json
  tr_created_at :: string

record task_row =
  t_task_id :: string
  t_marker :: event_marker
  t_revision :: int
  t_sha256 :: string
  t_objective_id :: string
  t_objective_revision :: int
  t_objective_sha256 :: string
  t_state :: task_state
  t_attempt_count :: int
  t_max_attempts :: int
  t_current_run_id :: "string option"
  t_lease_owner :: "string option"
  t_lease_fencing_token :: "string option"
  t_lease_expires_at :: "string option"
  t_created_at :: string
  t_updated_at :: string

record run_row =
  r_run_id :: string
  r_task_id :: string
  r_task_revision :: int
  r_attempt_number :: int
  r_status :: run_status
  r_envelope :: json
  r_envelope_sha256 :: string
  r_result :: "json option"
  r_result_sha256 :: "string option"
  r_created_at :: string
  r_updated_at :: string

record action_row =
  a_action_id :: string
  a_marker :: event_marker
  a_task_id :: string
  a_task_revision :: int
  a_run_id :: string
  a_operation_key :: string
  a_state :: action_state
  a_record :: json
  a_provider_operation_id :: "string option"
  a_provider_evidence_sha256 :: "string option"
  a_created_at :: string
  a_updated_at :: string

text \<open>The tables of \<open>migrations/0002\<close> to \<open>0004\<close>: memory and context, adapters, reviews. \<open>quarantined\<close>
  columns, which no operation writes, are left out.\<close>

datatype memory_state = MCandidate | MAccepted | MRejected | MStale | MSuperseded | MQuarantined

record memory_row =
  m_memory_id :: string
  m_marker :: event_marker
  m_scope :: string
  m_type :: string
  m_review_state :: memory_state
  m_candidate_sha256 :: string
  m_record_sha256 :: string
  m_statement :: string
  m_labels_text :: string
  m_source_text :: string
  m_record :: json
  m_created_by :: string
  m_reviewed_by :: "string option"
  m_accepted_at :: "string option"
  m_stale_reason :: "string option"
  m_revalidate_at :: string
  m_valid_from :: string
  m_valid_until :: "string option"
  m_sensitivity :: string
  m_created_at :: string
  m_updated_at :: string

record memory_review_row =
  mr_review_id :: string
  mr_memory_id :: string
  mr_decision :: string
  mr_reviewer :: string
  mr_reviewed_at :: string
  mr_source_check_sha256 :: string
  mr_independence :: json

record memory_conflict_row =
  cf_conflict_id :: string
  cf_scope :: string
  cf_fact_class :: string
  cf_memory_ids :: json
  cf_state :: string
  cf_created_at :: string

record fts_row =
  f_memory_id :: string
  f_statement :: string
  f_labels :: string
  f_source_metadata :: string

record context_row =
  cp_context_id :: string
  cp_task_id :: string
  cp_run_id :: string
  cp_manifest_sha256 :: string
  cp_manifest :: json
  cp_content_sha256 :: string
  cp_content :: json
  cp_event_high_water :: int
  cp_created_at :: string

record message_row =
  im_interface :: string
  im_message_id :: string
  im_author_id :: string
  im_channel_id :: string
  im_thread_id :: "string option"
  im_message_sha256 :: string
  im_task_id :: string
  im_ingested_at :: string

record dispatch_row =
  rd_dispatch_id :: string
  rd_run_id :: string
  rd_runner_id :: string
  rd_capability_manifest_sha256 :: string
  rd_task_envelope_sha256 :: string
  rd_context_manifest_sha256 :: string
  rd_state :: string
  rd_created_at :: string
  rd_updated_at :: string

record manifest_row =
  am_agent_id :: string
  am_manifest_version :: int
  am_manifest_sha256 :: string
  am_manifest :: json
  am_registered_at :: string

record task_review_row =
  rv_review_id :: string
  rv_task_id :: string
  rv_run_id :: string
  rv_maker_agent_id :: string
  rv_reviewer_agent_id :: string
  rv_decision :: string
  rv_checks_sha256 :: string
  rv_findings :: json
  rv_independence :: json
  rv_reviewed_at :: string

text \<open>\<open>writer_sequences\<close> is \<open>writer_state\<close>; \<open>global_sequence\<close> is that row of
  \<open>core_meta\<close>, \<open>meta\<close> its other rows; \<open>migrations\<close> is \<open>schema_migrations\<close>.\<close>

record db =
  meta :: "(string \<times> string) list"
  migrations :: "(int \<times> string) list"
  global_sequence :: int
  writer_sequences :: "(string \<times> int) list"
  command_dedup :: "dedup_row list"
  events :: "event_row list"
  objective_revisions :: "objective_revision_row list"
  objectives :: "objective_row list"
  task_revisions :: "task_revision_row list"
  tasks :: "task_row list"
  runs :: "run_row list"
  actions :: "action_row list"
  memory_records :: "memory_row list"
  memory_reviews :: "memory_review_row list"
  memory_conflicts :: "memory_conflict_row list"
  memory_fts :: "fts_row list"
  context_packs :: "context_row list"
  interface_messages :: "message_row list"
  runner_dispatches :: "dispatch_row list"
  agent_manifests :: "manifest_row list"
  task_reviews :: "task_review_row list"

section \<open>State columns\<close>

text \<open>The texts of the state columns; their \<open>CHECK\<close> constraints list exactly these.\<close>

fun objective_status_text :: "objective_status \<Rightarrow> string" where
  "objective_status_text Proposed = ''proposed''"
| "objective_status_text Active = ''active''"
| "objective_status_text Paused = ''paused''"
| "objective_status_text Completed = ''completed''"
| "objective_status_text Cancelled = ''cancelled''"
| "objective_status_text Superseded = ''superseded''"

fun task_state_text :: "task_state \<Rightarrow> string" where
  "task_state_text TProposed = ''proposed''"
| "task_state_text TAwaitingApproval = ''awaiting_approval''"
| "task_state_text TReady = ''ready''"
| "task_state_text TLeased = ''leased''"
| "task_state_text TRunning = ''running''"
| "task_state_text TReview = ''review''"
| "task_state_text TChangesRequested = ''changes_requested''"
| "task_state_text TAccepted = ''accepted''"
| "task_state_text TRejected = ''rejected''"
| "task_state_text TCancellationRequested = ''cancellation_requested''"
| "task_state_text TCancelled = ''cancelled''"
| "task_state_text TExpired = ''expired''"
| "task_state_text TNeedsReconciliation = ''needs_reconciliation''"
| "task_state_text TFailedTerminal = ''failed_terminal''"

fun run_status_text :: "run_status \<Rightarrow> string" where
  "run_status_text RLeased = ''leased''"
| "run_status_text RRunning = ''running''"
| "run_status_text RReview = ''review''"
| "run_status_text RCompleted = ''completed''"
| "run_status_text RFailed = ''failed''"
| "run_status_text RExpired = ''expired''"
| "run_status_text RCancelled = ''cancelled''"
| "run_status_text RCompletedAfterCancel = ''completed_after_cancel''"

fun action_state_text :: "action_state \<Rightarrow> string" where
  "action_state_text APrepared = ''prepared''"
| "action_state_text ADispatched = ''dispatched''"
| "action_state_text AConfirmed = ''confirmed''"
| "action_state_text AUnknown = ''unknown''"
| "action_state_text AFailed = ''failed''"
| "action_state_text ACompensated = ''compensated''"

fun memory_state_text :: "memory_state \<Rightarrow> string" where
  "memory_state_text MCandidate = ''candidate''"
| "memory_state_text MAccepted = ''accepted''"
| "memory_state_text MRejected = ''rejected''"
| "memory_state_text MStale = ''stale''"
| "memory_state_text MSuperseded = ''superseded''"
| "memory_state_text MQuarantined = ''quarantined''"

lemma memory_state_text_inj [simp]: "memory_state_text a = memory_state_text b \<longleftrightarrow> a = b"
  by (cases a; cases b; simp)

lemma state_text_inj [simp]:
  "objective_status_text a = objective_status_text b \<longleftrightarrow> a = b"
  "task_state_text c = task_state_text d \<longleftrightarrow> c = d"
  "action_state_text e = action_state_text f \<longleftrightarrow> e = f"
  by ((cases a; cases b; simp), (cases c; cases d; simp), (cases e; cases f; simp))

section \<open>The write transaction\<close>

record txs =
  tx_db :: db
  tick :: nat

definition utc_now :: "env \<Rightarrow> (txs, string) tx" where
  "utc_now E s = Inr (format_time (clock E (tick s)), s\<lparr>tick := Suc (tick s)\<rparr>)"

definition mint :: "env \<Rightarrow> string \<Rightarrow> (txs, string) tx" where
  "mint E kind s = bindE (new_id kind (entropy E (tick s))) (\<lambda>i. Inr (i, s\<lparr>tick := Suc (tick s)\<rparr>))"

definition token_urlsafe :: "env \<Rightarrow> (txs, string) tx" where
  "token_urlsafe E s = Inr (fence_token E (tick s), s\<lparr>tick := Suc (tick s)\<rparr>)"

definition fault :: "env \<Rightarrow> string \<Rightarrow> (txs, unit) tx" where
  "fault E boundary s =
     (if fault_hook E (tick s) boundary then Inl (Injected boundary)
      else Inr ((), s\<lparr>tick := Suc (tick s)\<rparr>))"

definition select :: "(db \<Rightarrow> 'a) \<Rightarrow> (txs, 'a) tx" where
  "select f = tget (\<lambda>s. f (tx_db s))"

definition execute :: "(db \<Rightarrow> db result) \<Rightarrow> (txs, unit) tx" where
  "execute f s = bindE (f (tx_db s)) (\<lambda>d. Inr ((), s\<lparr>tx_db := d\<rparr>))"

definition sql :: "bool \<Rightarrow> string \<Rightarrow> db \<Rightarrow> db result" where
  "sql ok msg d = (if ok then Inr d else Inl (SqlError msg))"

lemma step_Inr_iff [tx_simps]:
  "utc_now E s = Inr (x, s') \<longleftrightarrow> x = format_time (clock E (tick s)) \<and> s' = s\<lparr>tick := Suc (tick s)\<rparr>"
  "mint E k s = Inr (i, s') \<longleftrightarrow> new_id k (entropy E (tick s)) = Inr i \<and> s' = s\<lparr>tick := Suc (tick s)\<rparr>"
  "token_urlsafe E s = Inr (x, s') \<longleftrightarrow> x = fence_token E (tick s) \<and> s' = s\<lparr>tick := Suc (tick s)\<rparr>"
  "fault E b s = Inr (u, s') \<longleftrightarrow> \<not> fault_hook E (tick s) b \<and> s' = s\<lparr>tick := Suc (tick s)\<rparr>"
  "select f s = Inr (y, s') \<longleftrightarrow> y = f (tx_db s) \<and> s' = s"
  "execute g s = Inr (u, s') \<longleftrightarrow> (\<exists>d. g (tx_db s) = Inr d \<and> s' = s\<lparr>tx_db := d\<rparr>)"
  "sql ok m d = Inr d' \<longleftrightarrow> ok \<and> d' = d"
  by (auto simp: utc_now_def mint_def token_urlsafe_def fault_def select_def execute_def sql_def
      bindE_Inr_iff tget_def)

lemma step_eval [simp]:
  "utc_now E s = Inr (format_time (clock E (tick s)), s\<lparr>tick := Suc (tick s)\<rparr>)"
  "token_urlsafe E s = Inr (fence_token E (tick s), s\<lparr>tick := Suc (tick s)\<rparr>)"
  "select f s = Inr (f (tx_db s), s)"
  by (simp_all add: utc_now_def token_urlsafe_def select_def)

text \<open>\<open>SELECT aggregate_version FROM <table> WHERE <id> = ?\<close>, 0 when there is no row.\<close>

definition aggregate_versions :: "string \<Rightarrow> db \<Rightarrow> (string \<times> int) list result" where
  "aggregate_versions table d =
     (if table = ''objectives'' then Inr (map (\<lambda>r. (o_objective_id r, mk_aggregate_version (o_marker r))) (objectives d))
      else if table = ''tasks'' then Inr (map (\<lambda>r. (t_task_id r, mk_aggregate_version (t_marker r))) (tasks d))
      else if table = ''actions'' then Inr (map (\<lambda>r. (a_action_id r, mk_aggregate_version (a_marker r))) (actions d))
      else if table = ''memory_records'' then Inr (map (\<lambda>r. (m_memory_id r, mk_aggregate_version (m_marker r))) (memory_records d))
      else Inl (ValueError ''unsupported projection table''))"

definition current_version :: "string \<Rightarrow> string \<Rightarrow> (txs, int) tx" where
  "current_version table aggregate_id =
     tbind (select (aggregate_versions table)) (\<lambda>r.
     tbind (tlift r) (\<lambda>vs.
     tret (case map_of vs aggregate_id of None \<Rightarrow> 0 | Some v \<Rightarrow> v)))"

definition expect_version :: "string \<Rightarrow> string \<Rightarrow> int \<Rightarrow> (txs, int) tx" where
  "expect_version table aggregate_id expected_version =
     tbind (current_version table aggregate_id) (\<lambda>actual.
     tbind (tguard (actual = expected_version) (ConflictError ''expected aggregate version'')) (\<lambda>_.
     tret actual))"

text \<open>The event that a row stores, as the code rebuilds it in \<open>_event_from_row\<close>.\<close>

definition event_from_row :: "event_row \<Rightarrow> json" where
  "event_from_row r = JObj
     [(''schema_version'', JStr ''city2.event/v1''),
      (''event_id'', JStr (ev_event_id r)),
      (''aggregate_type'', JStr (ev_aggregate_type r)),
      (''aggregate_id'', JStr (ev_aggregate_id r)),
      (''event_type'', JStr (ev_event_type r)),
      (''aggregate_version'', JInt (ev_aggregate_version r)),
      (''aggregate_sequence'', JInt (ev_aggregate_sequence r)),
      (''writer_id'', JStr (ev_writer_id r)),
      (''writer_sequence'', JInt (ev_writer_sequence r)),
      (''database_sequence'', JInt (ev_database_sequence r)),
      (''actor'', JStr (ev_actor r)),
      (''occurred_at'', JStr (ev_occurred_at r)),
      (''recorded_at'', JStr (ev_recorded_at r)),
      (''idempotency_key'', JStr (ev_idempotency_key r)),
      (''prior_event_sha256'', JStr (ev_prior_event_sha256 r)),
      (''payload_sha256'', JStr (ev_payload_sha256 r)),
      (''payload'', ev_payload r),
      (''sensitivity'', JStr (ev_sensitivity r))]"

definition insert_event :: "event_row \<Rightarrow> db \<Rightarrow> db result" where
  "insert_event r d =
     bindE (sql (1 \<le> ev_database_sequence r \<and> 1 \<le> ev_aggregate_version r \<and>
         1 \<le> ev_aggregate_sequence r \<and> 1 \<le> ev_writer_sequence r \<and>
         length (ev_prior_event_sha256 r) = 64 \<and> length (ev_payload_sha256 r) = 64 \<and>
         length (ev_event_sha256 r) = 64 \<and>
         ev_sensitivity r \<in> {''public'', ''internal'', ''confidential'', ''restricted''}) ''CHECK'' d) (\<lambda>d.
     bindE (sql (\<forall>q \<in> set (events d). ev_database_sequence q \<noteq> ev_database_sequence r \<and>
         ev_event_id q \<noteq> ev_event_id r \<and>
         \<not> (ev_aggregate_id q = ev_aggregate_id r \<and> ev_aggregate_version q = ev_aggregate_version r) \<and>
         \<not> (ev_aggregate_id q = ev_aggregate_id r \<and> ev_aggregate_sequence q = ev_aggregate_sequence r) \<and>
         \<not> (ev_writer_id q = ev_writer_id r \<and> ev_writer_sequence q = ev_writer_sequence r)) ''UNIQUE'' d) (\<lambda>d.
     Inr (d\<lparr>events := events d @ [r]\<rparr>)))"

text \<open>\<open>SELECT ... FROM events WHERE aggregate_id = ? ORDER BY aggregate_sequence DESC LIMIT 1\<close>.\<close>

definition latest_event :: "db \<Rightarrow> string \<Rightarrow> event_row option" where
  "latest_event d i = max_row ev_aggregate_sequence (filter (\<lambda>r. ev_aggregate_id r = i) (events d))"

definition set_writer_sequence :: "string \<Rightarrow> int \<Rightarrow> db \<Rightarrow> db" where
  "set_writer_sequence w n d =
     d\<lparr>writer_sequences := map (\<lambda>(k, v). (k, if k = w then n else v)) (writer_sequences d)\<rparr>"

text \<open>The keyword arguments of \<open>append_event\<close>.\<close>

record event_args =
  aggregate_type :: string
  aggregate_id :: string
  event_type :: string
  aggregate_version :: int
  actor :: string
  payload :: json
  sensitivity :: string
  occurred_at :: "string option"

definition store_error :: "unit result \<Rightarrow> unit result" where
  "store_error r = (case r of
      Inr u \<Rightarrow> Inr u
    | Inl e \<Rightarrow> (case e of ValidationError m \<Rightarrow> Inl (StoreError ''invalid event envelope'') | _ \<Rightarrow> Inl e))"

definition marker_of :: "event_row \<Rightarrow> event_marker" where
  "marker_of r = \<lparr>mk_event_id = ev_event_id r, mk_event_sha256 = ev_event_sha256 r,
     mk_database_sequence = ev_database_sequence r, mk_aggregate_version = ev_aggregate_version r\<rparr>"

text \<open>The envelope and the \<open>INSERT\<close> of \<open>append_event\<close> for already determined sequence numbers.\<close>

definition build_event ::
  "env \<Rightarrow> string \<Rightarrow> event_args \<Rightarrow> event_row option \<Rightarrow> int \<Rightarrow> int \<Rightarrow> string \<Rightarrow> string \<Rightarrow> event_row result" where
  "build_event E key a previous writer_sequence database_sequence recorded_at event_id =
     bindE (sha256_json E (payload a)) (\<lambda>payload_sha.
     (let row = \<lparr>
          ev_database_sequence = database_sequence,
          ev_event_id = event_id,
          ev_aggregate_type = aggregate_type a,
          ev_aggregate_id = aggregate_id a,
          ev_event_type = event_type a,
          ev_aggregate_version = aggregate_version a,
          ev_aggregate_sequence = (case previous of None \<Rightarrow> 1 | Some p \<Rightarrow> ev_aggregate_sequence p + 1),
          ev_writer_id = writer_id E,
          ev_writer_sequence = writer_sequence,
          ev_actor = actor a,
          ev_occurred_at = (case occurred_at a of None \<Rightarrow> recorded_at | Some t \<Rightarrow> if t = [] then recorded_at else t),
          ev_recorded_at = recorded_at,
          ev_idempotency_key = key,
          ev_prior_event_sha256 = (case previous of None \<Rightarrow> zero_sha256 | Some p \<Rightarrow> ev_event_sha256 p),
          ev_payload_sha256 = payload_sha,
          ev_payload = payload a,
          ev_event_sha256 = [],
          ev_sensitivity = sensitivity a\<rparr>;
        event = event_from_row row
      in bindE (store_error (validate_named (stack_depth E) (documents E) event ''event.schema.json'')) (\<lambda>_.
         bindE (sha256_json E event) (\<lambda>event_sha.
         bindE (canonical (payload a)) (\<lambda>payload_json.
         Inr (row\<lparr>ev_payload := payload_json, ev_event_sha256 := event_sha\<rparr>))))))"

definition append_event :: "env \<Rightarrow> string \<Rightarrow> event_args \<Rightarrow> (txs, event_marker) tx" where
  "append_event E key a =
     tbind (select (\<lambda>d. latest_event d (aggregate_id a))) (\<lambda>previous.
     tbind (tguard (aggregate_version a = (case previous of None \<Rightarrow> 0 | Some p \<Rightarrow> ev_aggregate_version p) + 1)
         (ConflictError ''event version does not follow'')) (\<lambda>_.
     tbind (select (\<lambda>d. map_of (writer_sequences d) (writer_id E))) (\<lambda>w.
     tbind (case w of None \<Rightarrow> traise (TypeError ''NoneType'') | Some n \<Rightarrow> tret (n + 1)) (\<lambda>writer_sequence.
     tbind (select (\<lambda>d. global_sequence d + 1)) (\<lambda>database_sequence.
     tbind (utc_now E) (\<lambda>recorded_at.
     tbind (mint E ''event'') (\<lambda>event_id.
     tbind (tlift (build_event E key a previous writer_sequence database_sequence recorded_at event_id)) (\<lambda>row.
     tbind (execute (insert_event row)) (\<lambda>_.
     tbind (execute (\<lambda>d. Inr (set_writer_sequence (writer_id E) writer_sequence d))) (\<lambda>_.
     tbind (execute (\<lambda>d. Inr (d\<lparr>global_sequence := database_sequence\<rparr>))) (\<lambda>_.
     tbind (fault E ''after_event_append'') (\<lambda>_.
     tret (marker_of row)))))))))))))"

definition projection_updated :: "env \<Rightarrow> (txs, unit) tx" where
  "projection_updated E = fault E ''after_projection_update''"

section \<open>Commands\<close>

definition verify_pragmas :: "env \<Rightarrow> unit result" where
  "verify_pragmas E =
     guardE (pragmas E = (1, ''wal'', 2, 4)) (IntegrityError ''unsafe SQLite configuration'')"

definition insert_dedup :: "dedup_row \<Rightarrow> db \<Rightarrow> db result" where
  "insert_dedup r d =
     bindE (sql (length (dd_command_sha256 r) = 64) ''CHECK'' d) (\<lambda>d.
     bindE (sql (\<forall>q \<in> set (command_dedup d). dd_key q \<noteq> dd_key r) ''UNIQUE'' d) (\<lambda>d.
     Inr (d\<lparr>command_dedup := command_dedup d @ [r]\<rparr>)))"

text \<open>The transaction of \<open>command\<close>: what it returns, and whether that is the stored result of an earlier
  call.\<close>

definition command_body ::
  "env \<Rightarrow> string \<Rightarrow> string \<Rightarrow> (txs, json) tx \<Rightarrow> (txs, json \<times> bool) tx" where
  "command_body E key command_sha operation =
     tbind (fault E ''after_begin'') (\<lambda>_.
     tbind (select (\<lambda>d. List.find (\<lambda>r. dd_key r = key) (command_dedup d))) (\<lambda>prior.
     case prior of
       Some r \<Rightarrow>
         tbind (tguard (dd_command_sha256 r = command_sha)
           (IdempotencyCollision ''idempotency key was reused for a different command'')) (\<lambda>_.
         tret (dd_result r, True))
     | None \<Rightarrow>
         tbind operation (\<lambda>result.
         tbind (tlift (canonical result)) (\<lambda>result_json.
         tbind (fault E ''before_dedup_record'') (\<lambda>_.
         tbind (utc_now E) (\<lambda>now.
         tbind (execute (insert_dedup \<lparr>dd_key = key, dd_command_sha256 = command_sha,
             dd_result = result_json, dd_committed_at = now\<rparr>)) (\<lambda>_.
         tbind (fault E ''before_commit'') (\<lambda>_.
         tret (result, False)))))))))"

text \<open>
  \<open>Store.command\<close>: what the call returns or raises, and the database it leaves. A call made before
  \<open>BEGIN IMMEDIATE\<close> reads the environment at tick 0; the transaction starts at tick 1.
\<close>

definition command ::
  "env \<Rightarrow> string \<Rightarrow> json \<Rightarrow> (txs, json) tx \<Rightarrow> db \<Rightarrow> (json \<times> bool) result \<times> db" where
  "command E key cmd operation d =
     (case bindE (verify_pragmas E) (\<lambda>_. sha256_json E cmd) of
        Inl e \<Rightarrow> (Inl e, d)
      | Inr command_sha \<Rightarrow>
          (case command_body E key command_sha operation \<lparr>tx_db = d, tick = 1\<rparr> of
             Inl e \<Rightarrow> (Inl e, d)
           | Inr ((result, replayed), s) \<Rightarrow>
               if replayed then (Inr (result, True), tx_db s)
               else if fault_hook E (tick s) ''after_commit'' then (Inl (Injected ''after_commit''), tx_db s)
               else (Inr (result, False), tx_db s)))"

text \<open>
  C3. A command is atomic: when it raises, the database is exactly what it was before, unless
  the exception is the fault injected after the commit, and then the result is already recorded under the
  command's key.
\<close>

theorem command_atomic:
  assumes "command E key cmd operation d = (Inl e, d')"
  shows "d' = d \<or> (e = Injected ''after_commit'' \<and>
    (\<exists>r \<in> set (command_dedup d'). dd_key r = key \<and> sha256_json E cmd = Inr (dd_command_sha256 r)))"
proof (cases "bindE (verify_pragmas E) (\<lambda>_. sha256_json E cmd)")
  case (Inl x)
  with assms show ?thesis by (simp add: command_def)
next
  case (Inr h)
  show ?thesis
  proof (cases "command_body E key h operation \<lparr>tx_db = d, tick = 1\<rparr>")
    case (Inl x)
    with assms Inr show ?thesis by (simp add: command_def)
  next
    case body: (Inr p)
    obtain result replayed s where p: "p = ((result, replayed), s)" by (metis prod.collapse)
    from assms Inr body p have *: "\<not> replayed" "e = Injected ''after_commit''" "d' = tx_db s"
      by (auto simp: command_def split: if_splits)
    from Inr have h: "sha256_json E cmd = Inr h" by (auto simp: bindE_Inr_iff)
    from body p * have "\<exists>r \<in> set (command_dedup (tx_db s)). dd_key r = key \<and> dd_command_sha256 r = h"
      by (auto simp: command_body_def tx_simps insert_dedup_def split: option.splits)
    with * h show ?thesis by blast
  qed
qed

text \<open>The database that \<open>initialize\<close> leaves behind.\<close>

definition initial_db :: "string list \<Rightarrow> string \<Rightarrow> string \<Rightarrow> string \<Rightarrow> db" where
  "initial_db migration_shas application_version database_id writer = \<lparr>
     meta = [(''application_version'', application_version), (''database_id'', database_id),
       (''schema_version'', ''4''), (''writer_id'', writer)],
     migrations = zip [1..int (length migration_shas)] migration_shas,
     global_sequence = 0,
     writer_sequences = [(writer, 0)],
     command_dedup = [], events = [], objective_revisions = [], objectives = [], task_revisions = [],
     tasks = [], runs = [], actions = [], memory_records = [], memory_reviews = [], memory_conflicts = [],
     memory_fts = [], context_packs = [], interface_messages = [], runner_dispatches = [],
     agent_manifests = [], task_reviews = []\<rparr>"

definition sample_db :: db where
  "sample_db = initial_db [] ''v'' ''d'' ''w''"

theorem command_atomic_witness:
  "snd (command sample_env ''k'' JNull (traise (CoreError ''x'')) sample_db) = sample_db"
proof -
  let ?c = "command sample_env ''k'' JNull (traise (CoreError ''x'')) sample_db"
  have "fst ?c = Inl (CoreError ''x'')"
    by (simp add: command_def command_body_def verify_pragmas_def sample_env_def sha256_json_plain
        tbind_def fault_def sample_db_def initial_db_def)
  then have "?c = (Inl (CoreError ''x''), snd ?c)" by (metis prod.collapse)
  from command_atomic [OF this] show ?thesis by simp
qed

text \<open>What a completed command leaves in the table of results.\<close>

lemma insert_dedup_find:
  "insert_dedup r d = Inr d' \<Longrightarrow> List.find (\<lambda>q. dd_key q = dd_key r) (command_dedup d') = Some r"
  by (auto simp: insert_dedup_def tx_simps find_append find_None_iff_all [THEN iffD2])

lemma command_records:
  assumes "command E key cmd operation d = (out, d')"
    and "(\<exists>result replayed. out = Inr (result, replayed)) \<or> d' \<noteq> d"
  obtains r where "List.find (\<lambda>q. dd_key q = key) (command_dedup d') = Some r"
    and "sha256_json E cmd = Inr (dd_command_sha256 r)"
    and "\<And>result replayed. out = Inr (result, replayed) \<Longrightarrow>
      dd_result r = (if replayed then result else norm result)"
proof -
  from assms obtain h where h: "verify_pragmas E = Inr ()" "sha256_json E cmd = Inr h"
    by (auto simp: command_def bindE_Inr_iff split: sum.splits)
  from assms h obtain result replayed s where
    b: "command_body E key h operation \<lparr>tx_db = d, tick = 1\<rparr> = Inr ((result, replayed), s)"
    and out: "d' = tx_db s" "out = Inr (result', replayed') \<Longrightarrow> result' = result \<and> replayed' = replayed"
    for result' replayed'
    by (auto simp: command_def split: sum.splits if_splits)
  from b have "\<exists>r. List.find (\<lambda>q. dd_key q = key) (command_dedup (tx_db s)) = Some r \<and>
      dd_command_sha256 r = h \<and> dd_result r = (if replayed then result else norm result)"
    by (auto simp: command_body_def tx_simps split: option.splits dest!: insert_dedup_find canonical_Inr)
  with that h out show ?thesis by metis
qed

text \<open>
  C21. Retrying a command is safe: once a command has taken effect under a key, whether its call
  returned or failed after the commit, every later call with that key and that command, whatever its
  operation would do now, changes nothing and returns the recorded result, which is the canonical
  form of what the first call returned.
\<close>

theorem command_retry_idempotent:
  assumes "command E key cmd operation d = (out, d')"
    and "(\<exists>result replayed. out = Inr (result, replayed)) \<or> d' \<noteq> d"
    and "sha256 F = sha256 E" and "verify_pragmas F = Inr ()" and "\<not> fault_hook F 1 ''after_begin''"
  shows "\<exists>stored. command F key cmd operation' d' = (Inr (stored, True), d') \<and>
    (\<forall>result replayed. out = Inr (result, replayed) \<longrightarrow> stored = (if replayed then result else norm result))"
proof -
  from command_records [OF assms(1, 2)] obtain r where
    r: "List.find (\<lambda>q. dd_key q = key) (command_dedup d') = Some r"
    and h: "sha256_json E cmd = Inr (dd_command_sha256 r)"
    and res: "\<And>result replayed. out = Inr (result, replayed) \<Longrightarrow>
      dd_result r = (if replayed then result else norm result)"
    by metis
  have "sha256_json F cmd = Inr (dd_command_sha256 r)"
    using h sha256_json_cong [OF assms(3)] by simp
  then have "command F key cmd operation' d' = (Inr (dd_result r, True), d')"
    using r assms(4, 5) by (simp add: command_def command_body_def tbind_def fault_def)
  with res show ?thesis by blast
qed

lemma sample_command:
  "command sample_env ''k'' JNull (tret (JInt 7)) sample_db =
   (Inr (JInt 7, False), sample_db\<lparr>command_dedup := [\<lparr>dd_key = ''k'', dd_command_sha256 = zero_sha256,
      dd_result = norm (JInt 7), dd_committed_at = format_time (clock sample_env 3)\<rparr>]\<rparr>)"
  by (simp add: command_def command_body_def verify_pragmas_def sample_env_def sha256_json_plain
      tbind_def fault_def sample_db_def initial_db_def canonical_plain insert_dedup_def zero_sha256_def
      execute_def sql_def)

theorem command_retry_idempotent_witness:
  "\<exists>stored. command sample_env ''k'' JNull (traise RecursionError)
     (snd (command sample_env ''k'' JNull (tret (JInt 7)) sample_db)) =
     (Inr (stored, True), snd (command sample_env ''k'' JNull (tret (JInt 7)) sample_db))"
proof -
  let ?c = "command sample_env ''k'' JNull (tret (JInt 7)) sample_db"
  have "?c = (fst ?c, snd ?c)" by simp
  from command_retry_idempotent [OF this, of sample_env "traise RecursionError"] show ?thesis
    by (auto simp: sample_command) (auto simp: verify_pragmas_def sample_env_def)
qed

text \<open>
  C22. A key names one command: a call that reuses the key of a recorded command for a command with
  another digest raises \<open>IdempotencyCollision\<close> and changes nothing.
\<close>

theorem command_key_collision:
  assumes "List.find (\<lambda>q. dd_key q = key) (command_dedup d) = Some r"
    and "sha256_json E cmd = Inr h" and "h \<noteq> dd_command_sha256 r"
    and "verify_pragmas E = Inr ()" and "\<not> fault_hook E 1 ''after_begin''"
  shows "command E key cmd operation d =
    (Inl (IdempotencyCollision ''idempotency key was reused for a different command''), d)"
  using assms by (simp add: command_def command_body_def tbind_def fault_def)

theorem command_key_collision_witness:
  "command (sample_env\<lparr>sha256 := (\<lambda>v. ''other'')\<rparr>) ''k'' JNull (tret JNull)
     (snd (command sample_env ''k'' JNull (tret (JInt 7)) sample_db)) =
   (Inl (IdempotencyCollision ''idempotency key was reused for a different command''),
     snd (command sample_env ''k'' JNull (tret (JInt 7)) sample_db))"
proof (rule command_key_collision)
  show "List.find (\<lambda>q. dd_key q = ''k'')
      (command_dedup (snd (command sample_env ''k'' JNull (tret (JInt 7)) sample_db))) =
      Some \<lparr>dd_key = ''k'', dd_command_sha256 = zero_sha256, dd_result = norm (JInt 7),
        dd_committed_at = format_time (clock sample_env 3)\<rparr>"
    by (simp add: sample_command)
  show "sha256_json (sample_env\<lparr>sha256 := (\<lambda>v. ''other'')\<rparr>) JNull = Inr ''other''"
    by (simp add: sha256_json_plain)
  show "''other'' \<noteq> dd_command_sha256 \<lparr>dd_key = ''k'', dd_command_sha256 = zero_sha256,
      dd_result = norm (JInt 7), dd_committed_at = format_time (clock sample_env 3)\<rparr>"
    by (simp add: zero_sha256_def numeral_eq_Suc)
qed (simp_all add: sample_env_def verify_pragmas_def)

end
