(* ===== verification/EventLog.thy ===== *)
theory EventLog
  imports Store "HOL-Library.AList"
begin

text \<open>
  The hash-chained event log: the part of \<open>verify_integrity\<close> that replays it, and the proof that
  \<open>append_event\<close> only ever extends a log that passes the replay to one that passes it.
\<close>

section \<open>Replaying the log\<close>

text \<open>The replay keeps, per aggregate, its latest event (the code keeps six columns of that row), and
  per writer its latest sequence number.\<close>

type_synonym replay = "(string \<times> event_row) list \<times> (string \<times> int) list"

definition verify_event :: "env \<Rightarrow> int \<Rightarrow> replay \<Rightarrow> event_row \<Rightarrow> replay result" where
  "verify_event E expected st row =
     (case st of (terminal, writers) \<Rightarrow>
       bindE (guardE (ev_database_sequence row = expected) (IntegrityError ''event database sequence gap'')) (\<lambda>_.
       bindE (canonical (ev_payload row)) (\<lambda>payload_json.
       bindE (guardE (payload_json = ev_payload row) (IntegrityError ''noncanonical payload'')) (\<lambda>_.
       bindE (sha256_json E (ev_payload row)) (\<lambda>payload_sha.
       bindE (guardE (payload_sha = ev_payload_sha256 row) (IntegrityError ''payload hash mismatch'')) (\<lambda>_.
       bindE (sha256_json E (event_from_row row)) (\<lambda>event_sha.
       bindE (guardE (event_sha = ev_event_sha256 row) (IntegrityError ''event hash mismatch'')) (\<lambda>_.
       (let prior = map_of terminal (ev_aggregate_id row);
            prior_version = (case prior of None \<Rightarrow> 0 | Some p \<Rightarrow> ev_aggregate_version p);
            prior_hash = (case prior of None \<Rightarrow> zero_sha256 | Some p \<Rightarrow> ev_event_sha256 p);
            prior_sequence = (case prior of None \<Rightarrow> 0 | Some p \<Rightarrow> ev_aggregate_sequence p);
            expected_writer = (case map_of writers (ev_writer_id row) of None \<Rightarrow> 0 | Some n \<Rightarrow> n) + 1
        in bindE (guardE (ev_aggregate_version row = prior_version + 1) (IntegrityError ''aggregate version gap'')) (\<lambda>_.
           bindE (guardE (ev_aggregate_sequence row = prior_sequence + 1) (IntegrityError ''aggregate sequence gap'')) (\<lambda>_.
           bindE (guardE (ev_prior_event_sha256 row = prior_hash) (IntegrityError ''aggregate chain mismatch'')) (\<lambda>_.
           bindE (guardE (ev_writer_sequence row = expected_writer) (IntegrityError ''writer sequence gap'')) (\<lambda>_.
           Inr (AList.update (ev_aggregate_id row) row terminal,
                AList.update (ev_writer_id row) expected_writer writers))))))))))))))"

fun verify_events :: "env \<Rightarrow> int \<Rightarrow> replay \<Rightarrow> event_row list \<Rightarrow> replay result" where
  "verify_events E expected st [] = Inr st"
| "verify_events E expected st (row # rows) =
     bindE (verify_event E expected st row) (\<lambda>st'. verify_events E (expected + 1) st' rows)"

text \<open>The event part of \<open>verify_integrity\<close>: the terminal event of every aggregate.\<close>

definition verify_event_log :: "env \<Rightarrow> db \<Rightarrow> (string \<times> event_row) list result" where
  "verify_event_log E d =
     (let rows = sort_key ev_database_sequence (events d)
      in bindE (verify_events E 1 ([], []) rows) (\<lambda>(terminal, writers).
         bindE (guardE (global_sequence d = int (length rows))
           (IntegrityError ''Core metadata high-water does not match event log'')) (\<lambda>_.
         bindE (forE (\<lambda>(w, n). guardE (n = (case map_of writers w of None \<Rightarrow> 0 | Some k \<Rightarrow> k))
             (IntegrityError ''writer state mismatch'')) (writer_sequences d)) (\<lambda>_.
         Inr terminal))))"

section \<open>What a replay establishes\<close>

lemma verify_events_append:
  "verify_events E n st (xs @ ys) =
   bindE (verify_events E n st xs) (\<lambda>st'. verify_events E (n + int (length xs)) st' ys)"
  by (induction xs arbitrary: n st) (simp_all add: bindE_def add.assoc split: sum.splits)

lemma verify_event_Inr:
  assumes "verify_event E n (terminal, writers) row = Inr st"
  shows "ev_database_sequence row = n"
    and "canonical (ev_payload row) = Inr (ev_payload row)"
    and "sha256_json E (ev_payload row) = Inr (ev_payload_sha256 row)"
    and "sha256_json E (event_from_row row) = Inr (ev_event_sha256 row)"
    and "ev_aggregate_version row = (case map_of terminal (ev_aggregate_id row) of None \<Rightarrow> 0 | Some p \<Rightarrow> ev_aggregate_version p) + 1"
    and "ev_aggregate_sequence row = (case map_of terminal (ev_aggregate_id row) of None \<Rightarrow> 0 | Some p \<Rightarrow> ev_aggregate_sequence p) + 1"
    and "ev_prior_event_sha256 row = (case map_of terminal (ev_aggregate_id row) of None \<Rightarrow> zero_sha256 | Some p \<Rightarrow> ev_event_sha256 p)"
    and "ev_writer_sequence row = (case map_of writers (ev_writer_id row) of None \<Rightarrow> 0 | Some k \<Rightarrow> k) + 1"
    and "st = (AList.update (ev_aggregate_id row) row terminal, AList.update (ev_writer_id row) (ev_writer_sequence row) writers)"
  using assms by (simp_all add: verify_event_def bindE_Inr_iff Let_def split del: option.splits)

definition log_latest :: "event_row list \<Rightarrow> string \<Rightarrow> event_row option" where
  "log_latest rows i = max_row ev_aggregate_sequence (filter (\<lambda>r. ev_aggregate_id r = i) rows)"

lemma latest_event_log: "latest_event d i = log_latest (events d) i"
  by (simp add: latest_event_def log_latest_def)

text \<open>After a successful replay the terminal table is the latest event of every aggregate, sequence and
  version of an aggregate agree, and the rows are numbered consecutively.\<close>

lemma verify_events_spec:
  assumes "verify_events E 1 ([], []) rows = Inr (terminal, writers)"
  shows "(\<forall>i. map_of terminal i = log_latest rows i) \<and>
    (\<forall>i. \<forall>r \<in> set rows. ev_aggregate_id r = i \<longrightarrow>
       (\<exists>p. log_latest rows i = Some p \<and> ev_aggregate_sequence r \<le> ev_aggregate_sequence p)) \<and>
    map ev_database_sequence rows = [1..int (length rows)] \<and>
    (\<forall>r \<in> set rows. ev_aggregate_sequence r = ev_aggregate_version r)"
  using assms
proof (induction rows arbitrary: terminal writers rule: rev_induct)
  case Nil
  then show ?case by (simp add: log_latest_def)
next
  case (snoc row rows)
  from snoc.prems obtain t w where pre: "verify_events E 1 ([], []) rows = Inr (t, w)"
    and step: "verify_event E (1 + int (length rows)) (t, w) row = Inr (terminal, writers)"
    by (auto simp: verify_events_append bindE_Inr_iff)
  note IH = snoc.IH [OF pre]
  note v = verify_event_Inr [OF step]
  have tm: "terminal = AList.update (ev_aggregate_id row) row t" using v(9) by simp
  have bound: "\<forall>q \<in> set (filter (\<lambda>r. ev_aggregate_id r = ev_aggregate_id row) rows).
      ev_aggregate_sequence q < ev_aggregate_sequence row"
  proof
    fix q assume "q \<in> set (filter (\<lambda>r. ev_aggregate_id r = ev_aggregate_id row) rows)"
    then have "q \<in> set rows" "ev_aggregate_id q = ev_aggregate_id row" by simp_all
    then obtain p where p: "log_latest rows (ev_aggregate_id row) = Some p"
      "ev_aggregate_sequence q \<le> ev_aggregate_sequence p"
      using IH by blast
    then have "map_of t (ev_aggregate_id row) = Some p" using IH by simp
    with v(6) p(2) show "ev_aggregate_sequence q < ev_aggregate_sequence row" by simp
  qed
  have latest: "log_latest (rows @ [row]) i = (if i = ev_aggregate_id row then Some row else log_latest rows i)" for i
    using bound by (auto simp: log_latest_def max_row_snoc)
  have "map_of terminal i = log_latest (rows @ [row]) i" for i
    using IH by (simp add: tm latest update_conv')
  moreover have "\<exists>p. log_latest (rows @ [row]) i = Some p \<and> ev_aggregate_sequence r \<le> ev_aggregate_sequence p"
    if "r \<in> set (rows @ [row])" "ev_aggregate_id r = i" for r i
    using that IH bound by (auto simp: latest intro: less_imp_le)
  moreover have "map ev_database_sequence (rows @ [row]) = [1..int (length (rows @ [row]))]"
    using IH v(1) by (simp add: upto_rec2)
  moreover have "ev_aggregate_sequence row = ev_aggregate_version row"
  proof (cases "map_of t (ev_aggregate_id row)")
    case (Some p)
    then have "p \<in> set rows"
      using IH max_row_Some [of ev_aggregate_sequence "filter (\<lambda>r. ev_aggregate_id r = ev_aggregate_id row) rows" p]
      by (auto simp: log_latest_def)
    with IH v(5, 6) Some show ?thesis by simp
  qed (use v(5, 6) in simp)
  ultimately show ?case using IH by auto
qed

section \<open>Appending keeps the log verifiable\<close>

lemma mapE_total_iff: "(\<exists>ys. mapE f xs = Inr ys) \<longleftrightarrow> (\<forall>x \<in> set xs. \<exists>y. f x = Inr y)"
  by (induction xs) (fastforce simp: bindE_Inr_iff)+

lemma canonical_ok_JObj:
  "(\<exists>w. canonical (JObj d) = Inr w) \<longleftrightarrow> (\<forall>p \<in> set d. \<exists>w. canonical (snd p) = Inr w)"
proof -
  let ?d = "map (\<lambda>p. (ucs (fst p), to_u (snd p))) d"
  have o: "to_u (JObj d) = JObj ?d" by (simp add: to_u_def map_prod_def case_prod_unfold)
  have "(\<exists>w. canonical (JObj d) = Inr w) \<longleftrightarrow>
      (\<forall>p \<in> set d. assert_canonical (to_u (snd p)) = Inr ()) \<and>
      (\<exists>ts. mapE (\<lambda>p. bindE (encode (snd p)) (\<lambda>t. Inr (dumps_str (fst p) @ [58] @ t))) (sorted_items ?d) = Inr ts)"
    unfolding canonical_def canonical_json_def o
    by (auto simp: bindE_Inr_iff forE_Inr_iff list_all_iff utf16_encodable_ucs)
  then show ?thesis
    unfolding mapE_total_iff by (auto simp: canonical_def canonical_json_def bindE_Inr_iff)
qed

lemma norm_JObj: "norm (JObj d) = JObj (sort_key (\<lambda>p. utf16be (ucs (fst p))) (map (\<lambda>p. (fst p, norm (snd p))) d))"
  by (simp add: norm_def)

lemma event_from_row_payload:
  assumes "canonical (norm p) = Inr (norm p)" and "sha256_json E (event_from_row (r\<lparr>ev_payload := p\<rparr>)) = Inr h"
  shows "sha256_json E (event_from_row (r\<lparr>ev_payload := norm p, ev_event_sha256 := g\<rparr>)) = Inr h"
proof -
  have nn: "norm (norm p) = norm p" using canonical_Inr [OF assms(1)] by simp
  have "norm (event_from_row (r\<lparr>ev_payload := norm p, ev_event_sha256 := g\<rparr>)) = norm (event_from_row (r\<lparr>ev_payload := p\<rparr>))"
    by (simp add: event_from_row_def norm_JObj nn del: sort_key_simps)
  moreover have "\<exists>w. canonical (event_from_row (r\<lparr>ev_payload := norm p, ev_event_sha256 := g\<rparr>)) = Inr w"
    using assms unfolding sha256_json_Inr event_from_row_def canonical_ok_JObj by auto
  ultimately show ?thesis using assms(2) by (simp add: sha256_json_Inr)
qed

text \<open>The row that an \<open>append_event\<close> adds, and the database it leaves.\<close>

definition push_event :: "event_row \<Rightarrow> db \<Rightarrow> db" where
  "push_event r d =
     (set_writer_sequence (ev_writer_id r) (ev_writer_sequence r) (d\<lparr>events := events d @ [r]\<rparr>))
       \<lparr>global_sequence := ev_database_sequence r\<rparr>"

definition follows :: "env \<Rightarrow> string \<Rightarrow> event_args \<Rightarrow> db \<Rightarrow> event_row \<Rightarrow> bool" where
  "follows E key a d r \<longleftrightarrow>
     (let previous = latest_event d (aggregate_id a) in
      ev_aggregate_type r = aggregate_type a \<and> ev_aggregate_id r = aggregate_id a \<and>
      ev_event_type r = event_type a \<and> ev_aggregate_version r = aggregate_version a \<and>
      ev_actor r = actor a \<and> ev_sensitivity r = sensitivity a \<and> ev_idempotency_key r = key \<and>
      ev_payload r = norm (payload a) \<and>
      ev_aggregate_version r = (case previous of None \<Rightarrow> 0 | Some p \<Rightarrow> ev_aggregate_version p) + 1 \<and>
      ev_aggregate_sequence r = (case previous of None \<Rightarrow> 0 | Some p \<Rightarrow> ev_aggregate_sequence p) + 1 \<and>
      ev_prior_event_sha256 r = (case previous of None \<Rightarrow> zero_sha256 | Some p \<Rightarrow> ev_event_sha256 p) \<and>
      ev_writer_id r = writer_id E \<and>
      (\<exists>n. map_of (writer_sequences d) (writer_id E) = Some n \<and> ev_writer_sequence r = n + 1) \<and>
      ev_database_sequence r = global_sequence d + 1 \<and>
      sha256_json E (payload a) = Inr (ev_payload_sha256 r) \<and>
      sha256_json E (event_from_row (r\<lparr>ev_payload := payload a\<rparr>)) = Inr (ev_event_sha256 r) \<and>
      validate_named (stack_depth E) (documents E) (event_from_row (r\<lparr>ev_payload := payload a\<rparr>)) ''event.schema.json'' = Inr () \<and>
      insert_event r d = Inr (d\<lparr>events := events d @ [r]\<rparr>))"

lemma store_error_Inr [tx_simps]: "store_error r = Inr u \<longleftrightarrow> r = Inr u"
  by (auto simp: store_error_def split: sum.splits exc.splits)

lemma insert_event_Inr: "insert_event r d = Inr d' \<Longrightarrow> d' = d\<lparr>events := events d @ [r]\<rparr>"
  by (auto simp: insert_event_def tx_simps)

lemma build_event_Inr:
  assumes "build_event E key a previous w n t i = Inr r"
  shows "ev_database_sequence r = n \<and> ev_event_id r = i \<and> ev_aggregate_type r = aggregate_type a \<and>
    ev_aggregate_id r = aggregate_id a \<and> ev_event_type r = event_type a \<and>
    ev_aggregate_version r = aggregate_version a \<and>
    ev_aggregate_sequence r = (case previous of None \<Rightarrow> 0 | Some p \<Rightarrow> ev_aggregate_sequence p) + 1 \<and>
    ev_writer_id r = writer_id E \<and> ev_writer_sequence r = w \<and> ev_actor r = actor a \<and>
    ev_idempotency_key r = key \<and> ev_recorded_at r = t \<and>
    ev_prior_event_sha256 r = (case previous of None \<Rightarrow> zero_sha256 | Some p \<Rightarrow> ev_event_sha256 p) \<and>
    ev_sensitivity r = sensitivity a \<and> ev_payload r = norm (payload a) \<and>
    sha256_json E (payload a) = Inr (ev_payload_sha256 r) \<and>
    sha256_json E (event_from_row (r\<lparr>ev_payload := payload a\<rparr>)) = Inr (ev_event_sha256 r) \<and>
    validate_named (stack_depth E) (documents E) (event_from_row (r\<lparr>ev_payload := payload a\<rparr>)) ''event.schema.json'' = Inr ()"
  using assms
  by (auto simp: build_event_def Let_def bindE_Inr_iff store_error_Inr event_from_row_def
      dest!: canonical_Inr split: option.splits)

lemma append_event_Inr:
  assumes "append_event E key a s = Inr (m, s')"
  obtains r where "follows E key a (tx_db s) r" and "m = marker_of r"
    and "tx_db s' = push_event r (tx_db s)" and "tick s' = tick s + 3"
proof -
  from assms obtain n r where
    n: "map_of (writer_sequences (tx_db s)) (writer_id E) = Some n"
    and v: "aggregate_version a = (case latest_event (tx_db s) (aggregate_id a) of None \<Rightarrow> 0 | Some p \<Rightarrow> ev_aggregate_version p) + 1"
    and b: "\<exists>t i. build_event E key a (latest_event (tx_db s) (aggregate_id a)) (n + 1) (global_sequence (tx_db s) + 1) t i = Inr r"
    and ins: "insert_event r (tx_db s) = Inr (tx_db s\<lparr>events := events (tx_db s) @ [r]\<rparr>)"
    and m: "m = marker_of r"
    and s': "tx_db s' = (set_writer_sequence (writer_id E) (n + 1) (tx_db s\<lparr>events := events (tx_db s) @ [r]\<rparr>))
       \<lparr>global_sequence := global_sequence (tx_db s) + 1\<rparr>" "tick s' = tick s + 3"
    by (auto simp: append_event_def tx_simps dest: insert_event_Inr split: option.splits) (metis insert_event_Inr)+
  from b obtain t i where b: "build_event E key a (latest_event (tx_db s) (aggregate_id a)) (n + 1) (global_sequence (tx_db s) + 1) t i = Inr r"
    by blast
  note f = build_event_Inr [OF b]
  show ?thesis
    by (rule that [of r]) (use f n v ins m s' in \<open>auto simp: follows_def Let_def push_event_def\<close>)
qed

text \<open>A database whose log passes the replay, with the event table in insertion order and one row per
  writer.\<close>

definition log_ok :: "env \<Rightarrow> db \<Rightarrow> bool" where
  "log_ok E d \<longleftrightarrow> (\<exists>t. verify_event_log E d = Inr t) \<and>
     sorted (map ev_database_sequence (events d)) \<and> distinct (map fst (writer_sequences d))"

lemma log_ok_verify:
  assumes "log_ok E d"
  obtains terminal writers where "verify_events E 1 ([], []) (events d) = Inr (terminal, writers)"
    and "verify_event_log E d = Inr terminal"
    and "global_sequence d = int (length (events d))"
    and "\<forall>(w, n) \<in> set (writer_sequences d). n = (case map_of writers w of None \<Rightarrow> 0 | Some k \<Rightarrow> k)"
proof -
  from assms have s: "sort_key ev_database_sequence (events d) = events d"
    by (simp add: log_ok_def sort_key_id_if_sorted)
  from assms obtain t where t: "verify_event_log E d = Inr t" by (auto simp: log_ok_def)
  then obtain writers where "verify_events E 1 ([], []) (events d) = Inr (t, writers)"
    and "global_sequence d = int (length (events d))"
    and "\<forall>(w, n) \<in> set (writer_sequences d). n = (case map_of writers w of None \<Rightarrow> 0 | Some k \<Rightarrow> k)"
    by (auto simp: verify_event_log_def Let_def s bindE_Inr_iff forE_Inr_iff case_prod_beta)
  with t show ?thesis using that by blast
qed

lemma push_event_simps [simp]:
  "events (push_event r d) = events d @ [r]"
  "global_sequence (push_event r d) = ev_database_sequence r"
  "writer_sequences (push_event r d) =
     map (\<lambda>(k, v). (k, if k = ev_writer_id r then ev_writer_sequence r else v)) (writer_sequences d)"
  "meta (push_event r d) = meta d"
  "command_dedup (push_event r d) = command_dedup d"
  "objective_revisions (push_event r d) = objective_revisions d"
  "objectives (push_event r d) = objectives d"
  "task_revisions (push_event r d) = task_revisions d"
  "tasks (push_event r d) = tasks d"
  "runs (push_event r d) = runs d"
  "actions (push_event r d) = actions d"
  "migrations (push_event r d) = migrations d"
  "memory_records (push_event r d) = memory_records d"
  "memory_reviews (push_event r d) = memory_reviews d"
  "memory_conflicts (push_event r d) = memory_conflicts d"
  "memory_fts (push_event r d) = memory_fts d"
  "context_packs (push_event r d) = context_packs d"
  "interface_messages (push_event r d) = interface_messages d"
  "runner_dispatches (push_event r d) = runner_dispatches d"
  "agent_manifests (push_event r d) = agent_manifests d"
  "task_reviews (push_event r d) = task_reviews d"
  by (simp_all add: push_event_def set_writer_sequence_def)

lemma push_event_verifies:
  assumes ok: "log_ok E d" and f: "follows E key a d r"
    and st: "canonical (ev_payload r) = Inr (ev_payload r)"
  shows "log_ok E (push_event r d)"
proof -
  from log_ok_verify [OF ok] obtain t w where
    v: "verify_events E 1 ([], []) (events d) = Inr (t, w)"
    and g: "global_sequence d = int (length (events d))"
    and ws: "\<forall>(k, n) \<in> set (writer_sequences d). n = (case map_of w k of None \<Rightarrow> 0 | Some m \<Rightarrow> m)"
    by blast
  note spec = verify_events_spec [OF v]
  from f obtain n where n: "map_of (writer_sequences d) (writer_id E) = Some n" "ev_writer_sequence r = n + 1"
    by (auto simp: follows_def Let_def)
  then have "(writer_id E, n) \<in> set (writer_sequences d)" by (simp add: map_of_SomeD)
  then have nw: "n = (case map_of w (writer_id E) of None \<Rightarrow> 0 | Some m \<Rightarrow> m)" using ws by auto
  have prior: "map_of t (aggregate_id a) = latest_event d (aggregate_id a)"
    using spec by (simp add: latest_event_log)
  have pl: "ev_payload r = norm (payload a)" using f by (simp add: follows_def Let_def)
  have esha: "sha256_json E (event_from_row r) = Inr (ev_event_sha256 r)"
    using event_from_row_payload [of "payload a" E r "ev_event_sha256 r" "ev_event_sha256 r"] f st
    by (simp add: follows_def Let_def flip: pl)
  have psha: "sha256_json E (ev_payload r) = Inr (ev_payload_sha256 r)"
    using f st canonical_Inr [OF st] by (auto simp: follows_def Let_def sha256_json_Inr)
  have step: "verify_event E (1 + int (length (events d))) (t, w) r =
      Inr (AList.update (ev_aggregate_id r) r t, AList.update (ev_writer_id r) (ev_writer_sequence r) w)"
    using f g prior nw n st esha psha
    by (simp add: verify_event_def follows_def Let_def split del: option.splits)
  have sorted: "sorted (map ev_database_sequence (events d @ [r]))"
  proof -
    have "\<forall>q \<in> set (events d). ev_database_sequence q \<le> ev_database_sequence r"
    proof
      fix q assume "q \<in> set (events d)"
      then have "ev_database_sequence q \<in> set [1..int (length (events d))]" using spec by (metis image_eqI list.set_map)
      then show "ev_database_sequence q \<le> ev_database_sequence r" using f g by (simp add: follows_def Let_def)
    qed
    then show ?thesis using ok by (auto simp: log_ok_def sorted_append)
  qed
  have keys: "map fst (map (\<lambda>(k, v). (k, if k = u then m else v)) xs) = map fst xs" for u m and xs :: "(string \<times> int) list"
    by (induction xs) auto
  have "verify_event_log E (push_event r d) = Inr (AList.update (ev_aggregate_id r) r t)"
    using v step ws f g n nw sorted
    by (auto simp: verify_event_log_def Let_def sort_key_id_if_sorted verify_events_append forE_Inr_iff bindE_Inr_iff
        follows_def update_conv' simp del: sort_key_simps)
  moreover have "distinct (map fst (writer_sequences (push_event r d)))"
    using ok unfolding push_event_simps keys by (simp add: log_ok_def)
  moreover have "sorted (map ev_database_sequence (events (push_event r d)))"
    using sorted by simp
  ultimately show ?thesis unfolding log_ok_def by blast
qed


lemma sample_db_log_ok: "log_ok E sample_db"
  by (simp add: log_ok_def verify_event_log_def sample_db_def initial_db_def Let_def)

definition sample_event :: event_args where
  "sample_event = \<lparr>aggregate_type = ''objective'', aggregate_id = ''o'', event_type = ''objective.created'',
     aggregate_version = 1, actor = ''human:a'', payload = JNull, sensitivity = ''internal'', occurred_at = None\<rparr>"

lemma sample_append:
  "\<exists>m s'. append_event sample_env ''k'' sample_event \<lparr>tx_db = sample_db, tick = 1\<rparr> = Inr (m, s')"
proof -
  have v: "validate_named (stack_depth sample_env) (documents sample_env) x ''event.schema.json'' = Inr ()" for x
    by (rule sample_validate) simp
  show ?thesis
    by (simp add: append_event_def tbind_def sample_db_def initial_db_def latest_event_def sample_event_def
        mint_def new_id_def id_prefixes_def build_event_def sha256_json_plain canonical_plain Let_def store_error_def v
        event_from_row_def execute_def insert_event_def sql_def zero_sha256_def fault_def)
qed


section \<open>Tampering\<close>

text \<open>The events of one aggregate, in order.\<close>

definition chain :: "event_row list \<Rightarrow> string \<Rightarrow> event_row list" where
  "chain rows i = filter (\<lambda>r. ev_aggregate_id r = i) rows"

definition linked :: "env \<Rightarrow> event_row list \<Rightarrow> bool" where
  "linked E c \<longleftrightarrow> (\<forall>k < length c. ev_aggregate_sequence (c ! k) = int k + 1 \<and>
      sha256_json E (event_from_row (c ! k)) = Inr (ev_event_sha256 (c ! k)) \<and>
      canonical (ev_payload (c ! k)) = Inr (ev_payload (c ! k)) \<and>
      (0 < k \<longrightarrow> ev_prior_event_sha256 (c ! k) = ev_event_sha256 (c ! (k - 1))))"

lemma linked_latest:
  assumes "linked E c"
  shows "max_row ev_aggregate_sequence c = (if c = [] then None else Some (last c))"
proof (cases c rule: rev_cases)
  case (snoc ys y)
  have "ev_aggregate_sequence q < ev_aggregate_sequence y" if q: "q \<in> set ys" for q
  proof -
    obtain k where k: "k < length ys" "ys ! k = q" using q by (auto simp: in_set_conv_nth)
    with assms snoc have "ev_aggregate_sequence q = int k + 1"
      by (auto simp: linked_def nth_append dest: spec [of _ k])
    moreover have "ev_aggregate_sequence y = int (length ys) + 1"
      using assms snoc by (auto simp: linked_def dest: spec [of _ "length ys"])
    ultimately show ?thesis using k by simp
  qed
  then show ?thesis using snoc by (simp add: max_row_snoc)
qed simp

lemma linked_snoc:
  "linked E (c @ [r]) \<longleftrightarrow> linked E c \<and> ev_aggregate_sequence r = int (length c) + 1 \<and>
     sha256_json E (event_from_row r) = Inr (ev_event_sha256 r) \<and>
     canonical (ev_payload r) = Inr (ev_payload r) \<and>
     (c \<noteq> [] \<longrightarrow> ev_prior_event_sha256 r = ev_event_sha256 (last c))"
  unfolding linked_def by (auto simp: nth_append less_Suc_eq last_conv_nth all_conj_distrib)

lemma verified_linked:
  "verify_events E 1 ([], []) rows = Inr (t, w) \<Longrightarrow> linked E (chain rows i)"
proof (induction rows arbitrary: t w rule: rev_induct)
  case Nil
  then show ?case by (simp add: chain_def linked_def)
next
  case (snoc row rows)
  then obtain t0 w0 where pre: "verify_events E 1 ([], []) rows = Inr (t0, w0)"
    and step: "verify_event E (1 + int (length rows)) (t0, w0) row = Inr (t, w)"
    by (auto simp: verify_events_append bindE_Inr_iff)
  let ?c = "chain rows i"
  have l: "linked E ?c" by (rule snoc.IH [OF pre])
  have prior: "map_of t0 i = (if ?c = [] then None else Some (last ?c))"
    using verify_events_spec [OF pre] linked_latest [OF l] by (simp add: log_latest_def chain_def)
  note v = verify_event_Inr [OF step]
  show ?case
  proof (cases "ev_aggregate_id row = i")
    case True
    then have c: "chain (rows @ [row]) i = ?c @ [row]" by (simp add: chain_def)
    have "ev_aggregate_sequence row = int (length ?c) + 1"
    proof (cases "?c = []")
      case False
      then obtain ys y where y: "?c = ys @ [y]" by (metis rev_cases)
      with l have "ev_aggregate_sequence y = int (length ys) + 1" by (simp add: linked_snoc)
      with y prior v(6) True show ?thesis by simp
    qed (use prior v(6) True in simp)
    then show ?thesis unfolding c linked_snoc using l v(2, 4, 7) prior True by simp
  next
    case False
    then show ?thesis using l by (simp add: chain_def)
  qed
qed

lemma norm_object_lookup:
  assumes "norm (JObj d) = norm (JObj e)" and "distinct (map fst d)" and "distinct (map fst e)"
  shows "map_option norm (map_of d k) = map_option norm (map_of e k)"
proof -
  let ?n = "\<lambda>d. map (\<lambda>p. (fst p, norm (snd p))) d"
  have m: "map_of (sort_key f (?n d)) = map_of (?n d)" if "distinct (map fst d)" for d and f :: "_ \<Rightarrow> nat list"
  proof -
    have "distinct (map fst (?n d))" using that by (simp add: comp_def)
    then show ?thesis by (subst map_of_inject_set) (simp_all only: distinct_map distinct_sort set_sort simp_thms)
  qed
  have o: "map_of (?n d) k = map_option norm (map_of d k)" for d by (induction d) auto
  from assms(1) have "map_of (sort_key (\<lambda>p. utf16be (ucs (fst p))) (?n d)) k = map_of (sort_key (\<lambda>p. utf16be (ucs (fst p))) (?n e)) k"
    by (simp add: norm_JObj)
  then show ?thesis unfolding m [OF assms(2)] m [OF assms(3)] o .
qed

lemma event_row_determined:
  assumes "norm (event_from_row r) = norm (event_from_row q)"
    and "norm (ev_payload r) = ev_payload r" and "norm (ev_payload q) = ev_payload q"
    and "ev_event_sha256 r = ev_event_sha256 q"
  shows "r = q"
proof -
  have l: "map_option norm (map_of (dict_of (event_from_row r)) k) = map_option norm (map_of (dict_of (event_from_row q)) k)" for k
    by (rule norm_object_lookup) (use assms(1) in \<open>simp_all add: event_from_row_def dict_of_def\<close>)
  have s: "norm (JStr x) = JStr x" "norm (JInt n) = JInt n" for x n by (simp_all add: norm_def)
  show ?thesis
    using l [of "''event_id''"] l [of "''aggregate_type''"] l [of "''aggregate_id''"] l [of "''event_type''"]
      l [of "''aggregate_version''"] l [of "''aggregate_sequence''"] l [of "''writer_id''"] l [of "''writer_sequence''"]
      l [of "''database_sequence''"] l [of "''actor''"] l [of "''occurred_at''"] l [of "''recorded_at''"]
      l [of "''idempotency_key''"] l [of "''prior_event_sha256''"] l [of "''payload_sha256''"] l [of "''payload''"]
      l [of "''sensitivity''"] assms(2, 3, 4)
    by (cases r; cases q) (simp add: event_from_row_def dict_of_def s)
qed

definition collision_free :: "env \<Rightarrow> event_row list \<Rightarrow> event_row list \<Rightarrow> bool" where
  "collision_free E xs ys \<longleftrightarrow> (\<forall>r \<in> set xs. \<forall>q \<in> set ys.
     sha256 E (norm (event_from_row r)) = sha256 E (norm (event_from_row q)) \<longrightarrow>
     norm (event_from_row r) = norm (event_from_row q))"

lemma linked_determined:
  assumes "collision_free E c c'" and "linked E c" and "linked E c'" and "c \<noteq> []" and "c' \<noteq> []"
    and "ev_event_sha256 (last c) = ev_event_sha256 (last c')"
  shows "c = c'"
  using assms
proof (induction c arbitrary: c' rule: rev_induct)
  case (snoc r ys)
  obtain q zs where c': "c' = zs @ [q]" using snoc.prems(5) by (cases c' rule: rev_cases) auto
  note L = snoc.prems(2) [unfolded linked_snoc] snoc.prems(3) [unfolded c' linked_snoc]
  have sha: "ev_event_sha256 r = ev_event_sha256 q" using snoc.prems(6) c' by simp
  have "norm (event_from_row r) = norm (event_from_row q)"
    using L sha snoc.prems(1) c' by (auto simp: sha256_json_Inr collision_free_def)
  then have rq: "r = q"
    using event_row_determined [of r q] L sha by (metis canonical_Inr)
  then have len: "length ys = length zs" using L by auto
  show ?case
  proof (cases "ys = []")
    case False
    then have "zs \<noteq> []" using len by auto
    with False L rq have "ev_event_sha256 (last ys) = ev_event_sha256 (last zs)" by metis
    moreover have "collision_free E ys zs" using snoc.prems(1) c' by (auto simp: collision_free_def)
    ultimately have "ys = zs" using snoc.IH [of zs] L False \<open>zs \<noteq> []\<close> by blast
    then show ?thesis using c' rq by simp
  qed (use len c' rq in simp)
qed simp

text \<open>
  C6. Tampering shows: when SHA-256 has no collision among the events of two logs, two logs that both pass the replay and end an
  aggregate with the same event hash hold exactly the same events for that aggregate, every column of
  every event included. So a remembered terminal hash pins down an aggregate's whole history.
\<close>

theorem terminal_hash_pins_history:
  assumes "collision_free E (events d) (events d')" and "log_ok E d" and "log_ok E d'"
    and "latest_event d i = Some r" and "latest_event d' i = Some q"
    and "ev_event_sha256 r = ev_event_sha256 q"
  shows "filter (\<lambda>e. ev_aggregate_id e = i) (events d) = filter (\<lambda>e. ev_aggregate_id e = i) (events d')"
proof -
  have l: "linked E (chain (events d) i)" "linked E (chain (events d') i)"
    using log_ok_verify [OF assms(2)] log_ok_verify [OF assms(3)] verified_linked by metis+
  have "latest_event e i = (if chain (events e) i = [] then None else Some (last (chain (events e) i)))"
    if "linked E (chain (events e) i)" for e
    using linked_latest [OF that] by (simp add: latest_event_log log_latest_def chain_def)
  moreover have "collision_free E (chain (events d) i) (chain (events d') i)"
    using assms(1) by (auto simp: collision_free_def chain_def)
  ultimately have "chain (events d) i = chain (events d') i"
    using l assms(4-) by (intro linked_determined [OF _ l]) (auto split: if_splits)
  then show ?thesis by (simp add: chain_def)
qed

theorem terminal_hash_pins_history_witness:
  "\<exists>m s'. append_event sample_env ''k'' sample_event \<lparr>tx_db = sample_db, tick = 1\<rparr> = Inr (m, s') \<and>
     filter (\<lambda>e. ev_aggregate_id e = ''o'') (events (tx_db s')) =
     filter (\<lambda>e. ev_aggregate_id e = ''o'') (events (tx_db s' \<lparr>meta := []\<rparr>))"
proof -
  obtain m s' where a: "append_event sample_env ''k'' sample_event \<lparr>tx_db = sample_db, tick = 1\<rparr> = Inr (m, s')"
    using sample_append by blast
  obtain r where f: "follows sample_env ''k'' sample_event sample_db r" and d: "tx_db s' = push_event r sample_db"
    by (rule append_event_Inr [OF a]) simp
  have p: "ev_payload r = JNull" "ev_aggregate_id r = ''o''" "ev_aggregate_type r = ''objective''"
    using f by (simp_all add: follows_def Let_def sample_event_def norm_def)
  have ok: "log_ok sample_env (tx_db s')"
    unfolding d by (rule push_event_verifies [OF sample_db_log_ok f]) (simp add: p canonical_plain norm_def)
  have ok': "log_ok sample_env (tx_db s' \<lparr>meta := []\<rparr>)"
    using ok by (simp add: log_ok_def verify_event_log_def)
  have e: "events (tx_db s') = [r]" by (simp add: d sample_db_def initial_db_def)
  have "collision_free sample_env (events (tx_db s')) (events (tx_db s' \<lparr>meta := []\<rparr>))"
    by (simp add: collision_free_def e)
  from terminal_hash_pins_history [OF this ok ok', of "''o''" r r] a show ?thesis
    by (auto simp: latest_event_def e p)
qed

end
