(* ===== verification/CoreBase.thy ===== *)
theory CoreBase
  imports EventLog
begin

text \<open>
  What the operations of \<open>src/city2core/core.py\<close> share: required fields, secret-shaped keys, schema
  validation with its error, the lookups of rows, the \<open>INSERT\<close> and \<open>UPDATE\<close> statements of the
  tables of Core with the constraints that \<open>migrations/0001\<close> declares, and the form of a call.
\<close>

section \<open>Calls\<close>

text \<open>A call takes the database and gives what it returns or raises, and the database after it.\<close>

type_synonym call = "db \<Rightarrow> json result \<times> db"

text \<open>\<open>self.store.command(...)[0]\<close>.\<close>

definition run_command :: "env \<Rightarrow> string \<Rightarrow> json \<Rightarrow> (txs, json) tx \<Rightarrow> call" where
  "run_command E key cmd operation d =
     (case command E key cmd operation d of
        (Inl e, d') \<Rightarrow> (Inl e, d')
      | (Inr (result, replayed), d') \<Rightarrow> (Inr result, d'))"

text \<open>Statements before the command that may raise.\<close>

definition checked :: "'a result \<Rightarrow> ('a \<Rightarrow> call) \<Rightarrow> call" where
  "checked pre f d = (case pre of Inl e \<Rightarrow> (Inl e, d) | Inr a \<Rightarrow> f a d)"

section \<open>Checks on arguments\<close>

definition required :: "string dict \<Rightarrow> string list \<Rightarrow> unit result" where
  "required fs names =
     guardE (list_all (dict_has fs) names) (CoreError ''missing required fields'')"

definition secret_key_pattern :: string where
  "secret_key_pattern =
     ''(?i)(^|[._-])(api[_-]?key|credential|mnemonic|password|private[_-]?key|recovery[_-]?phrase|secret|seed|token)([._-]|$)''"

fun reject_secret_keys :: "json \<Rightarrow> unit result" where
  "reject_secret_keys (JObj d) =
     forE (\<lambda>kv. bindE (re_search secret_key_pattern (fst kv)) (\<lambda>found.
       if found then Inl (CoreError ''secret-shaped parameter key denied'')
       else reject_secret_keys (snd kv))) d"
| "reject_secret_keys (JList xs) = forE reject_secret_keys xs"
| "reject_secret_keys _ = Inr ()"

definition validate :: "env \<Rightarrow> json \<Rightarrow> string \<Rightarrow> unit result" where
  "validate E v name =
     (case validate_named (stack_depth E) (documents E) v name of
        Inr u \<Rightarrow> Inr u
      | Inl e \<Rightarrow> (case e of ValidationError m \<Rightarrow> Inl (CoreError m) | _ \<Rightarrow> Inl e))"

text \<open>\<open>{name: d[name], ...}\<close> for some names.\<close>

definition pick :: "string dict \<Rightarrow> string list \<Rightarrow> string dict result" where
  "pick d names = mapE (\<lambda>k. bindE (dict_item d k) (\<lambda>v. Inr (k, v))) names"

text \<open>\<open>d.get(k) or default()\<close>, \<open>d.get(k, default)\<close>.\<close>

definition get_or :: "string dict \<Rightarrow> string \<Rightarrow> (txs, json) tx \<Rightarrow> (txs, json) tx" where
  "get_or d k dflt = (case map_of d k of None \<Rightarrow> dflt | Some v \<Rightarrow> if truthy v then tret v else dflt)"

definition get_default :: "string dict \<Rightarrow> string \<Rightarrow> json \<Rightarrow> json" where
  "get_default d k v = (case map_of d k of None \<Rightarrow> v | Some w \<Rightarrow> w)"

text \<open>\<open>int(s)\<close> of a text of decimal digits with an optional sign. Surrounding blanks, digit separators and
  digits of other scripts, which Python reads too, are not texts that Core stores as numbers.\<close>

definition text_int :: "string \<Rightarrow> int option" where
  "text_int s =
     (let neg = (s \<noteq> [] \<and> hd s = CHR ''-'');
          ds = (if s \<noteq> [] \<and> (hd s = CHR ''-'' \<or> hd s = CHR ''+'') then tl s else s)
      in if ds \<noteq> [] \<and> list_all is_digit ds
         then Some ((if neg then -1 else 1) * int (digits_num (map (\<lambda>c. of_char c - 48) ds)))
         else None)"

text \<open>\<open>int(v)\<close>.\<close>

definition py_int :: "json \<Rightarrow> int result" where
  "py_int v = (case v of
      JInt i \<Rightarrow> Inr i
    | JBool b \<Rightarrow> Inr (if b then 1 else 0)
    | JFloat f \<Rightarrow> (case float_num f of
          Frac a b \<Rightarrow> Inr (sgn a * (\<bar>a\<bar> div b))
        | _ \<Rightarrow> Inl (ValueError ''cannot convert float to integer''))
    | JStr s \<Rightarrow> (case text_int s of None \<Rightarrow> Inl (ValueError ''invalid literal for int()'') | Some i \<Rightarrow> Inr i)
    | _ \<Rightarrow> Inl (TypeError ''int() argument''))"

text \<open>Binding a value to a \<open>TEXT\<close> or \<open>INTEGER\<close> parameter of a strict table. An \<open>INTEGER\<close> column
  takes what converts without loss to 64 bits. The values bound to \<open>TEXT\<close> columns are identifiers that the
  schemas restrict to texts.\<close>

definition bind_text :: "json \<Rightarrow> string result" where
  "bind_text v = (case v of JStr s \<Rightarrow> Inr s | _ \<Rightarrow> Inl (SqlError ''TEXT expected''))"

definition lossless_int :: "json \<Rightarrow> int option" where
  "lossless_int v = (case v of
      JInt i \<Rightarrow> Some i
    | JBool b \<Rightarrow> Some (if b then 1 else 0)
    | JFloat f \<Rightarrow> (case float_num f of Frac a b \<Rightarrow> if b dvd a then Some (a div b) else None | _ \<Rightarrow> None)
    | JStr s \<Rightarrow> text_int s
    | _ \<Rightarrow> None)"

definition bind_int :: "json \<Rightarrow> int result" where
  "bind_int v = (case lossless_int v of
      None \<Rightarrow> Inl (SqlError ''INTEGER expected'')
    | Some i \<Rightarrow> if - (2 ^ 63) \<le> i \<and> i < 2 ^ 63 then Inr i else Inl (SqlError ''integer overflow''))"

lemma float_num_pos: "float_num f = Frac a b \<Longrightarrow> 0 < b"
proof (cases f)
  case (PyFloat neg ds n)
  assume "float_num f = Frac a b"
  with PyFloat have "b = int (snd (nearest_double (digits_num ds * 10 ^ nat (n - int (length ds))) (10 ^ nat (- (n - int (length ds))))))"
    by (simp only: float_num_def pyfloat.case Let_def num.inject)
  moreover have "0 < snd (nearest_double x y)" for x y
    by (simp only: nearest_double_def Let_def snd_conv zero_less_power zero_less_numeral)
  ultimately show ?thesis by simp
qed (simp_all add: float_num_def)

lemma bind_int_py: "bind_int v = Inr n \<Longrightarrow> py_int v = Inr n"
proof -
  assume "bind_int v = Inr n"
  then have l: "lossless_int v = Some n" by (auto simp: bind_int_def split: option.splits if_splits)
  show ?thesis
  proof (cases v)
    case (JFloat f)
    with l obtain a b where f: "float_num f = Frac a b" "b dvd a" "n = a div b"
      by (auto simp: lossless_int_def split: num.splits if_splits)
    then have "a = b * n" "0 < b" using float_num_pos by auto
    then have "sgn a * (\<bar>a\<bar> div b) = n"
      by (simp add: sgn_mult abs_mult mult_sgn_abs)
    with JFloat f show ?thesis by (simp add: py_int_def)
  qed (use l in \<open>auto simp: lossless_int_def py_int_def\<close>)
qed

lemma bind_text_Inr [tx_simps]: "bind_text v = Inr s \<longleftrightarrow> v = JStr s"
  by (cases v) (auto simp: bind_text_def)

lemma validate_Inr [tx_simps]:
  "validate E v n = Inr u \<longleftrightarrow> validate_named (stack_depth E) (documents E) v n = Inr u"
  by (auto simp: validate_def split: sum.splits exc.splits)

section \<open>Constraints of the tables\<close>

definition marker_check :: "event_marker \<Rightarrow> bool" where
  "marker_check m = (1 \<le> mk_aggregate_version m \<and> length (mk_event_sha256 m) = 64 \<and> 1 \<le> mk_database_sequence m)"

definition objective_revision_check :: "db \<Rightarrow> objective_revision_row \<Rightarrow> bool" where
  "objective_revision_check d r =
     (1 \<le> or_revision r \<and> length (or_sha256 r) = 64 \<and>
      (\<forall>q \<in> set (objective_revisions d). or_objective_id q = or_objective_id r \<longrightarrow>
         or_revision q \<noteq> or_revision r \<and> or_sha256 q \<noteq> or_sha256 r))"

definition objective_check :: "db \<Rightarrow> objective_row \<Rightarrow> bool" where
  "objective_check d r =
     (marker_check (o_marker r) \<and> 1 \<le> o_revision r \<and> length (o_sha256 r) = 64 \<and>
      (\<exists>q \<in> set (objective_revisions d). or_objective_id q = o_objective_id r \<and> or_revision q = o_revision r))"

definition task_revision_check :: "db \<Rightarrow> task_revision_row \<Rightarrow> bool" where
  "task_revision_check d r =
     (1 \<le> tr_revision r \<and> length (tr_sha256 r) = 64 \<and>
      (\<forall>q \<in> set (task_revisions d). tr_task_id q = tr_task_id r \<longrightarrow>
         tr_revision q \<noteq> tr_revision r \<and> tr_sha256 q \<noteq> tr_sha256 r))"

definition task_check :: "db \<Rightarrow> task_row \<Rightarrow> bool" where
  "task_check d r =
     (marker_check (t_marker r) \<and> 1 \<le> t_revision r \<and> length (t_sha256 r) = 64 \<and>
      1 \<le> t_objective_revision r \<and> length (t_objective_sha256 r) = 64 \<and>
      0 \<le> t_attempt_count r \<and> 1 \<le> t_max_attempts r \<and>
      (\<exists>q \<in> set (task_revisions d). tr_task_id q = t_task_id r \<and> tr_revision q = t_revision r) \<and>
      (\<exists>q \<in> set (objective_revisions d). or_objective_id q = t_objective_id r \<and>
         or_revision q = t_objective_revision r))"

definition run_check :: "db \<Rightarrow> run_row \<Rightarrow> bool" where
  "run_check d r =
     (1 \<le> r_task_revision r \<and> 1 \<le> r_attempt_number r \<and> length (r_envelope_sha256 r) = 64 \<and>
      (case r_result_sha256 r of None \<Rightarrow> True | Some h \<Rightarrow> length h = 64) \<and>
      (\<exists>q \<in> set (tasks d). t_task_id q = r_task_id r))"

definition action_check :: "db \<Rightarrow> action_row \<Rightarrow> bool" where
  "action_check d r =
     (marker_check (a_marker r) \<and> 1 \<le> a_task_revision r \<and>
      (case a_provider_evidence_sha256 r of None \<Rightarrow> True | Some h \<Rightarrow> length h = 64) \<and>
      (\<exists>q \<in> set (tasks d). t_task_id q = a_task_id r) \<and>
      (\<exists>q \<in> set (runs d). r_run_id q = a_run_id r))"

section \<open>Statements\<close>

definition insert_objective_revision :: "objective_revision_row \<Rightarrow> db \<Rightarrow> db result" where
  "insert_objective_revision r d =
     bindE (sql (objective_revision_check d r) ''objective_revisions'' d) (\<lambda>d.
     Inr (d\<lparr>objective_revisions := objective_revisions d @ [r]\<rparr>))"

definition insert_objective :: "objective_row \<Rightarrow> db \<Rightarrow> db result" where
  "insert_objective r d =
     bindE (sql (objective_check d r \<and> (\<forall>q \<in> set (objectives d). o_objective_id q \<noteq> o_objective_id r))
       ''objectives'' d) (\<lambda>d.
     Inr (d\<lparr>objectives := objectives d @ [r]\<rparr>))"

definition update_objective :: "string \<Rightarrow> (objective_row \<Rightarrow> objective_row) \<Rightarrow> db \<Rightarrow> db result" where
  "update_objective i f d =
     bindE (sql (\<forall>q \<in> set (objectives d). o_objective_id q = i \<longrightarrow> objective_check d (f q)) ''objectives'' d) (\<lambda>d.
     Inr (d\<lparr>objectives := update_where (\<lambda>q. o_objective_id q = i) f (objectives d)\<rparr>))"

definition insert_task_revision :: "task_revision_row \<Rightarrow> db \<Rightarrow> db result" where
  "insert_task_revision r d =
     bindE (sql (task_revision_check d r) ''task_revisions'' d) (\<lambda>d.
     Inr (d\<lparr>task_revisions := task_revisions d @ [r]\<rparr>))"

definition insert_task :: "task_row \<Rightarrow> db \<Rightarrow> db result" where
  "insert_task r d =
     bindE (sql (task_check d r \<and> (\<forall>q \<in> set (tasks d). t_task_id q \<noteq> t_task_id r)) ''tasks'' d) (\<lambda>d.
     Inr (d\<lparr>tasks := tasks d @ [r]\<rparr>))"

definition update_task :: "string \<Rightarrow> (task_row \<Rightarrow> task_row) \<Rightarrow> db \<Rightarrow> db result" where
  "update_task i f d =
     bindE (sql (\<forall>q \<in> set (tasks d). t_task_id q = i \<longrightarrow> task_check d (f q)) ''tasks'' d) (\<lambda>d.
     Inr (d\<lparr>tasks := update_where (\<lambda>q. t_task_id q = i) f (tasks d)\<rparr>))"

definition insert_run :: "run_row \<Rightarrow> db \<Rightarrow> db result" where
  "insert_run r d =
     bindE (sql (run_check d r \<and> (\<forall>q \<in> set (runs d). r_run_id q \<noteq> r_run_id r)) ''runs'' d) (\<lambda>d.
     Inr (d\<lparr>runs := runs d @ [r]\<rparr>))"

definition update_run :: "(run_row \<Rightarrow> bool) \<Rightarrow> (run_row \<Rightarrow> run_row) \<Rightarrow> db \<Rightarrow> db result" where
  "update_run p f d =
     bindE (sql (\<forall>q \<in> set (runs d). p q \<longrightarrow> run_check d (f q)) ''runs'' d) (\<lambda>d.
     Inr (d\<lparr>runs := update_where p f (runs d)\<rparr>))"

definition insert_action :: "action_row \<Rightarrow> db \<Rightarrow> db result" where
  "insert_action r d =
     bindE (sql (action_check d r \<and> (\<forall>q \<in> set (actions d). a_action_id q \<noteq> a_action_id r \<and>
         a_operation_key q \<noteq> a_operation_key r)) ''actions'' d) (\<lambda>d.
     Inr (d\<lparr>actions := actions d @ [r]\<rparr>))"

definition update_action :: "string \<Rightarrow> (action_row \<Rightarrow> action_row) \<Rightarrow> db \<Rightarrow> db result" where
  "update_action i f d =
     bindE (sql (\<forall>q \<in> set (actions d). a_action_id q = i \<longrightarrow> action_check d (f q)) ''actions'' d) (\<lambda>d.
     Inr (d\<lparr>actions := update_where (\<lambda>q. a_action_id q = i) f (actions d)\<rparr>))"

section \<open>Lookups\<close>

definition find_objective :: "db \<Rightarrow> string \<Rightarrow> objective_row option" where
  "find_objective d i = List.find (\<lambda>r. o_objective_id r = i) (objectives d)"

definition find_task :: "db \<Rightarrow> string \<Rightarrow> task_row option" where
  "find_task d i = List.find (\<lambda>r. t_task_id r = i) (tasks d)"

definition find_run :: "db \<Rightarrow> string \<Rightarrow> run_row option" where
  "find_run d i = List.find (\<lambda>r. r_run_id r = i) (runs d)"

definition find_action :: "db \<Rightarrow> string \<Rightarrow> action_row option" where
  "find_action d i = List.find (\<lambda>r. a_action_id r = i) (actions d)"

definition find_task_revision :: "db \<Rightarrow> string \<Rightarrow> int \<Rightarrow> task_revision_row option" where
  "find_task_revision d i n = List.find (\<lambda>r. tr_task_id r = i \<and> tr_revision r = n) (task_revisions d)"

text \<open>\<open>SELECT * FROM runs WHERE task_id = ? ORDER BY attempt_number DESC LIMIT 1\<close>.\<close>

definition latest_run :: "db \<Rightarrow> string \<Rightarrow> run_row option" where
  "latest_run d i = max_row r_attempt_number (filter (\<lambda>r. r_task_id r = i) (runs d))"

definition found :: "exc \<Rightarrow> 'a option \<Rightarrow> 'a result" where
  "found e r = (case r of None \<Rightarrow> Inl e | Some a \<Rightarrow> Inr a)"

definition objective_row :: "string \<Rightarrow> (txs, objective_row) tx" where
  "objective_row i = tbind (select (\<lambda>d. find_objective d i)) (\<lambda>r. tlift (found (CoreError ''unknown objective'') r))"

definition task_row :: "string \<Rightarrow> (txs, task_row) tx" where
  "task_row i = tbind (select (\<lambda>d. find_task d i)) (\<lambda>r. tlift (found (CoreError ''unknown task'') r))"

definition run_row :: "string \<Rightarrow> (txs, run_row) tx" where
  "run_row i = tbind (select (\<lambda>d. find_run d i)) (\<lambda>r. tlift (found (CoreError ''unknown run'') r))"

definition action_row :: "string \<Rightarrow> (txs, action_row) tx" where
  "action_row i = tbind (select (\<lambda>d. find_action d i)) (\<lambda>r. tlift (found (CoreError ''unknown action'') r))"

definition task_revision :: "string \<Rightarrow> int \<Rightarrow> (txs, string dict) tx" where
  "task_revision i n =
     tbind (select (\<lambda>d. find_task_revision d i n)) (\<lambda>r.
     tbind (tlift (found (CoreError ''missing task revision'') r)) (\<lambda>row.
     tret (dict_of (tr_record row))))"

lemma found_Inr [tx_simps]: "found e r = Inr a \<longleftrightarrow> r = Some a"
  by (auto simp: found_def split: option.splits)

lemma row_Inr [tx_simps]:
  "objective_row i s = Inr (ro, s') \<longleftrightarrow> find_objective (tx_db s) i = Some ro \<and> s' = s"
  "task_row i s = Inr (rt, s') \<longleftrightarrow> find_task (tx_db s) i = Some rt \<and> s' = s"
  "run_row i s = Inr (rr, s') \<longleftrightarrow> find_run (tx_db s) i = Some rr \<and> s' = s"
  "action_row i s = Inr (ra, s') \<longleftrightarrow> find_action (tx_db s) i = Some ra \<and> s' = s"
  "task_revision i n s = Inr (v, s') \<longleftrightarrow>
     (\<exists>r. find_task_revision (tx_db s) i n = Some r \<and> v = dict_of (tr_record r)) \<and> s' = s"
  by (auto simp: objective_row_def task_row_def run_row_def action_row_def task_revision_def tx_simps)

lemma statement_Inr [tx_simps]:
  "insert_objective_revision r1 d = Inr d' \<longleftrightarrow>
     objective_revision_check d r1 \<and> d' = d\<lparr>objective_revisions := objective_revisions d @ [r1]\<rparr>"
  "insert_objective r2 d = Inr d' \<longleftrightarrow>
     objective_check d r2 \<and> (\<forall>q \<in> set (objectives d). o_objective_id q \<noteq> o_objective_id r2) \<and>
     d' = d\<lparr>objectives := objectives d @ [r2]\<rparr>"
  "update_objective i f2 d = Inr d' \<longleftrightarrow>
     (\<forall>q \<in> set (objectives d). o_objective_id q = i \<longrightarrow> objective_check d (f2 q)) \<and>
     d' = d\<lparr>objectives := update_where (\<lambda>q. o_objective_id q = i) f2 (objectives d)\<rparr>"
  "insert_task_revision r3 d = Inr d' \<longleftrightarrow>
     task_revision_check d r3 \<and> d' = d\<lparr>task_revisions := task_revisions d @ [r3]\<rparr>"
  "insert_task r4 d = Inr d' \<longleftrightarrow>
     task_check d r4 \<and> (\<forall>q \<in> set (tasks d). t_task_id q \<noteq> t_task_id r4) \<and> d' = d\<lparr>tasks := tasks d @ [r4]\<rparr>"
  "update_task i f4 d = Inr d' \<longleftrightarrow>
     (\<forall>q \<in> set (tasks d). t_task_id q = i \<longrightarrow> task_check d (f4 q)) \<and>
     d' = d\<lparr>tasks := update_where (\<lambda>q. t_task_id q = i) f4 (tasks d)\<rparr>"
  "insert_run r5 d = Inr d' \<longleftrightarrow>
     run_check d r5 \<and> (\<forall>q \<in> set (runs d). r_run_id q \<noteq> r_run_id r5) \<and> d' = d\<lparr>runs := runs d @ [r5]\<rparr>"
  "update_run p5 f5 d = Inr d' \<longleftrightarrow>
     (\<forall>q \<in> set (runs d). p5 q \<longrightarrow> run_check d (f5 q)) \<and> d' = d\<lparr>runs := update_where p5 f5 (runs d)\<rparr>"
  "insert_action r6 d = Inr d' \<longleftrightarrow>
     action_check d r6 \<and> (\<forall>q \<in> set (actions d). a_action_id q \<noteq> a_action_id r6 \<and> a_operation_key q \<noteq> a_operation_key r6) \<and>
     d' = d\<lparr>actions := actions d @ [r6]\<rparr>"
  "update_action i f6 d = Inr d' \<longleftrightarrow>
     (\<forall>q \<in> set (actions d). a_action_id q = i \<longrightarrow> action_check d (f6 q)) \<and>
     d' = d\<lparr>actions := update_where (\<lambda>q. a_action_id q = i) f6 (actions d)\<rparr>"
  by (auto simp: insert_objective_revision_def insert_objective_def update_objective_def insert_task_revision_def
      insert_task_def update_task_def insert_run_def update_run_def insert_action_def update_action_def tx_simps)

section \<open>What a call does to the database\<close>

text \<open>An operation took effect: it returned \<open>res\<close> in a transaction that started from \<open>d\<close> at some tick, and
  its result was recorded.\<close>

definition took_effect :: "(txs, json) tx \<Rightarrow> db \<Rightarrow> json \<Rightarrow> db \<Rightarrow> bool" where
  "took_effect op d res d' \<longleftrightarrow> (\<exists>s s' r. tx_db s = d \<and> op s = Inr (res, s') \<and>
     d' = tx_db s'\<lparr>command_dedup := command_dedup (tx_db s') @ [r]\<rparr>)"

lemma command_body_effect:
  assumes "command_body E key h op s0 = Inr ((res, replayed), s1)"
  shows "if replayed then tx_db s1 = tx_db s0 else took_effect op (tx_db s0) res (tx_db s1)"
proof (cases replayed)
  case True
  with assms show ?thesis by (auto simp: command_body_def tx_simps split: option.splits)
next
  case False
  with assms obtain s' r where s: "op (s0\<lparr>tick := Suc (tick s0)\<rparr>) = Inr (res, s')"
    and r: "insert_dedup r (tx_db s') = Inr (tx_db s1)"
    by (auto simp: command_body_def tx_simps split: option.splits)
  then have "tx_db s1 = tx_db s'\<lparr>command_dedup := command_dedup (tx_db s') @ [r]\<rparr>"
    by (auto simp: insert_dedup_def tx_simps)
  moreover have "tx_db (s0\<lparr>tick := Suc (tick s0)\<rparr>) = tx_db s0" by simp
  ultimately show ?thesis using s False unfolding took_effect_def by metis
qed

lemma command_effect:
  assumes "command E key cmd op d = (out, d')"
  shows "d' = d \<or> (\<exists>res. took_effect op d res d')"
proof -
  consider "d' = d"
    | h res replayed s where "command_body E key h op \<lparr>tx_db = d, tick = 1\<rparr> = Inr ((res, replayed), s)" "d' = tx_db s"
    using assms by (auto simp: command_def split: sum.splits if_splits)
  then show ?thesis
  proof cases
    case 2
    with command_body_effect [OF 2(1)] show ?thesis by (cases replayed) auto
  qed simp
qed

lemma run_command_effect:
  assumes "run_command E key cmd op d = (out, d')"
  shows "d' = d \<or> (\<exists>res. took_effect op d res d')"
  using assms command_effect [of E key cmd op d] by (auto simp: run_command_def split: prod.splits sum.splits)

lemma run_command_returns:
  assumes "run_command E key cmd op d = (Inr v, d')" and "\<forall>r \<in> set (command_dedup d). dd_key r \<noteq> key"
  obtains s s' r where "tx_db s = d" and "tick s = 2" and "op s = Inr (v, s')"
    and "d' = tx_db s'\<lparr>command_dedup := command_dedup (tx_db s') @ [r]\<rparr>"
proof -
  have none: "List.find (\<lambda>r. dd_key r = key) (command_dedup d) = None"
    using assms(2) by (simp add: find_None_iff_all)
  from assms(1) obtain h replayed s1 where
    b: "command_body E key h op \<lparr>tx_db = d, tick = 1\<rparr> = Inr ((v, replayed), s1)" "d' = tx_db s1"
    by (auto simp: run_command_def command_def split: sum.splits if_splits prod.splits)
  from b(1) none obtain s' r where "op \<lparr>tx_db = d, tick = 2\<rparr> = Inr (v, s')"
    and r: "insert_dedup r (tx_db s') = Inr (tx_db s1)"
    by (auto simp: command_body_def tx_simps numeral_2_eq_2)
  with b that [of "\<lparr>tx_db = d, tick = 2\<rparr>" s' r] show ?thesis
    by (auto simp: insert_dedup_def tx_simps)
qed

lemma checked_effect:
  "checked pre f d = (out, d') \<Longrightarrow> d' = d \<or> (\<exists>a. pre = Inr a \<and> f a d = (out, d'))"
  by (auto simp: checked_def split: sum.splits)

lemma checked_returns:
  "checked pre f d = (Inr v, d') \<longleftrightarrow> (\<exists>a. pre = Inr a \<and> f a d = (Inr v, d'))"
  by (auto simp: checked_def split: sum.splits)

lemma expect_version_Inr [tx_simps]:
  "expect_version ''objectives'' i n s = Inr (m, s') \<longleftrightarrow> m = n \<and> s' = s \<and>
     n = (case map_of (map (\<lambda>r. (o_objective_id r, mk_aggregate_version (o_marker r))) (objectives (tx_db s))) i of
       None \<Rightarrow> 0 | Some v \<Rightarrow> v)"
  "expect_version ''tasks'' i n s = Inr (m, s') \<longleftrightarrow> m = n \<and> s' = s \<and>
     n = (case map_of (map (\<lambda>r. (t_task_id r, mk_aggregate_version (t_marker r))) (tasks (tx_db s))) i of
       None \<Rightarrow> 0 | Some v \<Rightarrow> v)"
  "expect_version ''actions'' i n s = Inr (m, s') \<longleftrightarrow> m = n \<and> s' = s \<and>
     n = (case map_of (map (\<lambda>r. (a_action_id r, mk_aggregate_version (a_marker r))) (actions (tx_db s))) i of
       None \<Rightarrow> 0 | Some v \<Rightarrow> v)"
  by (auto simp: expect_version_def current_version_def aggregate_versions_def tx_simps)

lemma map_of_find: "map_of (map (\<lambda>r. (k r, v r)) rs) i = map_option v (List.find (\<lambda>r. k r = i) rs)"
  by (induction rs) auto

lemma expect_version_find:
  "find_objective d i = Some ro \<Longrightarrow>
     map_of (map (\<lambda>r. (o_objective_id r, mk_aggregate_version (o_marker r))) (objectives d)) i = Some (mk_aggregate_version (o_marker ro))"
  "find_task d i = Some rt \<Longrightarrow>
     map_of (map (\<lambda>r. (t_task_id r, mk_aggregate_version (t_marker r))) (tasks d)) i = Some (mk_aggregate_version (t_marker rt))"
  "find_action d i = Some ra \<Longrightarrow>
     map_of (map (\<lambda>r. (a_action_id r, mk_aggregate_version (a_marker r))) (actions d)) i = Some (mk_aggregate_version (a_marker ra))"
  by (simp_all add: map_of_find find_objective_def find_task_def find_action_def)

end
