(* ===== verification/Projection.thy ===== *)
theory Projection
  imports CoreBase
begin

text \<open>
  The contract between the event log and the three tables that project it: every row carries the marker
  of the latest event of its aggregate, every aggregate of the table's kind has a row, and no two rows
  share an identifier. A table is a way to read rows, their identifier and their marker off a database; the
  locale states what that reading must not depend on, its lemmas say what appending an event and changing
  rows does to the contract, and the three tables of Core are its interpretations.
\<close>

section \<open>The log grows by one event\<close>

definition versions_positive :: "db \<Rightarrow> bool" where
  "versions_positive d \<longleftrightarrow> (\<forall>e \<in> set (events d). 1 \<le> ev_aggregate_version e)"

lemma follows_simps:
  assumes "follows E key a d e"
  shows "ev_aggregate_id e = aggregate_id a" and "ev_aggregate_type e = aggregate_type a"
    and "ev_event_type e = event_type a" and "ev_aggregate_version e = aggregate_version a"
    and "ev_payload e = norm (payload a)" and "1 \<le> ev_aggregate_version e"
    and "length (ev_event_sha256 e) = 64"
  using assms by (auto simp: follows_def Let_def insert_event_def tx_simps)

lemma follows_sequence:
  assumes "follows E key a d e"
  shows "ev_aggregate_sequence e =
    (case latest_event d (aggregate_id a) of None \<Rightarrow> 0 | Some p \<Rightarrow> ev_aggregate_sequence p) + 1"
  using assms by (simp add: follows_def Let_def)

lemma follows_latest:
  assumes "follows E key a d e"
  shows "latest_event (push_event e d) i = (if i = aggregate_id a then Some e else latest_event d i)"
proof (cases "i = aggregate_id a")
  case True
  let ?c = "filter (\<lambda>r. ev_aggregate_id r = i) (events d)"
  have id: "ev_aggregate_id e = i" using follows_simps [OF assms] True by simp
  have "\<forall>q \<in> set ?c. ev_aggregate_sequence q < ev_aggregate_sequence e"
  proof (cases "max_row ev_aggregate_sequence ?c")
    case (Some p)
    have "\<forall>q \<in> set ?c. ev_aggregate_sequence q \<le> ev_aggregate_sequence p" using max_row_Some [OF Some] by simp
    moreover have "ev_aggregate_sequence e = ev_aggregate_sequence p + 1"
      using follows_sequence [OF assms] Some True by (simp add: latest_event_def)
    ultimately show ?thesis by force
  qed simp
  then show ?thesis using True id by (simp add: latest_event_def max_row_snoc)
next
  case False
  then show ?thesis using follows_simps [OF assms] by (simp add: latest_event_def)
qed

lemma follows_version:
  assumes "follows E key a d e"
  shows "ev_aggregate_version e =
    (case latest_event d (aggregate_id a) of None \<Rightarrow> 0 | Some p \<Rightarrow> ev_aggregate_version p) + 1"
  using assms by (simp add: follows_def Let_def)

lemma latest_event_mem: "latest_event d i = Some e \<Longrightarrow> e \<in> set (events d) \<and> ev_aggregate_id e = i"
  using max_row_Some by (fastforce simp: latest_event_def)

lemma latest_event_None: "latest_event d i = None \<longleftrightarrow> (\<forall>e \<in> set (events d). ev_aggregate_id e \<noteq> i)"
  by (auto simp: latest_event_def filter_empty_conv)

lemma follows_first:
  assumes "follows E key a d e" and "versions_positive d" and "aggregate_version a = 1"
  shows "latest_event d (aggregate_id a) = None"
proof (cases "latest_event d (aggregate_id a)")
  case (Some p)
  then have "1 \<le> ev_aggregate_version p" using assms(2) latest_event_mem by (auto simp: versions_positive_def)
  moreover have "ev_aggregate_version p + 1 = 1"
    using follows_version [OF assms(1)] follows_simps(4) [OF assms(1)] Some assms(3) by simp
  ultimately show ?thesis by simp
qed simp

lemma versions_positive_push: "follows E key a d e \<Longrightarrow> versions_positive d \<Longrightarrow> versions_positive (push_event e d)"
  using follows_simps(6) by (fastforce simp: versions_positive_def)

lemma append_event_D:
  assumes "append_event E key a s = Inr (m, s')"
  shows "\<exists>e. follows E key a (tx_db s) e \<and> m = marker_of e \<and>
    s' = s\<lparr>tx_db := push_event e (tx_db s), tick := tick s + 3\<rparr>"
proof -
  obtain e where "follows E key a (tx_db s) e" "m = marker_of e" "tx_db s' = push_event e (tx_db s)" "tick s' = tick s + 3"
    by (rule append_event_Inr [OF assms])
  then show ?thesis by (intro exI [of _ e]) simp
qed

lemma marker_version [simp]:
  "follows E key a d e \<Longrightarrow> aggregate_version a = v \<Longrightarrow> marker_of e\<lparr>mk_aggregate_version := v\<rparr> = marker_of e"
  by (simp add: marker_of_def follows_simps)

lemma get_or_mint_D:
  "get_or fs k (tbind (mint E kind) (\<lambda>i. tret (JStr i))) s = Inr (v, s') \<Longrightarrow>
   \<exists>n. s' = s\<lparr>tick := n\<rparr>"
  by (auto simp: get_or_def tx_simps split: option.splits if_splits intro: exI [of _ "tick s"])

section \<open>The contract of a projection table\<close>

definition tracks ::
  "(db \<Rightarrow> 'r list) \<Rightarrow> ('r \<Rightarrow> string) \<Rightarrow> ('r \<Rightarrow> event_marker) \<Rightarrow> string \<Rightarrow> db \<Rightarrow> bool" where
  "tracks rows key mark kind d \<longleftrightarrow>
     distinct (map key (rows d)) \<and>
     (\<forall>r \<in> set (rows d). \<exists>e. latest_event d (key r) = Some e \<and> mark r = marker_of e \<and> ev_aggregate_type e = kind) \<and>
     (\<forall>e \<in> set (events d). ev_aggregate_type e = kind \<longrightarrow> ev_aggregate_id e \<in> key ` set (rows d))"

text \<open>Two databases that a table and the log cannot tell apart.\<close>

definition same_table :: "(db \<Rightarrow> 'r list) \<Rightarrow> db \<Rightarrow> db \<Rightarrow> bool" where
  "same_table rows d d' \<longleftrightarrow> rows d' = rows d \<and> events d' = events d"

locale projection_table =
  fixes rows :: "db \<Rightarrow> 'r list" and key :: "'r \<Rightarrow> string" and mark :: "'r \<Rightarrow> event_marker" and kind :: string
  assumes rows_push: "rows (push_event e d) = rows d"
begin

lemma same: "tracks rows key mark kind d \<Longrightarrow> same_table rows d d' \<Longrightarrow> tracks rows key mark kind d'"
  by (simp add: tracks_def same_table_def latest_event_def)

lemma row_event:
  assumes "tracks rows key mark kind d" and "r \<in> set (rows d)"
  obtains e where "latest_event d (key r) = Some e" and "mark r = marker_of e" and "ev_aggregate_type e = kind"
  using assms unfolding tracks_def by blast

lemma row_kind:
  assumes "tracks rows key mark kind d" and "latest_event d i = Some e" and "ev_aggregate_type e \<noteq> kind"
  shows "i \<notin> key ` set (rows d)"
proof
  assume "i \<in> key ` set (rows d)"
  then obtain r where "r \<in> set (rows d)" "key r = i" by auto
  with row_event [OF assms(1), of r] assms(2, 3) show False by auto
qed

lemma insert_row:
  assumes t: "tracks rows key mark kind d" and f: "follows E k a d e" and v: "versions_positive d"
    and one: "aggregate_version a = 1" and kd: "aggregate_type a = kind"
    and d': "rows d' = rows d @ [r]" "events d' = events d @ [e]"
    and r: "key r = aggregate_id a" "mark r = marker_of e"
  shows "tracks rows key mark kind d'"
proof -
  have none: "latest_event d (aggregate_id a) = None" by (rule follows_first [OF f v one])
  have ev: "latest_event d' i = (if i = aggregate_id a then Some e else latest_event d i)" for i
    using follows_latest [OF f, of i] d' by (simp add: latest_event_def)
  have fresh: "aggregate_id a \<notin> key ` set (rows d)"
    using t none by (auto simp: tracks_def)
  then have neq: "key q \<noteq> aggregate_id a" if "q \<in> set (rows d)" for q using that by force
  show ?thesis
    unfolding tracks_def
  proof (intro conjI ballI impI)
    show "distinct (map key (rows d'))" using t fresh d' r by (auto simp: tracks_def)
    show "\<exists>e. latest_event d' (key q) = Some e \<and> mark q = marker_of e \<and> ev_aggregate_type e = kind"
      if q: "q \<in> set (rows d')" for q
      using q t neq d' r follows_simps(2) [OF f] kd by (auto simp: ev tracks_def)
    show "ev_aggregate_id q \<in> key ` set (rows d')" if "q \<in> set (events d')" "ev_aggregate_type q = kind" for q
      using that t d' r follows_simps [OF f] by (auto simp: tracks_def)
  qed
qed

lemma update_row:
  assumes t: "tracks rows key mark kind d" and f: "follows E k a d e" and kd: "aggregate_type a = kind"
    and d': "rows d' = update_where (\<lambda>r. key r = aggregate_id a) g (rows d)" "events d' = events d @ [e]"
    and g: "\<And>r. key r = aggregate_id a \<Longrightarrow> key (g r) = aggregate_id a \<and> mark (g r) = marker_of e"
    and some: "aggregate_id a \<in> key ` set (rows d)"
  shows "tracks rows key mark kind d'"
proof -
  have ev: "latest_event d' i = (if i = aggregate_id a then Some e else latest_event d i)" for i
    using follows_latest [OF f, of i] d' by (simp add: latest_event_def)
  have keys: "map key (rows d') = map key (rows d)"
    unfolding d'(1) update_where_def using g by auto
  have ks: "key ` set (rows d') = key ` set (rows d)" using arg_cong [OF keys, of set] by simp
  show ?thesis
    unfolding tracks_def keys ks
  proof (intro conjI ballI impI)
    show "distinct (map key (rows d))" using t by (simp add: tracks_def)
    show "\<exists>e. latest_event d' (key q) = Some e \<and> mark q = marker_of e \<and> ev_aggregate_type e = kind"
      if q: "q \<in> set (rows d')" for q
    proof -
      from q obtain r where r: "r \<in> set (rows d)" "(key r = aggregate_id a \<and> q = g r) \<or> (key r \<noteq> aggregate_id a \<and> q = r)"
        unfolding d'(1) set_update_where by blast
      with g t follows_simps [OF f] kd show ?thesis by (auto simp: ev tracks_def)
    qed
    show "ev_aggregate_id q \<in> key ` set (rows d)" if "q \<in> set (events d')" "ev_aggregate_type q = kind" for q
      using that t d' some follows_simps [OF f] by (auto simp: tracks_def)
  qed
qed

lemma other_event:
  assumes t: "tracks rows key mark kind d" and f: "follows E k a d e" and kd: "aggregate_type a \<noteq> kind"
    and d': "rows d' = rows d" "events d' = events d @ [e]"
    and other: "aggregate_id a \<notin> key ` set (rows d)"
  shows "tracks rows key mark kind d'"
proof -
  have ev: "latest_event d' i = (if i = aggregate_id a then Some e else latest_event d i)" for i
    using follows_latest [OF f, of i] d' by (simp add: latest_event_def)
  have neq: "key q \<noteq> aggregate_id a" if "q \<in> set (rows d)" for q using that other by force
  show ?thesis
    using t neq follows_simps(1, 2) [OF f] kd by (auto simp: tracks_def ev d')
qed

end

text \<open>The tables of Core keep the contract.\<close>

interpretation ot: projection_table objectives o_objective_id o_marker "''objective''"
  by unfold_locales simp

interpretation tt: projection_table tasks t_task_id t_marker "''task''"
  by unfold_locales simp

interpretation at: projection_table actions a_action_id a_marker "''action''"
  by unfold_locales simp

interpretation mt: projection_table memory_records m_memory_id m_marker "''memory''"
  by unfold_locales simp

definition projections_ok :: "db \<Rightarrow> bool" where
  "projections_ok d \<longleftrightarrow> versions_positive d \<and>
     tracks objectives o_objective_id o_marker ''objective'' d \<and>
     tracks tasks t_task_id t_marker ''task'' d \<and>
     tracks actions a_action_id a_marker ''action'' d \<and>
     tracks memory_records m_memory_id m_marker ''memory'' d"

end
