(* ===== verification/Objectives.thy ===== *)
theory Objectives
  imports Projection
begin

text \<open>
  The objective operations of \<open>src/city2core/core.py\<close>: \<open>create_objective\<close>,
  \<open>set_objective_status\<close>, \<open>revise_objective\<close> and \<open>objective\<close>. An objective is a row of
  \<open>objectives\<close> with its latest record, and one row of \<open>objective_revisions\<close> per revision.
\<close>

section \<open>Creation\<close>

definition objective_profile_excluded :: "string list" where
  "objective_profile_excluded = [''aggregate_version'', ''objective_sha256'', ''status'']"

definition create_objective_required :: "string list" where
  "create_objective_required =
     [''title'', ''intent'', ''accountable_owner'', ''review_at'', ''measurable_outcomes'',
      ''stop_conditions'', ''authority_ceiling'', ''budget'']"

text \<open>The record before its digest is filled in.\<close>

definition objective_record :: "string dict \<Rightarrow> string \<Rightarrow> string \<Rightarrow> json \<Rightarrow> string dict result" where
  "objective_record fs act now oid =
     bindE (pick fs [''title'', ''intent'']) (\<lambda>head.
     bindE (pick fs [''accountable_owner'']) (\<lambda>owner.
     bindE (pick fs [''review_at'', ''measurable_outcomes'', ''stop_conditions'', ''authority_ceiling'', ''budget'']) (\<lambda>rest.
     Inr ([(''schema_version'', JStr ''city2.objective/v1''),
           (''objective_id'', oid),
           (''aggregate_version'', JInt 1),
           (''objective_revision'', JInt 1),
           (''objective_sha256'', JStr [])] @ head @
          [(''created_by'', JStr act)] @ owner @
          [(''created_at'', get_default fs ''created_at'' (JStr now))] @ rest @
          [(''status'', JStr ''proposed'')]))))"

definition create_objective_op :: "env \<Rightarrow> string \<Rightarrow> string dict \<Rightarrow> string \<Rightarrow> (txs, json) tx" where
  "create_objective_op E key fs act =
     tbind (utc_now E) (\<lambda>now.
     tbind (get_or fs ''objective_id'' (tbind (mint E ''objective'') (\<lambda>i. tret (JStr i)))) (\<lambda>oid.
     tbind (tlift (objective_record fs act now oid)) (\<lambda>draft.
     tbind (tlift (digest_profile E draft objective_profile_excluded)) (\<lambda>digest.
     (let record = dict_set ''objective_sha256'' (JStr digest) draft in
     tbind (tlift (validate E (JObj record) ''objective.schema.json'')) (\<lambda>_.
     tbind (tlift (bind_text oid)) (\<lambda>objective_id.
     tbind (expect_version ''objectives'' objective_id 0) (\<lambda>_.
     tbind (append_event E key
        \<lparr>aggregate_type = ''objective'', aggregate_id = objective_id, event_type = ''objective.created'',
         aggregate_version = 1, actor = act, payload = JObj [(''objective'', JObj record)],
         sensitivity = ''internal'', occurred_at = None\<rparr>) (\<lambda>marker.
     tbind (tlift (canonical (JObj record))) (\<lambda>record_json.
     tbind (execute (insert_objective_revision
        \<lparr>or_objective_id = objective_id, or_revision = 1, or_sha256 = digest, or_record = record_json,
         or_created_at = now\<rparr>)) (\<lambda>_.
     tbind (execute (insert_objective
        \<lparr>o_objective_id = objective_id, o_marker = marker, o_revision = 1, o_sha256 = digest,
         o_status = Proposed, o_record = record_json, o_updated_at = now\<rparr>)) (\<lambda>_.
     tbind (projection_updated E) (\<lambda>_.
     tret (JObj record))))))))))))))"

definition create_objective :: "env \<Rightarrow> string dict \<Rightarrow> string \<Rightarrow> string \<Rightarrow> call" where
  "create_objective E fs act key =
     checked (required fs create_objective_required) (\<lambda>_.
     run_command E key
       (JObj [(''command'', JStr ''create_objective''), (''fields'', JObj fs), (''actor'', JStr act)])
       (create_objective_op E key fs act))"

section \<open>Status\<close>

text \<open>The table \<open>allowed\<close> of \<open>set_objective_status\<close>; no entry for a terminal status.\<close>

fun allowed_status :: "objective_status \<Rightarrow> objective_status list" where
  "allowed_status Proposed = [Active, Cancelled]"
| "allowed_status Active = [Paused, Completed, Cancelled, Superseded]"
| "allowed_status Paused = [Active, Cancelled, Superseded]"
| "allowed_status s = []"

definition set_objective_status_op :: "env \<Rightarrow> string \<Rightarrow> string \<Rightarrow> string \<Rightarrow> int \<Rightarrow> string \<Rightarrow> (txs, json) tx" where
  "set_objective_status_op E key objective_id status expected_version act =
     tbind (expect_version ''objectives'' objective_id expected_version) (\<lambda>_.
     tbind (objective_row objective_id) (\<lambda>row.
     tbind (tlift (found (CoreError ''objective transition is not allowed'')
        (List.find (\<lambda>s. objective_status_text s = status) (allowed_status (o_status row))))) (\<lambda>new.
     (let record = dict_merge (dict_of (o_record row))
        [(''aggregate_version'', JInt (expected_version + 1)), (''status'', JStr status)] in
     tbind (tlift (validate E (JObj record) ''objective.schema.json'')) (\<lambda>_.
     tbind (append_event E key
        \<lparr>aggregate_type = ''objective'', aggregate_id = objective_id, event_type = ''objective.'' @ status,
         aggregate_version = expected_version + 1, actor = act,
         payload = JObj [(''from'', JStr (objective_status_text (o_status row))), (''to'', JStr status)],
         sensitivity = ''internal'', occurred_at = None\<rparr>) (\<lambda>marker.
     tbind (tlift (canonical (JObj record))) (\<lambda>record_json.
     tbind (utc_now E) (\<lambda>now.
     tbind (execute (update_objective objective_id
        (\<lambda>r. r\<lparr>o_marker := marker\<lparr>mk_aggregate_version := expected_version + 1\<rparr>, o_status := new,
                o_record := record_json, o_updated_at := now\<rparr>))) (\<lambda>_.
     tbind (projection_updated E) (\<lambda>_.
     tret (JObj record)))))))))))"

definition set_objective_status :: "env \<Rightarrow> string \<Rightarrow> string \<Rightarrow> int \<Rightarrow> string \<Rightarrow> string \<Rightarrow> call" where
  "set_objective_status E objective_id status expected_version act key =
     run_command E key
       (JObj [(''command'', JStr ''set_objective_status''), (''objective_id'', JStr objective_id),
              (''status'', JStr status), (''expected_version'', JInt expected_version), (''actor'', JStr act)])
       (set_objective_status_op E key objective_id status expected_version act)"

section \<open>Revision\<close>

definition objective_permitted :: "string list" where
  "objective_permitted =
     [''title'', ''intent'', ''accountable_owner'', ''review_at'', ''measurable_outcomes'',
      ''stop_conditions'', ''authority_ceiling'', ''budget'']"

definition revise_check :: "string list \<Rightarrow> string dict \<Rightarrow> unit result" where
  "revise_check permitted updates =
     bindE (guardE (list_all (\<lambda>p. fst p \<in> set permitted) updates)
       (CoreError ''revision contains immutable/unknown fields'')) (\<lambda>_.
     guardE (updates \<noteq> []) (CoreError ''revision requires at least one change''))"

definition revise_objective_op :: "env \<Rightarrow> string \<Rightarrow> string \<Rightarrow> string dict \<Rightarrow> int \<Rightarrow> string \<Rightarrow> (txs, json) tx" where
  "revise_objective_op E key objective_id updates expected_version act =
     tbind (expect_version ''objectives'' objective_id expected_version) (\<lambda>_.
     tbind (objective_row objective_id) (\<lambda>row.
     tbind (tguard (o_status row \<notin> {Completed, Cancelled, Superseded})
        (CoreError ''terminal objectives cannot be revised'')) (\<lambda>_.
     (let revision_number = o_revision row + 1;
          draft = dict_merge (dict_merge (dict_of (o_record row)) updates)
            [(''aggregate_version'', JInt (expected_version + 1)),
             (''objective_revision'', JInt revision_number),
             (''objective_sha256'', JStr []),
             (''supersedes'', JObj [(''objective_id'', JStr objective_id),
                (''objective_revision'', JInt (o_revision row)), (''objective_sha256'', JStr (o_sha256 row))])] in
     tbind (tlift (digest_profile E draft objective_profile_excluded)) (\<lambda>digest.
     (let record = dict_set ''objective_sha256'' (JStr digest) draft in
     tbind (tlift (validate E (JObj record) ''objective.schema.json'')) (\<lambda>_.
     tbind (tguard (digest \<noteq> o_sha256 row)
        (CoreError ''objective revision does not change the immutable profile'')) (\<lambda>_.
     tbind (utc_now E) (\<lambda>now.
     tbind (append_event E key
        \<lparr>aggregate_type = ''objective'', aggregate_id = objective_id, event_type = ''objective.revised'',
         aggregate_version = expected_version + 1, actor = act,
         payload = JObj [(''objective_revision'', JInt revision_number), (''objective_sha256'', JStr digest),
            (''supersedes_revision'', JInt (o_revision row))],
         sensitivity = ''internal'', occurred_at = None\<rparr>) (\<lambda>marker.
     tbind (tlift (canonical (JObj record))) (\<lambda>record_json.
     tbind (execute (insert_objective_revision
        \<lparr>or_objective_id = objective_id, or_revision = revision_number, or_sha256 = digest,
         or_record = record_json, or_created_at = now\<rparr>)) (\<lambda>_.
     tbind (execute (update_objective objective_id
        (\<lambda>r. r\<lparr>o_marker := marker\<lparr>mk_aggregate_version := expected_version + 1\<rparr>, o_revision := revision_number,
                o_sha256 := digest, o_record := record_json, o_updated_at := now\<rparr>))) (\<lambda>_.
     tbind (projection_updated E) (\<lambda>_.
     tret (JObj record)))))))))))))))"

definition revise_objective :: "env \<Rightarrow> string \<Rightarrow> string dict \<Rightarrow> int \<Rightarrow> string \<Rightarrow> string \<Rightarrow> call" where
  "revise_objective E objective_id updates expected_version act key =
     checked (revise_check objective_permitted updates) (\<lambda>_.
     run_command E key
       (JObj [(''command'', JStr ''revise_objective''), (''objective_id'', JStr objective_id),
              (''updates'', JObj updates), (''expected_version'', JInt expected_version), (''actor'', JStr act)])
       (revise_objective_op E key objective_id updates expected_version act))"

text \<open>\<open>Core.objective\<close>.\<close>

definition get_objective :: "db \<Rightarrow> string \<Rightarrow> json result" where
  "get_objective d objective_id =
     bindE (found (CoreError ''unknown objective'') (find_objective d objective_id)) (\<lambda>r. Inr (o_record r))"

section \<open>What the operations do\<close>

definition objective_args :: "string \<Rightarrow> string \<Rightarrow> int \<Rightarrow> string \<Rightarrow> json \<Rightarrow> event_args" where
  "objective_args i ty v act p = \<lparr>aggregate_type = ''objective'', aggregate_id = i, event_type = ty,
     aggregate_version = v, actor = act, payload = p, sensitivity = ''internal'', occurred_at = None\<rparr>"

lemma create_objective_effect:
  assumes "create_objective_op E key fs act s = Inr (res, s')"
  shows "\<exists>oid digest record_json now draft e p.
    follows E key (objective_args oid ''objective.created'' 1 act p) (tx_db s) e \<and>
    objective_record fs act now (JStr oid) = Inr draft \<and>
    digest_profile E draft objective_profile_excluded = Inr digest \<and>
    record_json = norm (JObj (dict_set ''objective_sha256'' (JStr digest) draft)) \<and>
    (\<forall>q \<in> set (objectives (tx_db s)). o_objective_id q \<noteq> oid) \<and>
    res = JObj (dict_set ''objective_sha256'' (JStr digest) draft) \<and>
    tx_db s' = (push_event e (tx_db s))
      \<lparr>objective_revisions := objective_revisions (tx_db s) @
         [\<lparr>or_objective_id = oid, or_revision = 1, or_sha256 = digest, or_record = record_json, or_created_at = now\<rparr>],
       objectives := objectives (tx_db s) @
         [\<lparr>o_objective_id = oid, o_marker = marker_of e, o_revision = 1, o_sha256 = digest,
           o_status = Proposed, o_record = record_json, o_updated_at = now\<rparr>]\<rparr>"
  using assms unfolding objective_args_def
  by (auto simp: create_objective_op_def Let_def tx_simps projection_updated_def
      dest!: get_or_mint_D append_event_D canonical_Inr) blast

lemma set_objective_status_effect:
  assumes "set_objective_status_op E key i status v act s = Inr (res, s')"
  shows "\<exists>row new record_json now e p.
    find_objective (tx_db s) i = Some row \<and> mk_aggregate_version (o_marker row) = v \<and>
    new \<in> set (allowed_status (o_status row)) \<and> objective_status_text new = status \<and>
    follows E key (objective_args i (''objective.'' @ status) (v + 1) act p) (tx_db s) e \<and>
    record_json = norm (JObj (dict_merge (dict_of (o_record row))
        [(''aggregate_version'', JInt (v + 1)), (''status'', JStr status)])) \<and>
    tx_db s' = (push_event e (tx_db s))
      \<lparr>objectives := update_where (\<lambda>q. o_objective_id q = i)
         (\<lambda>r. r\<lparr>o_marker := marker_of e, o_status := new, o_record := record_json, o_updated_at := now\<rparr>)
         (objectives (tx_db s))\<rparr>"
  using assms unfolding objective_args_def
  by (auto simp: set_objective_status_op_def Let_def tx_simps projection_updated_def expect_version_find
      dest!: append_event_D canonical_Inr) (blast dest: find_Some_iff)

lemma revise_objective_effect:
  assumes "revise_objective_op E key i updates v act s = Inr (res, s')"
  shows "\<exists>row draft digest record_json now e p.
    find_objective (tx_db s) i = Some row \<and> mk_aggregate_version (o_marker row) = v \<and>
    o_status row \<notin> {Completed, Cancelled, Superseded} \<and>
    follows E key (objective_args i ''objective.revised'' (v + 1) act p) (tx_db s) e \<and>
    draft = dict_merge (dict_merge (dict_of (o_record row)) updates)
            [(''aggregate_version'', JInt (v + 1)), (''objective_revision'', JInt (o_revision row + 1)),
             (''objective_sha256'', JStr []),
             (''supersedes'', JObj [(''objective_id'', JStr i),
                (''objective_revision'', JInt (o_revision row)), (''objective_sha256'', JStr (o_sha256 row))])] \<and>
    digest_profile E draft objective_profile_excluded = Inr digest \<and>
    record_json = norm (JObj (dict_set ''objective_sha256'' (JStr digest) draft)) \<and>
    tx_db s' = (push_event e (tx_db s))
      \<lparr>objective_revisions := objective_revisions (tx_db s) @
         [\<lparr>or_objective_id = i, or_revision = o_revision row + 1, or_sha256 = digest, or_record = record_json,
           or_created_at = now\<rparr>],
       objectives := update_where (\<lambda>q. o_objective_id q = i)
         (\<lambda>r. r\<lparr>o_marker := marker_of e, o_revision := o_revision row + 1, o_sha256 := digest,
                o_record := record_json, o_updated_at := now\<rparr>)
         (objectives (tx_db s))\<rparr>"
  using assms unfolding objective_args_def
  by (auto simp: revise_objective_op_def Let_def tx_simps projection_updated_def expect_version_find
      dest!: append_event_D canonical_Inr) blast

end
