(* ===== verification/Tasks.thy ===== *)
theory Tasks
  imports Objectives
begin

text \<open>
  The task operations of \<open>src/city2core/core.py\<close> that move a task without granting a lease:
  creation, readiness and approval, review and revision, resumption after reconciliation, and
  cancellation, all but the first and the revision through \<open>_transition_in_tx\<close>.
\<close>

section \<open>The record of a task\<close>

definition text_set :: "string option \<Rightarrow> bool" where
  "text_set v = (case v of None \<Rightarrow> False | Some s \<Rightarrow> s \<noteq> [])"

definition text_of :: "string option \<Rightarrow> json" where
  "text_of v = (case v of None \<Rightarrow> JNull | Some s \<Rightarrow> JStr s)"

text \<open>\<open>Core.task\<close>.\<close>

definition task_record :: "task_row \<Rightarrow> string dict \<Rightarrow> string dict" where
  "task_record row revision =
     [(''schema_version'', JStr ''city2.task-record/v1''),
      (''task_id'', JStr (t_task_id row)),
      (''task_revision'', JInt (t_revision row)),
      (''task_envelope_sha256'', JStr (t_sha256 row)),
      (''objective_id'', JStr (t_objective_id row)),
      (''objective_revision'', JInt (t_objective_revision row)),
      (''objective_sha256'', JStr (t_objective_sha256 row)),
      (''aggregate_version'', JInt (mk_aggregate_version (t_marker row))),
      (''state'', JStr (task_state_text (t_state row))),
      (''attempt_count'', JInt (t_attempt_count row)),
      (''max_attempts'', JInt (t_max_attempts row)),
      (''created_at'', JStr (t_created_at row)),
      (''updated_at'', JStr (t_updated_at row))] @
     (if text_set (t_current_run_id row) then [(''current_run_id'', text_of (t_current_run_id row))] else []) @
     (case map_of revision ''review_id'' of None \<Rightarrow> [] | Some v \<Rightarrow> [(''review_id'', v)]) @
     (if text_set (t_lease_owner row) \<and> text_set (t_lease_fencing_token row) \<and> text_set (t_lease_expires_at row)
      then [(''lease'', JObj
        [(''owner'', text_of (t_lease_owner row)),
         (''fencing_token'', text_of (t_lease_fencing_token row)),
         (''expires_at'', text_of (t_lease_expires_at row)),
         (''attempt_number'', JInt (t_attempt_count row)),
         (''expected_task_version'', JInt (mk_aggregate_version (t_marker row)))])]
      else [])"

definition get_task :: "string \<Rightarrow> (txs, json) tx" where
  "get_task i =
     tbind (task_row i) (\<lambda>row.
     tbind (task_revision i (t_revision row)) (\<lambda>revision.
     tret (JObj (task_record row revision))))"

section \<open>Creation\<close>

definition create_task_required :: "string list" where
  "create_task_required =
     [''objective_id'', ''task_type'', ''title'', ''intent'', ''requested_role'', ''authority_class'', ''inputs'',
      ''constraints'', ''acceptance_criteria'', ''memory_scopes'', ''time_budget_seconds'', ''max_attempts'',
      ''task_dedupe_key'']"

text \<open>A JSON value as the key of a lookup: only a text can be found.\<close>

definition key_text :: "exc \<Rightarrow> json \<Rightarrow> string result" where
  "key_text e v = (case v of
      JStr s \<Rightarrow> Inr s
    | JList xs \<Rightarrow> Inl (SqlError ''unsupported type'')
    | JObj d \<Rightarrow> Inl (SqlError ''unsupported type'')
    | _ \<Rightarrow> Inl e)"

definition task_revision_record :: "string dict \<Rightarrow> string \<Rightarrow> string \<Rightarrow> json \<Rightarrow> objective_row \<Rightarrow> string dict result" where
  "task_revision_record fs act now tid objective =
     bindE (pick fs [''task_type'', ''title'', ''intent'']) (\<lambda>head.
     bindE (pick fs [''requested_role'', ''authority_class'', ''inputs'', ''constraints'', ''acceptance_criteria'',
        ''memory_scopes'', ''time_budget_seconds'', ''max_attempts'', ''task_dedupe_key'']) (\<lambda>rest.
     Inr ([(''task_id'', tid),
           (''task_revision'', JInt 1),
           (''objective_id'', JStr (o_objective_id objective)),
           (''objective_revision'', JInt (o_revision objective)),
           (''objective_sha256'', JStr (o_sha256 objective))] @ head @
          [(''created_by'', JStr act)] @ rest @
          [(''created_at'', get_default fs ''created_at'' (JStr now))])))"

definition new_task_record :: "json \<Rightarrow> string \<Rightarrow> objective_row \<Rightarrow> json \<Rightarrow> json \<Rightarrow> string dict" where
  "new_task_record tid task_sha objective max_attempts created =
     [(''schema_version'', JStr ''city2.task-record/v1''),
      (''task_id'', tid),
      (''task_revision'', JInt 1),
      (''task_envelope_sha256'', JStr task_sha),
      (''objective_id'', JStr (o_objective_id objective)),
      (''objective_revision'', JInt (o_revision objective)),
      (''objective_sha256'', JStr (o_sha256 objective)),
      (''aggregate_version'', JInt 1),
      (''state'', JStr ''proposed''),
      (''attempt_count'', JInt 0),
      (''max_attempts'', max_attempts),
      (''created_at'', created),
      (''updated_at'', created)]"

definition create_task_op :: "env \<Rightarrow> string \<Rightarrow> string dict \<Rightarrow> string \<Rightarrow> (txs, json) tx" where
  "create_task_op E key fs act =
     tbind (tlift (dict_item fs ''objective_id'')) (\<lambda>oid.
     tbind (tlift (key_text (CoreError ''unknown objective'') oid)) (\<lambda>objective_id.
     tbind (objective_row objective_id) (\<lambda>objective.
     tbind (tguard (o_status objective \<in> {Active, Proposed})
        (CoreError ''tasks may only be created under a proposed or active objective'')) (\<lambda>_.
     tbind (utc_now E) (\<lambda>now.
     tbind (get_or fs ''task_id'' (tbind (mint E ''task'') (\<lambda>i. tret (JStr i)))) (\<lambda>tid.
     tbind (tlift (task_revision_record fs act now tid objective)) (\<lambda>revision.
     tbind (tlift (sha256_json E (JObj revision))) (\<lambda>task_sha.
     tbind (tlift (dict_item fs ''max_attempts'')) (\<lambda>max_attempts.
     (let record = new_task_record tid task_sha objective max_attempts (get_default fs ''created_at'' (JStr now)) in
     tbind (tlift (validate E (JObj record) ''task-record.schema.json'')) (\<lambda>_.
     tbind (tlift (bind_text tid)) (\<lambda>task_id.
     tbind (expect_version ''tasks'' task_id 0) (\<lambda>_.
     tbind (append_event E key
        \<lparr>aggregate_type = ''task'', aggregate_id = task_id, event_type = ''task.created'',
         aggregate_version = 1, actor = act,
         payload = JObj [(''task_revision'', JObj revision), (''state'', JStr ''proposed'')],
         sensitivity = ''internal'', occurred_at = None\<rparr>) (\<lambda>marker.
     tbind (tlift (canonical (JObj revision))) (\<lambda>revision_json.
     tbind (execute (insert_task_revision
        \<lparr>tr_task_id = task_id, tr_revision = 1, tr_sha256 = task_sha, tr_record = revision_json,
         tr_created_at = now\<rparr>)) (\<lambda>_.
     tbind (tlift (bind_int max_attempts)) (\<lambda>max_n.
     tbind (execute (insert_task
        \<lparr>t_task_id = task_id, t_marker = marker, t_revision = 1, t_sha256 = task_sha,
         t_objective_id = o_objective_id objective, t_objective_revision = o_revision objective,
         t_objective_sha256 = o_sha256 objective, t_state = TProposed, t_attempt_count = 0,
         t_max_attempts = max_n, t_current_run_id = None, t_lease_owner = None,
         t_lease_fencing_token = None, t_lease_expires_at = None, t_created_at = now, t_updated_at = now\<rparr>)) (\<lambda>_.
     tbind (projection_updated E) (\<lambda>_.
     tret (JObj record))))))))))))))))))))"

definition create_task :: "env \<Rightarrow> string dict \<Rightarrow> string \<Rightarrow> string \<Rightarrow> call" where
  "create_task E fs act key =
     checked (required fs create_task_required) (\<lambda>_.
     run_command E key
       (JObj [(''command'', JStr ''create_task''), (''fields'', JObj fs), (''actor'', JStr act)])
       (create_task_op E key fs act))"

section \<open>Transitions\<close>

text \<open>The \<open>UPDATE\<close> of \<open>_transition_in_tx\<close>.\<close>

definition move_task :: "event_marker \<Rightarrow> int \<Rightarrow> task_state \<Rightarrow> string \<Rightarrow> bool \<Rightarrow> bool \<Rightarrow> task_row \<Rightarrow> task_row" where
  "move_task marker version to_state now clear_lease clear_fence r =
     (let moved = r\<lparr>t_marker := marker\<lparr>mk_aggregate_version := version\<rparr>, t_state := to_state, t_updated_at := now\<rparr>;
          unfenced = moved\<lparr>t_lease_owner := None, t_lease_fencing_token := None, t_lease_expires_at := None\<rparr>
      in if clear_lease then unfenced\<lparr>t_current_run_id := None\<rparr>
         else if clear_fence then unfenced else moved)"

definition transition_in_tx ::
  "env \<Rightarrow> string \<Rightarrow> task_row \<Rightarrow> task_state \<Rightarrow> int \<Rightarrow> string \<Rightarrow> string dict \<Rightarrow> run_status option \<Rightarrow> bool \<Rightarrow> bool \<Rightarrow>
   (txs, json) tx" where
  "transition_in_tx E key row to_state expected_version act details run_status clear_lease clear_fence =
     tbind (append_event E key
        \<lparr>aggregate_type = ''task'', aggregate_id = t_task_id row,
         event_type = ''task.'' @ task_state_text to_state, aggregate_version = expected_version + 1, actor = act,
         payload = JObj (dict_merge [(''from'', JStr (task_state_text (t_state row))),
            (''to'', JStr (task_state_text to_state))] details),
         sensitivity = ''internal'', occurred_at = None\<rparr>) (\<lambda>marker.
     tbind (utc_now E) (\<lambda>now.
     tbind (execute (update_task (t_task_id row)
        (move_task marker (expected_version + 1) to_state now clear_lease clear_fence))) (\<lambda>_.
     tbind (case run_status of
         None \<Rightarrow> tret ()
       | Some st \<Rightarrow>
           (if text_set (t_current_run_id row)
            then execute (update_run (\<lambda>q. Some (r_run_id q) = t_current_run_id row \<and> r_status q \<noteq> RCompletedAfterCancel)
                   (\<lambda>q. q\<lparr>r_status := st, r_updated_at := now\<rparr>))
            else tret ())) (\<lambda>_.
     tbind (projection_updated E) (\<lambda>_.
     get_task (t_task_id row))))))"

definition simple_task_transition_op ::
  "env \<Rightarrow> string \<Rightarrow> string \<Rightarrow> task_state \<Rightarrow> task_state set \<Rightarrow> int \<Rightarrow> string \<Rightarrow> (txs, json) tx" where
  "simple_task_transition_op E key task_id to_state allowed_from expected_version act =
     tbind (expect_version ''tasks'' task_id expected_version) (\<lambda>_.
     tbind (task_row task_id) (\<lambda>row.
     tbind (tguard (t_state row \<in> allowed_from) (CoreError ''task transition is not allowed'')) (\<lambda>_.
     transition_in_tx E key row to_state expected_version act [] None False False)))"

definition simple_task_transition ::
  "env \<Rightarrow> string \<Rightarrow> task_state \<Rightarrow> task_state set \<Rightarrow> int \<Rightarrow> string \<Rightarrow> string \<Rightarrow> call" where
  "simple_task_transition E task_id to_state allowed_from expected_version act key =
     run_command E key
       (JObj [(''command'', JStr ''task_transition''), (''task_id'', JStr task_id),
              (''to_state'', JStr (task_state_text to_state)), (''expected_version'', JInt expected_version),
              (''actor'', JStr act)])
       (simple_task_transition_op E key task_id to_state allowed_from expected_version act)"

definition set_task_ready :: "env \<Rightarrow> string \<Rightarrow> int \<Rightarrow> string \<Rightarrow> string \<Rightarrow> call" where
  "set_task_ready E task_id expected_version act key =
     simple_task_transition E task_id TReady {TProposed, TAwaitingApproval, TExpired} expected_version act key"

definition request_task_approval :: "env \<Rightarrow> string \<Rightarrow> int \<Rightarrow> string \<Rightarrow> string \<Rightarrow> call" where
  "request_task_approval E task_id expected_version act key =
     simple_task_transition E task_id TAwaitingApproval {TProposed} expected_version act key"

section \<open>Review and revision\<close>

definition review_decision :: "string \<Rightarrow> task_state option" where
  "review_decision decision =
     List.find (\<lambda>s. task_state_text s = decision) [TAccepted, TRejected, TChangesRequested]"

definition text_elements :: "json \<Rightarrow> string list result" where
  "text_elements v = bindE (iterate v) (mapE as_str)"

definition text_dict :: "(string \<times> string) list \<Rightarrow> json" where
  "text_dict m = JObj (map (\<lambda>(k, v). (k, JStr v)) m)"

definition text_list :: "string list \<Rightarrow> json" where
  "text_list xs = JList (map JStr xs)"

definition review_task_op ::
  "env \<Rightarrow> string \<Rightarrow> string \<Rightarrow> task_state \<Rightarrow> int \<Rightarrow> string \<Rightarrow> string list \<Rightarrow> (string \<times> string) list \<Rightarrow> string \<Rightarrow>
   (txs, json) tx" where
  "review_task_op E key task_id decision expected_version review_id finding_ids dispositions act =
     tbind (expect_version ''tasks'' task_id expected_version) (\<lambda>_.
     tbind (task_row task_id) (\<lambda>row.
     tbind (tguard (t_state row = TReview) (CoreError ''task cannot receive a review decision'')) (\<lambda>_.
     tbind (task_revision task_id (t_revision row)) (\<lambda>revision.
     tbind (tlift (text_elements (get_default revision ''unresolved_finding_ids'' (JList [])))) (\<lambda>open_findings.
     tbind (tguard (\<not> (decision = TAccepted \<and> set open_findings - set (map fst dispositions) \<noteq> {}))
        (CoreError ''acceptance lacks finding dispositions'')) (\<lambda>_.
     transition_in_tx E key row decision expected_version act
       [(''review_id'', JStr review_id), (''finding_ids'', text_list finding_ids),
        (''finding_dispositions'', text_dict dispositions)] None False False))))))"

definition review_task ::
  "env \<Rightarrow> string \<Rightarrow> string \<Rightarrow> int \<Rightarrow> string \<Rightarrow> string list \<Rightarrow> (string \<times> string) list option \<Rightarrow> string \<Rightarrow> string \<Rightarrow> call" where
  "review_task E task_id decision expected_version review_id finding_ids finding_dispositions act key =
     checked (bindE (found (CoreError ''invalid review decision'') (review_decision decision)) (\<lambda>st.
        bindE (guardE (\<not> (st = TChangesRequested \<and> finding_ids = []))
          (CoreError ''changes_requested requires at least one finding'')) (\<lambda>_. Inr st))) (\<lambda>st.
     (let dispositions = (case finding_dispositions of None \<Rightarrow> [] | Some m \<Rightarrow> m) in
     run_command E key
       (JObj [(''command'', JStr ''review_task''), (''task_id'', JStr task_id), (''decision'', JStr decision),
              (''expected_version'', JInt expected_version), (''review_id'', JStr review_id),
              (''finding_ids'', text_list finding_ids), (''finding_dispositions'', text_dict dispositions),
              (''actor'', JStr act)])
       (review_task_op E key task_id st expected_version review_id finding_ids dispositions act)))"

definition task_permitted :: "string list" where
  "task_permitted =
     [''task_type'', ''title'', ''intent'', ''requested_role'', ''authority_class'', ''inputs'', ''constraints'',
      ''acceptance_criteria'', ''memory_scopes'', ''time_budget_seconds'', ''max_attempts'', ''task_dedupe_key'']"

definition revise_task_op ::
  "env \<Rightarrow> string \<Rightarrow> string \<Rightarrow> string dict \<Rightarrow> int \<Rightarrow> string \<Rightarrow> string list \<Rightarrow> string \<Rightarrow> (txs, json) tx" where
  "revise_task_op E key task_id updates expected_version review_id open_findings act =
     tbind (expect_version ''tasks'' task_id expected_version) (\<lambda>_.
     tbind (task_row task_id) (\<lambda>row.
     tbind (tguard (t_state row = TChangesRequested) (CoreError ''only changes_requested tasks may be revised'')) (\<lambda>_.
     tbind (task_revision task_id (t_revision row)) (\<lambda>previous.
     tbind (select (\<lambda>d. latest_run d task_id)) (\<lambda>last_run.
     tbind (tlift (found (CoreError ''revised task has no prior run'') last_run)) (\<lambda>run.
     tbind (utc_now E) (\<lambda>now.
     (let revision_number = t_revision row + 1;
          revision = dict_merge (dict_merge previous updates)
            [(''task_revision'', JInt revision_number), (''created_at'', JStr now),
             (''supersedes_run_id'', JStr (r_run_id run)), (''review_id'', JStr review_id),
             (''unresolved_finding_ids'', text_list open_findings)] in
     tbind (tlift (sha256_json E (JObj revision))) (\<lambda>task_sha.
     tbind (tguard (task_sha \<noteq> t_sha256 row) (CoreError ''task revision does not change the immutable profile'')) (\<lambda>_.
     tbind (append_event E key
        \<lparr>aggregate_type = ''task'', aggregate_id = task_id, event_type = ''task.revised'',
         aggregate_version = expected_version + 1, actor = act,
         payload = JObj [(''task_revision'', JInt revision_number), (''task_sha256'', JStr task_sha),
            (''review_id'', JStr review_id), (''unresolved_finding_ids'', text_list open_findings),
            (''supersedes_run_id'', JStr (r_run_id run))],
         sensitivity = ''internal'', occurred_at = None\<rparr>) (\<lambda>marker.
     tbind (tlift (canonical (JObj revision))) (\<lambda>revision_json.
     tbind (execute (insert_task_revision
        \<lparr>tr_task_id = task_id, tr_revision = revision_number, tr_sha256 = task_sha, tr_record = revision_json,
         tr_created_at = now\<rparr>)) (\<lambda>_.
     tbind (tlift (bindE (dict_item revision ''max_attempts'') bind_int)) (\<lambda>max_n.
     tbind (execute (update_task task_id
        (\<lambda>r. r\<lparr>t_marker := marker\<lparr>mk_aggregate_version := expected_version + 1\<rparr>, t_revision := revision_number,
                t_sha256 := task_sha, t_state := TReady, t_max_attempts := max_n, t_updated_at := now\<rparr>))) (\<lambda>_.
     tbind (projection_updated E) (\<lambda>_.
     get_task task_id))))))))))))))))"

definition revise_task ::
  "env \<Rightarrow> string \<Rightarrow> string dict \<Rightarrow> int \<Rightarrow> string \<Rightarrow> string list \<Rightarrow> string \<Rightarrow> string \<Rightarrow> call" where
  "revise_task E task_id updates expected_version review_id open_findings act key =
     checked (revise_check task_permitted updates) (\<lambda>_.
     run_command E key
       (JObj [(''command'', JStr ''revise_task''), (''task_id'', JStr task_id), (''updates'', JObj updates),
              (''expected_version'', JInt expected_version), (''review_id'', JStr review_id),
              (''unresolved_finding_ids'', text_list open_findings), (''actor'', JStr act)])
       (revise_task_op E key task_id updates expected_version review_id open_findings act))"

section \<open>Reconciliation and cancellation\<close>

definition task_actions_in :: "string \<Rightarrow> action_state set \<Rightarrow> db \<Rightarrow> nat" where
  "task_actions_in i states d = count_where (\<lambda>r. a_task_id r = i \<and> a_state r \<in> states) (actions d)"

definition resume_after_reconciliation_op :: "env \<Rightarrow> string \<Rightarrow> string \<Rightarrow> int \<Rightarrow> string \<Rightarrow> (txs, json) tx" where
  "resume_after_reconciliation_op E key task_id expected_version act =
     tbind (expect_version ''tasks'' task_id expected_version) (\<lambda>_.
     tbind (task_row task_id) (\<lambda>row.
     tbind (tguard (t_state row = TNeedsReconciliation) (CoreError ''task does not require reconciliation'')) (\<lambda>_.
     tbind (select (task_actions_in task_id {APrepared, ADispatched, AUnknown})) (\<lambda>uncertain.
     tbind (tguard (uncertain = 0) (CoreError ''task still has unresolved actions'')) (\<lambda>_.
     tbind (select (\<lambda>d. latest_run d task_id)) (\<lambda>run.
     (let next_state = (case run of None \<Rightarrow> TReady | Some r \<Rightarrow> if r_status r = RCompleted then TReview else TReady) in
     transition_in_tx E key row next_state expected_version act [(''reconciliation_complete'', JBool True)]
       None (next_state = TReady) False)))))))"

definition resume_after_reconciliation :: "env \<Rightarrow> string \<Rightarrow> int \<Rightarrow> string \<Rightarrow> string \<Rightarrow> call" where
  "resume_after_reconciliation E task_id expected_version act key =
     run_command E key
       (JObj [(''command'', JStr ''resume_after_reconciliation''), (''task_id'', JStr task_id),
              (''expected_version'', JInt expected_version), (''actor'', JStr act)])
       (resume_after_reconciliation_op E key task_id expected_version act)"

definition request_cancellation_op :: "env \<Rightarrow> string \<Rightarrow> string \<Rightarrow> int \<Rightarrow> string \<Rightarrow> (txs, json) tx" where
  "request_cancellation_op E key task_id expected_version act =
     tbind (expect_version ''tasks'' task_id expected_version) (\<lambda>_.
     tbind (task_row task_id) (\<lambda>row.
     if t_state row \<in> {TProposed, TAwaitingApproval, TReady, TExpired}
     then transition_in_tx E key row TCancelled expected_version act [] None True False
     else
       tbind (tguard (t_state row \<in> {TLeased, TRunning}) (CoreError ''task cannot be cancelled'')) (\<lambda>_.
       transition_in_tx E key row TCancellationRequested expected_version act
         [(''fenced_run_id'', text_of (t_current_run_id row))] None False True)))"

definition request_cancellation :: "env \<Rightarrow> string \<Rightarrow> int \<Rightarrow> string \<Rightarrow> string \<Rightarrow> call" where
  "request_cancellation E task_id expected_version act key =
     run_command E key
       (JObj [(''command'', JStr ''request_cancellation''), (''task_id'', JStr task_id),
              (''expected_version'', JInt expected_version), (''actor'', JStr act)])
       (request_cancellation_op E key task_id expected_version act)"

definition confirm_cancellation_op :: "env \<Rightarrow> string \<Rightarrow> string \<Rightarrow> int \<Rightarrow> string \<Rightarrow> (txs, json) tx" where
  "confirm_cancellation_op E key task_id expected_version act =
     tbind (expect_version ''tasks'' task_id expected_version) (\<lambda>_.
     tbind (task_row task_id) (\<lambda>row.
     tbind (tguard (t_state row = TCancellationRequested) (CoreError ''cancellation was not requested'')) (\<lambda>_.
     tbind (select (task_actions_in task_id {APrepared, ADispatched, AUnknown})) (\<lambda>uncertain.
     tbind (tguard (uncertain = 0) (CoreError ''task has unresolved actions'')) (\<lambda>_.
     transition_in_tx E key row TCancelled expected_version act [] (Some RCancelled) True False)))))"

definition confirm_cancellation :: "env \<Rightarrow> string \<Rightarrow> int \<Rightarrow> string \<Rightarrow> string \<Rightarrow> call" where
  "confirm_cancellation E task_id expected_version act key =
     run_command E key
       (JObj [(''command'', JStr ''confirm_cancellation''), (''task_id'', JStr task_id),
              (''expected_version'', JInt expected_version), (''actor'', JStr act)])
       (confirm_cancellation_op E key task_id expected_version act)"

section \<open>What the operations do\<close>

definition task_args :: "string \<Rightarrow> string \<Rightarrow> int \<Rightarrow> string \<Rightarrow> json \<Rightarrow> string \<Rightarrow> event_args" where
  "task_args i ty v act p sens = \<lparr>aggregate_type = ''task'', aggregate_id = i, event_type = ty,
     aggregate_version = v, actor = act, payload = p, sensitivity = sens, occurred_at = None\<rparr>"

lemma task_args_simps [simp]:
  "aggregate_type (task_args i ty v act p sens) = ''task''"
  "aggregate_id (task_args i ty v act p sens) = i"
  "event_type (task_args i ty v act p sens) = ty"
  "aggregate_version (task_args i ty v act p sens) = v"
  "payload (task_args i ty v act p sens) = p"
  by (simp_all add: task_args_def)

lemma get_task_Inr [tx_simps]:
  "get_task i s = Inr (v, s') \<longleftrightarrow> (\<exists>r q. find_task (tx_db s) i = Some r \<and>
     find_task_revision (tx_db s) i (t_revision r) = Some q \<and> v = JObj (task_record r (dict_of (tr_record q)))) \<and> s' = s"
  by (auto simp: get_task_def tx_simps)

lemma create_task_effect:
  assumes "create_task_op E key fs act s = Inr (res, s')"
  shows "\<exists>oid objective tid now revision task_sha max_n e p.
    map_of fs ''objective_id'' = Some (JStr oid) \<and> find_objective (tx_db s) oid = Some objective \<and>
    o_status objective \<in> {Active, Proposed} \<and>
    follows E key (task_args tid ''task.created'' 1 act p ''internal'') (tx_db s) e \<and>
    p = JObj [(''task_revision'', JObj revision), (''state'', JStr ''proposed'')] \<and>
    task_revision_record fs act now (JStr tid) objective = Inr revision \<and>
    sha256_json E (JObj revision) = Inr task_sha \<and>
    bindE (dict_item fs ''max_attempts'') bind_int = Inr max_n \<and>
    (\<forall>q \<in> set (tasks (tx_db s)). t_task_id q \<noteq> tid) \<and>
    tx_db s' = (push_event e (tx_db s))
      \<lparr>task_revisions := task_revisions (tx_db s) @
         [\<lparr>tr_task_id = tid, tr_revision = 1, tr_sha256 = task_sha, tr_record = norm (JObj revision),
           tr_created_at = now\<rparr>],
       tasks := tasks (tx_db s) @
         [\<lparr>t_task_id = tid, t_marker = marker_of e, t_revision = 1, t_sha256 = task_sha,
           t_objective_id = o_objective_id objective, t_objective_revision = o_revision objective,
           t_objective_sha256 = o_sha256 objective, t_state = TProposed, t_attempt_count = 0,
           t_max_attempts = max_n, t_current_run_id = None, t_lease_owner = None,
           t_lease_fencing_token = None, t_lease_expires_at = None, t_created_at = now, t_updated_at = now\<rparr>]\<rparr>"
proof -
  have k: "key_text (CoreError m) v = Inr x \<longleftrightarrow> v = JStr x" for m v x
    by (cases v) (auto simp: key_text_def)
  show ?thesis
    using assms unfolding task_args_def
    by (auto simp: create_task_op_def Let_def tx_simps projection_updated_def k bindE_Inr_iff
        simp del: sha256_json_Inr dest!: get_or_mint_D append_event_D canonical_Inr) blast+
qed

text \<open>The \<open>UPDATE runs\<close> of a transition.\<close>

definition mark_run :: "task_row \<Rightarrow> run_status option \<Rightarrow> string \<Rightarrow> run_row list \<Rightarrow> run_row list" where
  "mark_run row rs now rows = (case rs of None \<Rightarrow> rows
      | Some st \<Rightarrow> if text_set (t_current_run_id row)
          then update_where (\<lambda>q. Some (r_run_id q) = t_current_run_id row \<and> r_status q \<noteq> RCompletedAfterCancel)
                 (\<lambda>q. q\<lparr>r_status := st, r_updated_at := now\<rparr>) rows
          else rows)"

lemma mark_run_D:
  "(case rs of None \<Rightarrow> tret ()
    | Some st \<Rightarrow>
        (if text_set (t_current_run_id row)
         then execute (update_run (\<lambda>q. Some (r_run_id q) = t_current_run_id row \<and> r_status q \<noteq> RCompletedAfterCancel)
                (\<lambda>q. q\<lparr>r_status := st, r_updated_at := now\<rparr>))
         else tret ())) s = Inr (u, s') \<Longrightarrow>
   s' = s\<lparr>tx_db := tx_db s\<lparr>runs := mark_run row rs now (runs (tx_db s))\<rparr>\<rparr>"
  by (auto simp: mark_run_def tx_simps split: option.splits if_splits)

lemma transition_effect:
  assumes "transition_in_tx E key row st v act details rs cl cf s = Inr (res, s')"
  shows "\<exists>e p now.
    follows E key (task_args (t_task_id row) (''task.'' @ task_state_text st) (v + 1) act p ''internal'') (tx_db s) e \<and>
    p = JObj (dict_merge [(''from'', JStr (task_state_text (t_state row))), (''to'', JStr (task_state_text st))] details) \<and>
    tx_db s' = (push_event e (tx_db s))
      \<lparr>tasks := update_where (\<lambda>q. t_task_id q = t_task_id row)
         (move_task (marker_of e) (v + 1) st now cl cf) (tasks (tx_db s)),
       runs := mark_run row rs now (runs (tx_db s))\<rparr>"
  using assms unfolding task_args_def transition_in_tx_def
  by (auto simp: tx_simps projection_updated_def simp del: append.simps dest!: append_event_D mark_run_D) blast

lemma revise_task_effect:
  assumes "revise_task_op E key i updates v review_id fnd act s = Inr (res, s')"
  shows "\<exists>row previous run now revision task_sha max_n e p.
    find_task (tx_db s) i = Some row \<and> mk_aggregate_version (t_marker row) = v \<and> t_state row = TChangesRequested \<and>
    find_task_revision (tx_db s) i (t_revision row) = Some previous \<and>
    latest_run (tx_db s) i = Some run \<and>
    revision = dict_merge (dict_merge (dict_of (tr_record previous)) updates)
            [(''task_revision'', JInt (t_revision row + 1)), (''created_at'', JStr now),
             (''supersedes_run_id'', JStr (r_run_id run)), (''review_id'', JStr review_id),
             (''unresolved_finding_ids'', text_list fnd)] \<and>
    sha256_json E (JObj revision) = Inr task_sha \<and>
    bindE (dict_item revision ''max_attempts'') bind_int = Inr max_n \<and>
    follows E key (task_args i ''task.revised'' (v + 1) act p ''internal'') (tx_db s) e \<and>
    tx_db s' = (push_event e (tx_db s))
      \<lparr>task_revisions := task_revisions (tx_db s) @
         [\<lparr>tr_task_id = i, tr_revision = t_revision row + 1, tr_sha256 = task_sha,
           tr_record = norm (JObj revision), tr_created_at = now\<rparr>],
       tasks := update_where (\<lambda>q. t_task_id q = i)
         (\<lambda>r. r\<lparr>t_marker := marker_of e, t_revision := t_revision row + 1, t_sha256 := task_sha, t_state := TReady,
                t_max_attempts := max_n, t_updated_at := now\<rparr>) (tasks (tx_db s))\<rparr>"
  using assms unfolding task_args_def
  by (auto simp: revise_task_op_def Let_def tx_simps projection_updated_def expect_version_find bindE_Inr_iff
      simp del: sha256_json_Inr dest!: append_event_D canonical_Inr) blast

lemma tx_if: "(if b then m else n) s = Inr p \<longleftrightarrow> (b \<and> m s = Inr p) \<or> (\<not> b \<and> n s = Inr p)"
  by simp

lemma simple_transition_effect:
  assumes "simple_task_transition_op E key i st from v act s = Inr (res, s')"
  shows "\<exists>row. find_task (tx_db s) i = Some row \<and> mk_aggregate_version (t_marker row) = v \<and> t_state row \<in> from \<and>
    transition_in_tx E key row st v act [] None False False s = Inr (res, s')"
  using assms
  by (simp only: simple_task_transition_op_def tx_simps)
    (elim exE conjE, simp only: expect_version_find option.case, hypsubst, intro exI conjI, (assumption | rule refl)+)

lemma review_task_effect:
  assumes "review_task_op E key i st v rid fids disp act s = Inr (res, s')"
  shows "\<exists>row q open_findings details. find_task (tx_db s) i = Some row \<and> mk_aggregate_version (t_marker row) = v \<and>
    t_state row = TReview \<and> find_task_revision (tx_db s) i (t_revision row) = Some q \<and>
    text_elements (get_default (dict_of (tr_record q)) ''unresolved_finding_ids'' (JList [])) = Inr open_findings \<and>
    (st = TAccepted \<longrightarrow> set open_findings \<subseteq> set (map fst disp)) \<and>
    transition_in_tx E key row st v act details None False False s = Inr (res, s')"
  using assms
  apply (simp only: review_task_op_def tx_simps)
  apply (elim exE conjE)
  apply (simp only: expect_version_find option.case)
  apply hypsubst
  apply (intro exI conjI)
  apply (assumption | rule refl | (simp, blast))+
  done

lemma resume_effect:
  assumes "resume_after_reconciliation_op E key i v act s = Inr (res, s')"
  shows "\<exists>row st details. find_task (tx_db s) i = Some row \<and> mk_aggregate_version (t_marker row) = v \<and>
    t_state row = TNeedsReconciliation \<and> task_actions_in i {APrepared, ADispatched, AUnknown} (tx_db s) = 0 \<and>
    st \<in> {TReady, TReview} \<and>
    (st = TReview) = (\<exists>r. latest_run (tx_db s) i = Some r \<and> r_status r = RCompleted) \<and>
    transition_in_tx E key row st v act details None (st = TReady) False s = Inr (res, s')"
  using assms
  apply (simp only: resume_after_reconciliation_op_def tx_simps Let_def)
  apply (elim exE conjE)
  apply (simp only: expect_version_find option.case)
  apply hypsubst
  apply (intro exI conjI)
  apply (assumption | rule refl)+
  apply (auto split: option.splits)
  done

lemma request_cancellation_effect:
  assumes "request_cancellation_op E key i v act s = Inr (res, s')"
  shows "\<exists>row. find_task (tx_db s) i = Some row \<and> mk_aggregate_version (t_marker row) = v \<and>
    ((t_state row \<in> {TProposed, TAwaitingApproval, TReady, TExpired} \<and>
      transition_in_tx E key row TCancelled v act [] None True False s = Inr (res, s')) \<or>
     (t_state row \<in> {TLeased, TRunning} \<and>
      transition_in_tx E key row TCancellationRequested v act [(''fenced_run_id'', text_of (t_current_run_id row))]
        None False True s = Inr (res, s')))"
  using assms
  apply (simp only: request_cancellation_op_def tx_simps tx_if)
  apply (elim exE conjE disjE)
   apply (simp_all only: expect_version_find option.case)
   apply (hypsubst, rule exI, rule conjI, rule refl, rule conjI, rule refl, rule disjI1, rule conjI, assumption+)
  apply (hypsubst, rule exI, rule conjI, rule refl, rule conjI, rule refl, rule disjI2, rule conjI, assumption+)
  done

lemma confirm_cancellation_effect:
  assumes "confirm_cancellation_op E key i v act s = Inr (res, s')"
  shows "\<exists>row. find_task (tx_db s) i = Some row \<and> mk_aggregate_version (t_marker row) = v \<and>
    t_state row = TCancellationRequested \<and> task_actions_in i {APrepared, ADispatched, AUnknown} (tx_db s) = 0 \<and>
    transition_in_tx E key row TCancelled v act [] (Some RCancelled) True False s = Inr (res, s')"
  using assms
  by (simp only: confirm_cancellation_op_def tx_simps)
    (elim exE conjE, simp only: expect_version_find option.case, hypsubst, intro exI conjI, (assumption | rule refl)+)

end
