(* ===== verification/Leases.thy ===== *)
theory Leases
  imports Tasks
begin

text \<open>
  The lease protocol of \<open>src/city2core/core.py\<close>: \<open>lease_task\<close> hands a task to a run under a fencing
  token, \<open>start_run\<close> and \<open>submit_result\<close> act for that run, \<open>expire_lease\<close> takes the task back.
\<close>

section \<open>Granting a lease\<close>

definition lease_precheck :: "env \<Rightarrow> string \<Rightarrow> unit result" where
  "lease_precheck E expires_at =
     bindE (parse_time expires_at) (\<lambda>expiry.
     bindE (parse_time (format_time (clock E 0))) (\<lambda>now.
     guardE (\<not> dt_le expiry now) (CoreError ''lease expiry must be in the future'')))"

text \<open>The envelope before its digest is filled in.\<close>

definition task_envelope ::
  "task_row \<Rightarrow> string dict \<Rightarrow> string \<Rightarrow> int \<Rightarrow> string \<Rightarrow> int \<Rightarrow> int \<Rightarrow> string \<Rightarrow> string dict result" where
  "task_envelope row revision agent_id manifest_version manifest_sha256 attempt version fence =
     bindE (pick revision [''task_type'', ''title'', ''intent'', ''created_by'', ''requested_role'']) (\<lambda>head.
     bindE (pick revision [''authority_class'', ''inputs'', ''constraints'', ''acceptance_criteria'', ''memory_scopes'',
        ''time_budget_seconds'', ''max_attempts'', ''task_dedupe_key'']) (\<lambda>rest.
     Inr ([(''schema_version'', JStr ''city2.task/v1''),
           (''task_id'', JStr (t_task_id row)),
           (''task_revision'', JInt (t_revision row)),
           (''task_envelope_sha256'', JStr []),
           (''objective_id'', JStr (t_objective_id row)),
           (''objective_revision'', JInt (t_objective_revision row)),
           (''objective_sha256'', JStr (t_objective_sha256 row))] @ head @
          [(''resolved_agent_id'', JStr agent_id),
           (''resolved_manifest_version'', JInt manifest_version),
           (''resolved_manifest_sha256'', JStr manifest_sha256),
           (''attempt_number'', JInt attempt),
           (''expected_task_version'', JInt version),
           (''lease_fencing_token'', JStr fence)] @ rest @
          concat (map (\<lambda>k. case map_of revision k of None \<Rightarrow> [] | Some v \<Rightarrow> [(k, v)])
            [''supersedes_run_id'', ''review_id'', ''unresolved_finding_ids'']))))"

definition lease_task_op ::
  "env \<Rightarrow> string \<Rightarrow> string \<Rightarrow> int \<Rightarrow> string \<Rightarrow> string \<Rightarrow> string \<Rightarrow> int \<Rightarrow> string \<Rightarrow> string \<Rightarrow> (txs, json) tx" where
  "lease_task_op E key task_id expected_version owner expires_at agent_id manifest_version manifest_sha256 act =
     tbind (expect_version ''tasks'' task_id expected_version) (\<lambda>_.
     tbind (task_row task_id) (\<lambda>row.
     tbind (tguard (t_state row \<in> {TReady, TExpired}) (CoreError ''task cannot be leased'')) (\<lambda>_.
     (let attempt = t_attempt_count row + 1 in
     tbind (tguard (attempt \<le> t_max_attempts row) (CoreError ''task attempt ceiling reached'')) (\<lambda>_.
     tbind (mint E ''run'') (\<lambda>run_id.
     tbind (token_urlsafe E) (\<lambda>fence.
     tbind (task_revision task_id (t_revision row)) (\<lambda>revision.
     tbind (tlift (task_envelope row revision agent_id manifest_version manifest_sha256 attempt
        (expected_version + 1) fence)) (\<lambda>draft.
     tbind (tlift (digest_profile E draft [''task_envelope_sha256''])) (\<lambda>digest.
     (let envelope = dict_set ''task_envelope_sha256'' (JStr digest) draft in
     tbind (tlift (validate E (JObj envelope) ''task-envelope.schema.json'')) (\<lambda>_.
     tbind (utc_now E) (\<lambda>now.
     tbind (tlift (sha256_json E (JStr fence))) (\<lambda>fence_sha.
     tbind (append_event E key
        \<lparr>aggregate_type = ''task'', aggregate_id = task_id, event_type = ''task.leased'',
         aggregate_version = expected_version + 1, actor = act,
         payload = JObj [(''run_id'', JStr run_id), (''owner'', JStr owner), (''fencing_token_sha256'', JStr fence_sha),
            (''expires_at'', JStr expires_at), (''attempt_number'', JInt attempt),
            (''task_envelope_sha256'', JStr digest)],
         sensitivity = ''confidential'', occurred_at = None\<rparr>) (\<lambda>marker.
     tbind (tlift (canonical (JObj envelope))) (\<lambda>envelope_json.
     tbind (execute (insert_run
        \<lparr>r_run_id = run_id, r_task_id = task_id, r_task_revision = t_revision row, r_attempt_number = attempt,
         r_status = RLeased, r_envelope = envelope_json, r_envelope_sha256 = digest, r_result = None,
         r_result_sha256 = None, r_created_at = now, r_updated_at = now\<rparr>)) (\<lambda>_.
     tbind (execute (update_task task_id
        (\<lambda>r. r\<lparr>t_marker := marker\<lparr>mk_aggregate_version := expected_version + 1\<rparr>, t_state := TLeased,
                t_attempt_count := attempt, t_sha256 := digest, t_current_run_id := Some run_id,
                t_lease_owner := Some owner, t_lease_fencing_token := Some fence,
                t_lease_expires_at := Some expires_at, t_updated_at := now\<rparr>))) (\<lambda>_.
     tbind (projection_updated E) (\<lambda>_.
     tbind (fault E ''after_lease_acquisition'') (\<lambda>_.
     tbind (get_task task_id) (\<lambda>record.
     tret (JObj [(''run_id'', JStr run_id), (''task'', record), (''task_envelope'', JObj envelope)]))))))))))))))))))))))"

definition lease_task ::
  "env \<Rightarrow> string \<Rightarrow> int \<Rightarrow> string \<Rightarrow> string \<Rightarrow> string \<Rightarrow> int \<Rightarrow> string \<Rightarrow> string \<Rightarrow> string \<Rightarrow> call" where
  "lease_task E task_id expected_version owner expires_at agent_id manifest_version manifest_sha256 act key =
     checked (lease_precheck E expires_at) (\<lambda>_.
     run_command E key
       (JObj [(''command'', JStr ''lease_task''), (''task_id'', JStr task_id),
              (''expected_version'', JInt expected_version), (''owner'', JStr owner), (''expires_at'', JStr expires_at),
              (''resolved_agent_id'', JStr agent_id), (''resolved_manifest_version'', JInt manifest_version),
              (''resolved_manifest_sha256'', JStr manifest_sha256), (''actor'', JStr act)])
       (lease_task_op E key task_id expected_version owner expires_at agent_id manifest_version manifest_sha256 act))"

section \<open>Acting under a lease\<close>

text \<open>\<open>_require_current_lease\<close>; \<open>str(None)\<close> is \<open>'None'\<close>.\<close>

definition require_current_lease :: "env \<Rightarrow> task_row \<Rightarrow> string \<Rightarrow> string \<Rightarrow> (txs, unit) tx" where
  "require_current_lease E row run_id fencing_token =
     tbind (tguard (t_current_run_id row = Some run_id \<and> t_lease_fencing_token row = Some fencing_token)
        (ConflictError ''stale or foreign lease fencing token'')) (\<lambda>_.
     tbind (tlift (parse_time (case t_lease_expires_at row of None \<Rightarrow> ''None'' | Some t \<Rightarrow> t))) (\<lambda>expiry.
     tbind (utc_now E) (\<lambda>now_text.
     tbind (tlift (parse_time now_text)) (\<lambda>now.
     tguard (\<not> dt_le expiry now) (ConflictError ''lease has expired'')))))"

definition start_run_op :: "env \<Rightarrow> string \<Rightarrow> string \<Rightarrow> string \<Rightarrow> string \<Rightarrow> int \<Rightarrow> string \<Rightarrow> (txs, json) tx" where
  "start_run_op E key task_id run_id fencing_token expected_version act =
     tbind (expect_version ''tasks'' task_id expected_version) (\<lambda>_.
     tbind (task_row task_id) (\<lambda>row.
     tbind (require_current_lease E row run_id fencing_token) (\<lambda>_.
     tbind (tguard (t_state row = TLeased) (CoreError ''task cannot start'')) (\<lambda>_.
     transition_in_tx E key row TRunning expected_version act [(''run_id'', JStr run_id)] (Some RRunning) False False))))"

definition start_run :: "env \<Rightarrow> string \<Rightarrow> string \<Rightarrow> string \<Rightarrow> int \<Rightarrow> string \<Rightarrow> string \<Rightarrow> call" where
  "start_run E task_id run_id fencing_token expected_version act key =
     checked (sha256_json E (JStr fencing_token)) (\<lambda>fence_sha.
     run_command E key
       (JObj [(''command'', JStr ''start_run''), (''task_id'', JStr task_id), (''run_id'', JStr run_id),
              (''fencing_token_sha256'', JStr fence_sha), (''expected_version'', JInt expected_version),
              (''actor'', JStr act)])
       (start_run_op E key task_id run_id fencing_token expected_version act))"

section \<open>Results\<close>

definition submit_required :: "string list" where
  "submit_required = [''task_id'', ''run_id'', ''expected_task_version'', ''lease_fencing_token'', ''run_status'']"

text \<open>The branch for a task whose cancellation was requested: the result is kept, the state is not.\<close>

definition quarantine_result ::
  "env \<Rightarrow> string \<Rightarrow> string dict \<Rightarrow> string \<Rightarrow> task_row \<Rightarrow> string \<Rightarrow> string \<Rightarrow> string \<Rightarrow> string \<Rightarrow> (txs, json) tx" where
  "quarantine_result E key res task_id row run_id now result_sha act =
     (let current_version = mk_aggregate_version (t_marker row) in
     tbind (tlift (canonical (JObj res))) (\<lambda>result_json.
     tbind (execute (update_run (\<lambda>q. r_run_id q = run_id)
        (\<lambda>q. q\<lparr>r_status := RCompletedAfterCancel, r_result := Some result_json, r_result_sha256 := Some result_sha,
                r_updated_at := now\<rparr>))) (\<lambda>_.
     tbind (append_event E key
        \<lparr>aggregate_type = ''task'', aggregate_id = task_id, event_type = ''task.result_quarantined_after_cancel'',
         aggregate_version = current_version + 1, actor = act,
         payload = JObj [(''run_id'', JStr run_id), (''result_sha256'', JStr result_sha)],
         sensitivity = ''internal'', occurred_at = None\<rparr>) (\<lambda>marker.
     tbind (execute (update_task task_id
        (\<lambda>r. r\<lparr>t_marker := marker\<lparr>mk_aggregate_version := current_version + 1\<rparr>, t_updated_at := now\<rparr>))) (\<lambda>_.
     tbind (projection_updated E) (\<lambda>_.
     tbind (get_task task_id) (\<lambda>record.
     tret (JObj [(''task'', record), (''result_status'', JStr ''completed_after_cancel'')]))))))))"

definition result_next_state :: "nat \<Rightarrow> bool \<Rightarrow> task_row \<Rightarrow> task_state" where
  "result_next_state uncertain completed row =
     (if uncertain \<noteq> 0 then TNeedsReconciliation
      else if completed then TReview
      else if t_attempt_count row < t_max_attempts row then TReady
      else TFailedTerminal)"

definition run_actions_in :: "string \<Rightarrow> action_state set \<Rightarrow> db \<Rightarrow> nat" where
  "run_actions_in i states d = count_where (\<lambda>r. a_run_id r = i \<and> a_state r \<in> states) (actions d)"

definition record_result ::
  "env \<Rightarrow> string \<Rightarrow> string dict \<Rightarrow> string \<Rightarrow> int \<Rightarrow> task_row \<Rightarrow> string \<Rightarrow> string \<Rightarrow> string \<Rightarrow> string \<Rightarrow> (txs, json) tx" where
  "record_result E key res task_id expected_version row run_id now result_sha act =
     tbind (select (run_actions_in run_id {ADispatched, AUnknown})) (\<lambda>uncertain.
     tbind (tlift (dict_item res ''run_status'')) (\<lambda>outcome.
     (let completed = (outcome = JStr ''completed'');
          next_state = result_next_state uncertain completed row;
          status = (if completed then RCompleted else RFailed) in
     tbind (tlift (canonical (JObj res))) (\<lambda>result_json.
     tbind (execute (update_run (\<lambda>q. r_run_id q = run_id)
        (\<lambda>q. q\<lparr>r_status := status, r_result := Some result_json, r_result_sha256 := Some result_sha,
                r_updated_at := now\<rparr>))) (\<lambda>_.
     tbind (append_event E key
        \<lparr>aggregate_type = ''task'', aggregate_id = task_id, event_type = ''task.result_recorded'',
         aggregate_version = expected_version + 1, actor = act,
         payload = JObj [(''run_id'', JStr run_id), (''result_sha256'', JStr result_sha),
            (''run_status'', JStr (run_status_text status)), (''next_state'', JStr (task_state_text next_state))],
         sensitivity = ''internal'', occurred_at = None\<rparr>) (\<lambda>marker.
     tbind (execute (update_task task_id
        (\<lambda>r. r\<lparr>t_marker := marker\<lparr>mk_aggregate_version := expected_version + 1\<rparr>, t_state := next_state,
                t_current_run_id := None, t_lease_owner := None, t_lease_fencing_token := None,
                t_lease_expires_at := None, t_updated_at := now\<rparr>))) (\<lambda>_.
     tbind (projection_updated E) (\<lambda>_.
     tbind (fault E ''after_result_persistence'') (\<lambda>_.
     tbind (get_task task_id) (\<lambda>record.
     tret (JObj [(''task'', record), (''result_sha256'', JStr result_sha)])))))))))))"

definition submit_result_op :: "env \<Rightarrow> string \<Rightarrow> string dict \<Rightarrow> json \<Rightarrow> int \<Rightarrow> string \<Rightarrow> (txs, json) tx" where
  "submit_result_op E key res tid expected_version act =
     tbind (tlift (key_text (CoreError ''unknown task'') tid)) (\<lambda>task_id.
     tbind (task_row task_id) (\<lambda>row.
     tbind (if t_state row \<noteq> TCancellationRequested
        then tbind (expect_version ''tasks'' task_id expected_version) (\<lambda>_. tret ())
        else tguard (expected_version \<le> mk_aggregate_version (t_marker row))
               (ConflictError ''result expects a future task version'')) (\<lambda>_.
     tbind (tlift (dict_item res ''run_id'')) (\<lambda>rid.
     tbind (tlift (key_text (CoreError ''unknown run'') rid)) (\<lambda>run_id.
     tbind (run_row run_id) (\<lambda>run.
     tbind (tlift (item (r_envelope run) ''lease_fencing_token'')) (\<lambda>envelope_fence.
     tbind (tlift (dict_item res ''lease_fencing_token'')) (\<lambda>fence.
     tbind (tguard (r_task_id run = task_id \<and> envelope_fence = fence)
        (ConflictError ''stale or foreign lease fencing token'')) (\<lambda>_.
     tbind (tguard (t_current_run_id row = Some run_id) (ConflictError ''run no longer owns the task'')) (\<lambda>_.
     tbind (tguard (t_state row \<in> {TRunning, TCancellationRequested}) (CoreError ''task cannot accept a result'')) (\<lambda>_.
     tbind (fault E ''before_result_persistence'') (\<lambda>_.
     tbind (utc_now E) (\<lambda>now.
     tbind (tlift (sha256_json E (JObj res))) (\<lambda>result_sha.
     if t_state row = TCancellationRequested
     then quarantine_result E key res task_id row run_id now result_sha act
     else record_result E key res task_id expected_version row run_id now result_sha act))))))))))))))"

definition submit_result :: "env \<Rightarrow> string dict \<Rightarrow> string \<Rightarrow> string \<Rightarrow> call" where
  "submit_result E res act key =
     checked (bindE (required res submit_required) (\<lambda>_.
        bindE (validate E (JObj res) ''result.schema.json'') (\<lambda>_.
        bindE (dict_item res ''task_id'') (\<lambda>tid.
        bindE (bindE (dict_item res ''expected_task_version'') py_int) (\<lambda>version. Inr (tid, version)))))) (\<lambda>(tid, version).
     run_command E key
       (JObj [(''command'', JStr ''submit_result''), (''result'', JObj res), (''actor'', JStr act)])
       (submit_result_op E key res tid version act))"

section \<open>Expiry\<close>

definition expire_next_state :: "nat \<Rightarrow> bool \<Rightarrow> task_row \<Rightarrow> task_state" where
  "expire_next_state uncertain replay_safe row =
     (if uncertain \<noteq> 0 \<or> \<not> replay_safe then TNeedsReconciliation
      else if t_max_attempts row \<le> t_attempt_count row then TFailedTerminal
      else TReady)"

definition expire_lease_op :: "env \<Rightarrow> string \<Rightarrow> string \<Rightarrow> int \<Rightarrow> bool \<Rightarrow> string \<Rightarrow> string option \<Rightarrow> (txs, json) tx" where
  "expire_lease_op E key task_id expected_version replay_safe act now_arg =
     tbind (expect_version ''tasks'' task_id expected_version) (\<lambda>_.
     tbind (task_row task_id) (\<lambda>row.
     tbind (tguard (t_state row \<in> {TLeased, TRunning}) (CoreError ''task has no expirable lease'')) (\<lambda>_.
     tbind (tlift (parse_time (case t_lease_expires_at row of None \<Rightarrow> ''None'' | Some t \<Rightarrow> t))) (\<lambda>expiry.
     tbind (if text_set now_arg then tret (the now_arg) else utc_now E) (\<lambda>now_text.
     tbind (tlift (parse_time now_text)) (\<lambda>now.
     tbind (tguard (dt_le expiry now) (CoreError ''lease has not expired'')) (\<lambda>_.
     tbind (select (task_actions_in task_id {ADispatched, AUnknown})) (\<lambda>uncertain.
     transition_in_tx E key row (expire_next_state uncertain replay_safe row) expected_version act
       [(''replay_safe'', JBool replay_safe), (''unresolved_actions'', JInt (int uncertain))]
       (Some RExpired) True False))))))))"

definition expire_lease :: "env \<Rightarrow> string \<Rightarrow> int \<Rightarrow> bool \<Rightarrow> string \<Rightarrow> string \<Rightarrow> string option \<Rightarrow> call" where
  "expire_lease E task_id expected_version replay_safe act key now_arg =
     run_command E key
       (JObj [(''command'', JStr ''expire_lease''), (''task_id'', JStr task_id),
              (''expected_version'', JInt expected_version), (''replay_safe'', JBool replay_safe), (''actor'', JStr act)])
       (expire_lease_op E key task_id expected_version replay_safe act now_arg)"

section \<open>What the operations do\<close>

lemma lease_task_effect:
  assumes "lease_task_op E key i v owner expires_at agent mv msha act s = Inr (res, s')"
  shows "\<exists>row run_id fence revision draft digest now e p.
    find_task (tx_db s) i = Some row \<and> mk_aggregate_version (t_marker row) = v \<and>
    t_state row \<in> {TReady, TExpired} \<and> t_attempt_count row + 1 \<le> t_max_attempts row \<and>
    find_task_revision (tx_db s) i (t_revision row) = Some revision \<and>
    task_envelope row (dict_of (tr_record revision)) agent mv msha (t_attempt_count row + 1) (v + 1) fence = Inr draft \<and>
    digest_profile E draft [''task_envelope_sha256''] = Inr digest \<and>
    follows E key (task_args i ''task.leased'' (v + 1) act p ''confidential'') (tx_db s) e \<and>
    (\<forall>q \<in> set (runs (tx_db s)). r_run_id q \<noteq> run_id) \<and>
    tx_db s' = (push_event e (tx_db s))
      \<lparr>runs := runs (tx_db s) @
         [\<lparr>r_run_id = run_id, r_task_id = i, r_task_revision = t_revision row, r_attempt_number = t_attempt_count row + 1,
           r_status = RLeased, r_envelope = norm (JObj (dict_set ''task_envelope_sha256'' (JStr digest) draft)),
           r_envelope_sha256 = digest, r_result = None, r_result_sha256 = None, r_created_at = now, r_updated_at = now\<rparr>],
       tasks := update_where (\<lambda>q. t_task_id q = i)
         (\<lambda>r. r\<lparr>t_marker := marker_of e, t_state := TLeased,
                t_attempt_count := t_attempt_count row + 1, t_sha256 := digest, t_current_run_id := Some run_id,
                t_lease_owner := Some owner, t_lease_fencing_token := Some fence,
                t_lease_expires_at := Some expires_at, t_updated_at := now\<rparr>) (tasks (tx_db s))\<rparr>"
  using assms unfolding task_args_def
  by (auto simp: lease_task_op_def Let_def tx_simps projection_updated_def expect_version_find
      simp del: sha256_json_Inr append.simps dest!: append_event_D canonical_Inr)
    (intro exI conjI, (assumption | rule refl)+)+

text \<open>The lease check passed at the clock reading of tick \<open>n\<close>.\<close>

definition lease_current :: "env \<Rightarrow> task_row \<Rightarrow> string \<Rightarrow> string \<Rightarrow> nat \<Rightarrow> bool" where
  "lease_current E row run_id fence n \<longleftrightarrow>
     t_current_run_id row = Some run_id \<and> t_lease_fencing_token row = Some fence \<and>
     (\<exists>expiry now. parse_time (case t_lease_expires_at row of None \<Rightarrow> ''None'' | Some t \<Rightarrow> t) = Inr expiry \<and>
        parse_time (format_time (clock E n)) = Inr now \<and> \<not> dt_le expiry now)"

lemma require_current_lease_D:
  assumes "require_current_lease E row run_id fence s = Inr (u, s')"
  shows "s' = s\<lparr>tick := Suc (tick s)\<rparr> \<and> lease_current E row run_id fence (tick s)"
  using assms by (auto simp: require_current_lease_def tx_simps lease_current_def)

lemma start_run_effect:
  assumes "start_run_op E key i run_id fence v act s = Inr (res, s')"
  shows "\<exists>row. find_task (tx_db s) i = Some row \<and> mk_aggregate_version (t_marker row) = v \<and>
    t_state row = TLeased \<and> lease_current E row run_id fence (tick s) \<and>
    transition_in_tx E key row TRunning v act [(''run_id'', JStr run_id)] (Some RRunning) False False
      (s\<lparr>tick := Suc (tick s)\<rparr>) = Inr (res, s')"
  using assms
  apply (simp only: start_run_op_def tx_simps)
  apply (elim exE conjE)
  apply (simp only: expect_version_find option.case)
  apply (drule require_current_lease_D)
  apply (elim conjE)
  apply hypsubst
  apply (intro exI conjI)
  apply (assumption | rule refl)+
  done

lemma follows_runs: "follows E key a (d\<lparr>runs := x\<rparr>) e \<longleftrightarrow> follows E key a d e"
  unfolding follows_def latest_event_def insert_event_def sql_def Let_def
  by (simp add: bindE_def cong: conj_cong)

lemma push_event_runs: "push_event e (d\<lparr>runs := x\<rparr>) = (push_event e d)\<lparr>runs := x\<rparr>"
  by (simp add: push_event_def set_writer_sequence_def)

lemma quarantine_effect:
  assumes "quarantine_result E key res i row run_id now sha act s = Inr (v, s')"
  shows "\<exists>e p. follows E key (task_args i ''task.result_quarantined_after_cancel''
        (mk_aggregate_version (t_marker row) + 1) act p ''internal'') (tx_db s) e \<and>
    tx_db s' = (push_event e (tx_db s))
      \<lparr>runs := update_where (\<lambda>q. r_run_id q = run_id)
        (\<lambda>q. q\<lparr>r_status := RCompletedAfterCancel, r_result := Some (norm (JObj res)), r_result_sha256 := Some sha,
                r_updated_at := now\<rparr>) (runs (tx_db s)),
       tasks := update_where (\<lambda>q. t_task_id q = i)
         (\<lambda>r. r\<lparr>t_marker := marker_of e, t_updated_at := now\<rparr>) (tasks (tx_db s))\<rparr>"
  using assms unfolding task_args_def
  by (auto simp: quarantine_result_def Let_def tx_simps projection_updated_def follows_runs push_event_runs
      simp del: append.simps dest!: append_event_D canonical_Inr) blast

lemma record_result_effect:
  assumes "record_result E key res i v row run_id now sha act s = Inr (w, s')"
  shows "\<exists>outcome st rst e p. map_of res ''run_status'' = Some outcome \<and>
    st = result_next_state (run_actions_in run_id {ADispatched, AUnknown} (tx_db s)) (outcome = JStr ''completed'') row \<and>
    rst = (if outcome = JStr ''completed'' then RCompleted else RFailed) \<and>
    p = JObj [(''run_id'', JStr run_id), (''result_sha256'', JStr sha),
            (''run_status'', JStr (run_status_text rst)), (''next_state'', JStr (task_state_text st))] \<and>
    follows E key (task_args i ''task.result_recorded'' (v + 1) act p ''internal'') (tx_db s) e \<and>
    tx_db s' = (push_event e (tx_db s))
      \<lparr>runs := update_where (\<lambda>q. r_run_id q = run_id)
        (\<lambda>q. q\<lparr>r_status := rst, r_result := Some (norm (JObj res)), r_result_sha256 := Some sha,
                r_updated_at := now\<rparr>) (runs (tx_db s)),
       tasks := update_where (\<lambda>q. t_task_id q = i)
         (\<lambda>r. r\<lparr>t_marker := marker_of e, t_state := st, t_current_run_id := None, t_lease_owner := None,
                t_lease_fencing_token := None, t_lease_expires_at := None, t_updated_at := now\<rparr>) (tasks (tx_db s))\<rparr>"
  using assms unfolding task_args_def
  apply (simp only: record_result_def Let_def tx_simps projection_updated_def dict_item_Inr_iff)
  apply (elim exE conjE)
  apply (drule append_event_D, drule canonical_Inr)
  apply (elim exE conjE)
  apply (clarsimp simp: follows_runs push_event_runs split del: if_split)
  apply (intro exI conjI, (assumption | rule refl)+)
  done

lemma key_text_Inr: "key_text (CoreError m) v = Inr x \<longleftrightarrow> v = JStr x"
  by (cases v) (auto simp: key_text_def)

lemma submit_result_effect:
  assumes "submit_result_op E key res tid v act s = Inr (w, s')"
  shows "\<exists>i row run_id run fence n now sha. tid = JStr i \<and> find_task (tx_db s) i = Some row \<and>
    map_of res ''run_id'' = Some (JStr run_id) \<and> find_run (tx_db s) run_id = Some run \<and> r_task_id run = i \<and>
    t_current_run_id row = Some run_id \<and>
    get (r_envelope run) ''lease_fencing_token'' = Some fence \<and> map_of res ''lease_fencing_token'' = Some fence \<and>
    sha256_json E (JObj res) = Inr sha \<and>
    ((t_state row = TRunning \<and> mk_aggregate_version (t_marker row) = v \<and>
      record_result E key res i v row run_id now sha act (s\<lparr>tick := n\<rparr>) = Inr (w, s')) \<or>
     (t_state row = TCancellationRequested \<and> v \<le> mk_aggregate_version (t_marker row) \<and>
      quarantine_result E key res i row run_id now sha act (s\<lparr>tick := n\<rparr>) = Inr (w, s')))"
proof -
  from assms obtain i row s1 s2 where t: "tid = JStr i" and f: "find_task (tx_db s) i = Some row"
    and guard: "(if t_state row \<noteq> TCancellationRequested
        then tbind (expect_version ''tasks'' i v) (\<lambda>_. tret ())
        else tguard (v \<le> mk_aggregate_version (t_marker row))
               (ConflictError ''result expects a future task version'')) s = Inr ((), s1)"
    and rest: "tbind (tlift (dict_item res ''run_id'')) (\<lambda>rid.
     tbind (tlift (key_text (CoreError ''unknown run'') rid)) (\<lambda>run_id.
     tbind (run_row run_id) (\<lambda>run.
     tbind (tlift (item (r_envelope run) ''lease_fencing_token'')) (\<lambda>envelope_fence.
     tbind (tlift (dict_item res ''lease_fencing_token'')) (\<lambda>fence.
     tbind (tguard (r_task_id run = i \<and> envelope_fence = fence)
        (ConflictError ''stale or foreign lease fencing token'')) (\<lambda>_.
     tbind (tguard (t_current_run_id row = Some run_id) (ConflictError ''run no longer owns the task'')) (\<lambda>_.
     tbind (tguard (t_state row \<in> {TRunning, TCancellationRequested}) (CoreError ''task cannot accept a result'')) (\<lambda>_.
     tbind (fault E ''before_result_persistence'') (\<lambda>_.
     tbind (utc_now E) (\<lambda>now.
     tbind (tlift (sha256_json E (JObj res))) (\<lambda>result_sha.
     if t_state row = TCancellationRequested
     then quarantine_result E key res i row run_id now result_sha act
     else record_result E key res i v row run_id now result_sha act))))))))))) s1 = Inr (w, s')"
    unfolding submit_result_op_def tx_Inr_iff(3) by (auto simp: tx_Inr_iff(5) row_Inr key_text_Inr)
  from guard have s1: "s1 = s" and v: "t_state row \<noteq> TCancellationRequested \<longrightarrow> mk_aggregate_version (t_marker row) = v"
    "t_state row = TCancellationRequested \<longrightarrow> v \<le> mk_aggregate_version (t_marker row)"
    by (auto simp: tx_simps expect_version_find(2) [OF f] split: if_splits)
  from rest obtain run_id run fence n now sha where *: "map_of res ''run_id'' = Some (JStr run_id)"
      "find_run (tx_db s) run_id = Some run" "r_task_id run = i" "t_current_run_id row = Some run_id"
      "get (r_envelope run) ''lease_fencing_token'' = Some fence" "map_of res ''lease_fencing_token'' = Some fence"
      "t_state row \<in> {TRunning, TCancellationRequested}" "sha256_json E (JObj res) = Inr sha"
      "(if t_state row = TCancellationRequested
         then quarantine_result E key res i row run_id now sha act
         else record_result E key res i v row run_id now sha act) (s\<lparr>tick := n\<rparr>) = Inr (w, s')"
    unfolding s1 tx_Inr_iff(3)
    by (auto simp: tx_Inr_iff(4, 5) step_Inr_iff row_Inr key_text_Inr dict_item_Inr_iff item_Inr_iff split del: if_split)
  show ?thesis
    using t f * v by (cases "t_state row = TCancellationRequested") auto
qed

text \<open>The lease of the row had expired at the time that the call gave, or else at tick \<open>n\<close>.\<close>

definition lease_expired :: "env \<Rightarrow> task_row \<Rightarrow> string option \<Rightarrow> nat \<Rightarrow> bool" where
  "lease_expired E row now_arg n \<longleftrightarrow>
     (\<exists>expiry now. parse_time (case t_lease_expires_at row of None \<Rightarrow> ''None'' | Some t \<Rightarrow> t) = Inr expiry \<and>
        parse_time (if text_set now_arg then the now_arg else format_time (clock E n)) = Inr now \<and> dt_le expiry now)"

lemma now_text_D:
  "(if text_set now_arg then tret (the now_arg) else utc_now E) s = Inr (x, s1) \<Longrightarrow>
   x = (if text_set now_arg then the now_arg else format_time (clock E (tick s))) \<and> tx_db s1 = tx_db s"
  by (auto simp: tx_simps split: if_splits)

lemma expire_lease_effect:
  assumes "expire_lease_op E key i v replay_safe act now_arg s = Inr (res, s')"
  shows "\<exists>row s1 details. find_task (tx_db s) i = Some row \<and> mk_aggregate_version (t_marker row) = v \<and>
    t_state row \<in> {TLeased, TRunning} \<and> lease_expired E row now_arg (tick s) \<and>
    transition_in_tx E key row
      (expire_next_state (task_actions_in i {ADispatched, AUnknown} (tx_db s)) replay_safe row) v act details
      (Some RExpired) True False s1 = Inr (res, s') \<and> tx_db s1 = tx_db s"
proof -
  from assms obtain row x s1 expiry now where r: "find_task (tx_db s) i = Some row" "mk_aggregate_version (t_marker row) = v"
      "t_state row \<in> {TLeased, TRunning}"
      "parse_time (case t_lease_expires_at row of None \<Rightarrow> ''None'' | Some t \<Rightarrow> t) = Inr expiry"
    and x: "(if text_set now_arg then tret (the now_arg) else utc_now E) s = Inr (x, s1)"
    and n: "parse_time x = Inr now" "dt_le expiry now"
    and t: "\<exists>details. transition_in_tx E key row
      (expire_next_state (task_actions_in i {ADispatched, AUnknown} (tx_db s1)) replay_safe row) v act details
      (Some RExpired) True False s1 = Inr (res, s')"
    apply (simp only: expire_lease_op_def tx_simps)
    apply (elim exE conjE)
    apply (simp only: expect_version_find option.case)
    apply hypsubst
    apply blast
    done
  from now_text_D [OF x] n have "lease_expired E row now_arg (tick s)" "tx_db s1 = tx_db s"
    using r(4) by (auto simp: lease_expired_def)
  with r t show ?thesis by metis
qed

end
