(* ===== verification/Actions.thy ===== *)
theory Actions
  imports Leases
begin

text \<open>
  The action operations of \<open>src/city2core/core.py\<close>: an action is an intended effect on the outside
  world, prepared under a running lease, then dispatched, then confirmed, failed or unknown.
\<close>

section \<open>Preparation\<close>

definition prepare_required :: "string list" where
  "prepare_required =
     [''task_id'', ''run_id'', ''capability'', ''target'', ''provider'', ''canonical_parameters'', ''approval_id'',
      ''approval_sha256'', ''operation_idempotency_key'']"

definition action_record :: "env \<Rightarrow> string dict \<Rightarrow> json \<Rightarrow> int \<Rightarrow> string \<Rightarrow> string dict result" where
  "action_record E fs aid revision_number now =
     bindE (pick fs [''task_id'']) (\<lambda>p1.
     bindE (pick fs [''run_id'', ''capability'', ''target'', ''provider'', ''canonical_parameters'']) (\<lambda>p2.
     bindE (bindE (dict_item fs ''canonical_parameters'') (sha256_json E)) (\<lambda>parameters_sha.
     bindE (pick fs [''approval_id'', ''approval_sha256'', ''operation_idempotency_key'']) (\<lambda>p3.
     Inr ([(''schema_version'', JStr ''city2.action/v1''),
           (''action_id'', aid),
           (''aggregate_version'', JInt 1)] @ p1 @
          [(''task_revision'', JInt revision_number)] @ p2 @
          [(''parameters_sha256'', JStr parameters_sha)] @ p3 @
          [(''state'', JStr ''prepared''),
           (''prepared_at'', JStr now),
           (''updated_at'', JStr now)])))))"

definition with_compensation :: "env \<Rightarrow> string dict \<Rightarrow> string dict \<Rightarrow> string dict result" where
  "with_compensation E fs record = (case map_of fs ''compensation'' of
      None \<Rightarrow> Inr record
    | Some compensation \<Rightarrow>
        bindE (bindE (item compensation ''canonical_parameters'') (sha256_json E)) (\<lambda>expected.
        bindE (guardE (get compensation ''parameters_sha256'' = Some (JStr expected))
          (CoreError ''compensation parameters_sha256 mismatch'')) (\<lambda>_.
        Inr (dict_set ''compensation'' compensation record))))"

definition prepare_action_op :: "env \<Rightarrow> string \<Rightarrow> string dict \<Rightarrow> string \<Rightarrow> string \<Rightarrow> (txs, json) tx" where
  "prepare_action_op E key fs fencing_token act =
     tbind (tlift (bindE (dict_item fs ''task_id'') (key_text (CoreError ''unknown task'')))) (\<lambda>task_id.
     tbind (task_row task_id) (\<lambda>row.
     tbind (tlift (bindE (dict_item fs ''run_id'') (\<lambda>v. case v of JStr i \<Rightarrow> Inr i
        | _ \<Rightarrow> Inl (ConflictError ''stale or foreign lease fencing token'')))) (\<lambda>run_id.
     tbind (require_current_lease E row run_id fencing_token) (\<lambda>_.
     tbind (tguard (t_state row = TRunning) (CoreError ''actions require a running task'')) (\<lambda>_.
     tbind (tlift (bindE (dict_item fs ''operation_idempotency_key'') bind_text)) (\<lambda>op_key.
     tbind (select (\<lambda>d. List.find (\<lambda>r. a_operation_key r = op_key) (actions d))) (\<lambda>existing.
     tbind (tguard (existing = None) (CoreError ''operation idempotency key already belongs to another action'')) (\<lambda>_.
     tbind (get_or fs ''action_id'' (tbind (mint E ''action'') (\<lambda>i. tret (JStr i)))) (\<lambda>aid.
     tbind (utc_now E) (\<lambda>now.
     tbind (tlift (bindE (action_record E fs aid (t_revision row) now) (with_compensation E fs))) (\<lambda>record.
     tbind (tlift (validate E (JObj record) ''action.schema.json'')) (\<lambda>_.
     tbind (tlift (bind_text aid)) (\<lambda>action_id.
     tbind (append_event E key
        \<lparr>aggregate_type = ''action'', aggregate_id = action_id, event_type = ''action.prepared'',
         aggregate_version = 1, actor = act, payload = JObj [(''action'', JObj record)],
         sensitivity = ''confidential'', occurred_at = None\<rparr>) (\<lambda>marker.
     tbind (tlift (canonical (JObj record))) (\<lambda>record_json.
     tbind (execute (insert_action
        \<lparr>a_action_id = action_id, a_marker = marker\<lparr>mk_aggregate_version := 1\<rparr>, a_task_id = task_id,
         a_task_revision = t_revision row, a_run_id = run_id, a_operation_key = op_key, a_state = APrepared,
         a_record = record_json, a_provider_operation_id = None, a_provider_evidence_sha256 = None,
         a_created_at = now, a_updated_at = now\<rparr>)) (\<lambda>_.
     tbind (projection_updated E) (\<lambda>_.
     tret (JObj record))))))))))))))))))"

definition prepare_action :: "env \<Rightarrow> string dict \<Rightarrow> string \<Rightarrow> string \<Rightarrow> string \<Rightarrow> call" where
  "prepare_action E fs fencing_token act key =
     checked (bindE (required fs prepare_required) (\<lambda>_. reject_secret_keys (JObj fs))) (\<lambda>_.
     run_command E key
       (JObj [(''command'', JStr ''prepare_action''), (''fields'', JObj fs), (''actor'', JStr act)])
       (prepare_action_op E key fs fencing_token act))"

section \<open>Transitions\<close>

definition task_terminal :: "task_state set" where
  "task_terminal = {TAccepted, TRejected, TCancelled, TFailedTerminal}"

text \<open>The \<open>escalate\<close> branch: an unknown outcome stops the task, whoever holds it now.\<close>

definition escalate_task :: "env \<Rightarrow> string \<Rightarrow> string \<Rightarrow> string \<Rightarrow> string \<Rightarrow> string \<Rightarrow> (txs, unit) tx" where
  "escalate_task E key task_id action_id now act =
     tbind (task_row task_id) (\<lambda>row.
     if t_state row \<notin> task_terminal \<and> t_state row \<noteq> TNeedsReconciliation
     then
       tbind (append_event E key
          \<lparr>aggregate_type = ''task'', aggregate_id = t_task_id row, event_type = ''task.needs_reconciliation'',
           aggregate_version = mk_aggregate_version (t_marker row) + 1, actor = act,
           payload = JObj [(''action_id'', JStr action_id), (''reason'', JStr ''unknown_external_outcome'')],
           sensitivity = ''internal'', occurred_at = None\<rparr>) (\<lambda>task_marker.
       execute (update_task (t_task_id row)
          (\<lambda>r. r\<lparr>t_marker := task_marker\<lparr>mk_aggregate_version := mk_aggregate_version (t_marker r) + 1\<rparr>,
                  t_state := TNeedsReconciliation, t_lease_owner := None, t_lease_fencing_token := None,
                  t_lease_expires_at := None, t_updated_at := now\<rparr>)))
     else tret ())"

text \<open>The updates of the record: version, state, times, then the details.\<close>

definition advance_record :: "string dict \<Rightarrow> int \<Rightarrow> action_state \<Rightarrow> string \<Rightarrow> string dict \<Rightarrow> string dict" where
  "advance_record record version to_state now details =
     dict_merge (dict_merge record
       ([(''aggregate_version'', JInt version), (''state'', JStr (action_state_text to_state)),
         (''updated_at'', JStr now)] @
        (if to_state = ADispatched then [(''dispatched_at'', JStr now)] else []) @
        (if to_state = AConfirmed then [(''confirmed_at'', JStr now)] else []))) details"

definition evidence_digest :: "env \<Rightarrow> string dict \<Rightarrow> string option result" where
  "evidence_digest E details = (case map_of details ''provider_evidence'' of
      None \<Rightarrow> Inr None
    | Some v \<Rightarrow> if truthy v then bindE (sha256_json E v) (\<lambda>h. Inr (Some h)) else Inr None)"

definition detail_text :: "string dict \<Rightarrow> string \<Rightarrow> string option result" where
  "detail_text details k = (case map_of details k of
      None \<Rightarrow> Inr None
    | Some v \<Rightarrow> (case v of JNull \<Rightarrow> Inr None | _ \<Rightarrow> bindE (bind_text v) (\<lambda>s. Inr (Some s))))"

definition action_transition_op ::
  "env \<Rightarrow> string \<Rightarrow> string \<Rightarrow> int \<Rightarrow> action_state set \<Rightarrow> action_state \<Rightarrow> string \<Rightarrow> string dict \<Rightarrow> string \<Rightarrow> bool \<Rightarrow>
   (txs, json) tx" where
  "action_transition_op E key action_id expected_version from_states to_state act details boundary escalate =
     tbind (expect_version ''actions'' action_id expected_version) (\<lambda>_.
     tbind (action_row action_id) (\<lambda>row.
     tbind (tguard (a_state row \<in> from_states) (CoreError ''action transition is not allowed'')) (\<lambda>_.
     tbind (utc_now E) (\<lambda>now.
     (let record = advance_record (dict_of (a_record row)) (expected_version + 1) to_state now details in
     tbind (tlift (validate E (JObj record) ''action.schema.json'')) (\<lambda>_.
     tbind (append_event E key
        \<lparr>aggregate_type = ''action'', aggregate_id = action_id,
         event_type = ''action.'' @ action_state_text to_state, aggregate_version = expected_version + 1, actor = act,
         payload = JObj (dict_merge [(''from'', JStr (action_state_text (a_state row))),
            (''to'', JStr (action_state_text to_state))] details),
         sensitivity = ''confidential'', occurred_at = None\<rparr>) (\<lambda>marker.
     tbind (tlift (evidence_digest E details)) (\<lambda>evidence_sha.
     tbind (tlift (canonical (JObj record))) (\<lambda>record_json.
     tbind (tlift (detail_text details ''provider_operation_id'')) (\<lambda>provider_op.
     tbind (execute (update_action action_id
        (\<lambda>r. r\<lparr>a_marker := marker\<lparr>mk_aggregate_version := expected_version + 1\<rparr>, a_state := to_state,
                a_record := record_json, a_provider_operation_id := provider_op,
                a_provider_evidence_sha256 := evidence_sha, a_updated_at := now\<rparr>))) (\<lambda>_.
     tbind (if escalate then escalate_task E key (a_task_id row) action_id now act else tret ()) (\<lambda>_.
     tbind (projection_updated E) (\<lambda>_.
     tbind (fault E boundary) (\<lambda>_.
     tbind (action_row action_id) (\<lambda>final.
     tret (a_record final))))))))))))))))"

definition action_transition ::
  "env \<Rightarrow> string \<Rightarrow> int \<Rightarrow> action_state set \<Rightarrow> action_state \<Rightarrow> string \<Rightarrow> string dict \<Rightarrow> string \<Rightarrow> bool \<Rightarrow> string \<Rightarrow> call" where
  "action_transition E action_id expected_version from_states to_state act details boundary escalate key =
     run_command E key
       (JObj [(''command'', JStr ''action_transition''), (''action_id'', JStr action_id),
              (''expected_version'', JInt expected_version), (''to_state'', JStr (action_state_text to_state)),
              (''details'', JObj details), (''actor'', JStr act)])
       (action_transition_op E key action_id expected_version from_states to_state act details boundary escalate)"

definition begin_action_dispatch :: "env \<Rightarrow> string \<Rightarrow> int \<Rightarrow> string \<Rightarrow> string \<Rightarrow> call" where
  "begin_action_dispatch E action_id expected_version act key =
     action_transition E action_id expected_version {APrepared} ADispatched act [] ''after_dispatch_recorded'' False key"

definition reconcile_outcome :: "string \<Rightarrow> action_state option" where
  "reconcile_outcome outcome =
     List.find (\<lambda>s. action_state_text s = outcome) [AConfirmed, AFailed, AUnknown, ACompensated]"

fun reconcile_from :: "action_state \<Rightarrow> action_state set" where
  "reconcile_from AConfirmed = {ADispatched, AUnknown}"
| "reconcile_from AFailed = {APrepared, ADispatched, AUnknown}"
| "reconcile_from AUnknown = {ADispatched}"
| "reconcile_from ACompensated = {AConfirmed}"
| "reconcile_from s = {}"

definition reconcile_details :: "string option \<Rightarrow> string dict option \<Rightarrow> string dict" where
  "reconcile_details provider_operation_id provider_evidence =
     (if text_set provider_operation_id then [(''provider_operation_id'', text_of provider_operation_id)] else []) @
     (case provider_evidence of None \<Rightarrow> [] | Some e \<Rightarrow> if e = [] then [] else [(''provider_evidence'', JObj e)])"

definition reconcile_action ::
  "env \<Rightarrow> string \<Rightarrow> string \<Rightarrow> int \<Rightarrow> string \<Rightarrow> string option \<Rightarrow> string dict option \<Rightarrow> string \<Rightarrow> call" where
  "reconcile_action E action_id outcome expected_version act provider_operation_id provider_evidence key =
     checked (bindE (found (CoreError ''invalid reconciliation outcome'') (reconcile_outcome outcome)) (\<lambda>st.
        bindE (guardE (\<not> (st = AConfirmed \<and>
            (\<not> text_set provider_operation_id \<or> provider_evidence = None \<or> provider_evidence = Some [])))
          (CoreError ''confirmation requires durable provider operation ID and evidence'')) (\<lambda>_. Inr st))) (\<lambda>st.
     action_transition E action_id expected_version (reconcile_from st) st act
       (reconcile_details provider_operation_id provider_evidence) ''after_action_acknowledgement''
       (st = AUnknown) key)"

text \<open>\<open>Core.action\<close>.\<close>

definition get_action :: "db \<Rightarrow> string \<Rightarrow> json result" where
  "get_action d action_id =
     bindE (found (CoreError ''unknown action'') (find_action d action_id)) (\<lambda>r. Inr (a_record r))"

section \<open>What the operations do\<close>

definition action_args :: "string \<Rightarrow> string \<Rightarrow> int \<Rightarrow> string \<Rightarrow> json \<Rightarrow> event_args" where
  "action_args i ty v act p = \<lparr>aggregate_type = ''action'', aggregate_id = i, event_type = ty,
     aggregate_version = v, actor = act, payload = p, sensitivity = ''confidential'', occurred_at = None\<rparr>"

lemma action_args_simps [simp]:
  "aggregate_type (action_args i ty v act p) = ''action''"
  "aggregate_id (action_args i ty v act p) = i"
  "event_type (action_args i ty v act p) = ty"
  "aggregate_version (action_args i ty v act p) = v"
  "payload (action_args i ty v act p) = p"
  by (simp_all add: action_args_def)

lemma run_id_Inr:
  "(case v of JStr i \<Rightarrow> Inr i | _ \<Rightarrow> Inl (ConflictError m)) = Inr x \<longleftrightarrow> v = JStr x"
  by (cases v) auto

lemma prepare_action_effect:
  assumes "prepare_action_op E key fs fence act s = Inr (res, s')"
  shows "\<exists>tid row run_id op_key aid now record e p.
    map_of fs ''task_id'' = Some (JStr tid) \<and> find_task (tx_db s) tid = Some row \<and>
    map_of fs ''run_id'' = Some (JStr run_id) \<and> lease_current E row run_id fence (tick s) \<and>
    t_state row = TRunning \<and> map_of fs ''operation_idempotency_key'' = Some (JStr op_key) \<and>
    (\<forall>q \<in> set (actions (tx_db s)). a_action_id q \<noteq> aid \<and> a_operation_key q \<noteq> op_key) \<and>
    (\<exists>q \<in> set (runs (tx_db s)). r_run_id q = run_id) \<and>
    bindE (action_record E fs (JStr aid) (t_revision row) now) (with_compensation E fs) = Inr record \<and>
    follows E key (action_args aid ''action.prepared'' 1 act p) (tx_db s) e \<and>
    res = JObj record \<and>
    tx_db s' = (push_event e (tx_db s))
      \<lparr>actions := actions (tx_db s) @
         [\<lparr>a_action_id = aid, a_marker = marker_of e, a_task_id = tid, a_task_revision = t_revision row, a_run_id = run_id,
           a_operation_key = op_key, a_state = APrepared, a_record = norm (JObj record),
           a_provider_operation_id = None, a_provider_evidence_sha256 = None, a_created_at = now, a_updated_at = now\<rparr>]\<rparr>"
  using assms unfolding action_args_def
  apply (simp only: prepare_action_op_def Let_def tx_simps projection_updated_def key_text_Inr run_id_Inr)
  apply (elim exE conjE)
  apply (drule require_current_lease_D, drule append_event_D, drule canonical_Inr, drule get_or_mint_D)
  apply (elim exE conjE)
  apply (clarsimp simp: find_None_iff_all insert_action_def action_check_def split del: if_split)
  apply blast
  done

definition escalated :: "env \<Rightarrow> string \<Rightarrow> string \<Rightarrow> string \<Rightarrow> db \<Rightarrow> db \<Rightarrow> bool" where
  "escalated E key tid act d d' \<longleftrightarrow> (\<exists>row. find_task d tid = Some row \<and>
     (if t_state row \<in> insert TNeedsReconciliation task_terminal then d' = d
      else \<exists>e p now. follows E key (task_args tid ''task.needs_reconciliation''
            (mk_aggregate_version (t_marker row) + 1) act p ''internal'') d e \<and>
        d' = (push_event e d)\<lparr>tasks := update_where (\<lambda>q. t_task_id q = tid)
          (\<lambda>r. r\<lparr>t_marker := (marker_of e)\<lparr>mk_aggregate_version := mk_aggregate_version (t_marker r) + 1\<rparr>,
             t_state := TNeedsReconciliation, t_lease_owner := None, t_lease_fencing_token := None,
             t_lease_expires_at := None, t_updated_at := now\<rparr>) (tasks d)\<rparr>))"


lemma escalate_effect:
  assumes "escalate_task E key tid i now act s = Inr (u, s')"
  shows "escalated E key tid act (tx_db s) (tx_db s')"
proof -
  from assms obtain row where r: "find_task (tx_db s) tid = Some row"
    and step: "(if t_state row \<notin> task_terminal \<and> t_state row \<noteq> TNeedsReconciliation
     then
       tbind (append_event E key (task_args (t_task_id row) ''task.needs_reconciliation''
           (mk_aggregate_version (t_marker row) + 1) act
           (JObj [(''action_id'', JStr i), (''reason'', JStr ''unknown_external_outcome'')]) ''internal'')) (\<lambda>task_marker.
       execute (update_task (t_task_id row)
          (\<lambda>r. r\<lparr>t_marker := task_marker\<lparr>mk_aggregate_version := mk_aggregate_version (t_marker r) + 1\<rparr>,
                  t_state := TNeedsReconciliation, t_lease_owner := None, t_lease_fencing_token := None,
                  t_lease_expires_at := None, t_updated_at := now\<rparr>)))
     else tret ()) s = Inr (u, s')"
    unfolding escalate_task_def task_args_def by (auto simp only: tx_Inr_iff(3) row_Inr)
  then have i: "t_task_id row = tid" using find_Some_iff by (fastforce simp: find_task_def)
  show ?thesis
  proof (cases "t_state row \<in> insert TNeedsReconciliation task_terminal")
    case True
    with step r show ?thesis by (auto simp: escalated_def tx_simps split: if_splits)
  next
    case False
    with step i obtain e where f: "follows E key (task_args tid ''task.needs_reconciliation''
            (mk_aggregate_version (t_marker row) + 1) act
           (JObj [(''action_id'', JStr i), (''reason'', JStr ''unknown_external_outcome'')]) ''internal'') (tx_db s) e"
      and d: "tx_db s' = (push_event e (tx_db s))\<lparr>tasks := update_where (\<lambda>q. t_task_id q = tid)
          (\<lambda>r. r\<lparr>t_marker := (marker_of e)\<lparr>mk_aggregate_version := mk_aggregate_version (t_marker r) + 1\<rparr>,
             t_state := TNeedsReconciliation, t_lease_owner := None,
             t_lease_fencing_token := None, t_lease_expires_at := None, t_updated_at := now\<rparr>) (tasks (tx_db s))\<rparr>"
      by (auto simp: tx_simps dest!: append_event_D)
    from False r f d show ?thesis unfolding escalated_def by auto
  qed
qed

lemma maybe_escalate:
  "(if escalate then escalate_task E key tid i now act else tret ()) s = Inr (u, s') \<Longrightarrow>
   if escalate then escalated E key tid act (tx_db s) (tx_db s') else tx_db s' = tx_db s"
  by (cases escalate) (auto simp: tx_simps dest: escalate_effect)

lemma action_transition_effect:
  assumes "action_transition_op E key i v from st act details boundary escalate s = Inr (res, s')"
  shows "\<exists>row now record h prov e p d1.
    find_action (tx_db s) i = Some row \<and> mk_aggregate_version (a_marker row) = v \<and> a_state row \<in> from \<and>
    record = advance_record (dict_of (a_record row)) (v + 1) st now details \<and>
    evidence_digest E details = Inr h \<and> detail_text details ''provider_operation_id'' = Inr prov \<and>
    follows E key (action_args i (''action.'' @ action_state_text st) (v + 1) act p) (tx_db s) e \<and>
    d1 = (push_event e (tx_db s))
      \<lparr>actions := update_where (\<lambda>q. a_action_id q = i)
         (\<lambda>r. r\<lparr>a_marker := marker_of e, a_state := st, a_record := norm (JObj record), a_provider_operation_id := prov,
           a_provider_evidence_sha256 := h, a_updated_at := now\<rparr>) (actions (tx_db s))\<rparr> \<and>
    (if escalate then escalated E key (a_task_id row) act d1 (tx_db s') else tx_db s' = d1)"
  using assms unfolding action_args_def
  apply (simp only: action_transition_op_def Let_def tx_simps projection_updated_def)
  apply (elim exE conjE)
  apply (simp only: expect_version_find option.case)
  apply (drule append_event_D, drule canonical_Inr, drule maybe_escalate)
  apply (elim exE conjE)
  apply (cases escalate)
   apply (clarsimp simp del: append.simps, (intro exI conjI, (assumption | rule refl)+)?)
  apply (clarsimp simp del: append.simps, (intro exI conjI, (assumption | rule refl)+)?)
  done

end
