(* ===== verification/Steps.thy ===== *)
theory Steps
  imports Actions
begin

text \<open>
  The whole service as one state machine: a request is a call of a public operation of \<open>Core\<close>,
  \<open>perform\<close> is the operation, and \<open>db_step\<close> lists what a request can do to the tables, one rule per kind
  of change. Every request either leaves the tables alone or makes one of these steps; the invariants of the
  service are proved over the steps.
\<close>

section \<open>Requests\<close>

datatype request =
    CreateObjective "string dict" string string
  | SetObjectiveStatus string string int string string
  | ReviseObjective string "string dict" int string string
  | CreateTask "string dict" string string
  | SetTaskReady string int string string
  | RequestTaskApproval string int string string
  | ReviewTask string string int string "string list" "(string \<times> string) list option" string string
  | ReviseTask string "string dict" int string "string list" string string
  | ResumeAfterReconciliation string int string string
  | LeaseTask string int string string string int string string string
  | StartRun string string string int string string
  | SubmitResult "string dict" string string
  | RequestCancellation string int string string
  | ConfirmCancellation string int string string
  | ExpireLease string int bool string string "string option"
  | PrepareAction "string dict" string string string
  | BeginActionDispatch string int string string
  | ReconcileAction string string int string "string option" "string dict option" string

fun perform :: "env \<Rightarrow> request \<Rightarrow> call" where
  "perform E (CreateObjective fs act key) = create_objective E fs act key"
| "perform E (SetObjectiveStatus i status v act key) = set_objective_status E i status v act key"
| "perform E (ReviseObjective i updates v act key) = revise_objective E i updates v act key"
| "perform E (CreateTask fs act key) = create_task E fs act key"
| "perform E (SetTaskReady i v act key) = set_task_ready E i v act key"
| "perform E (RequestTaskApproval i v act key) = request_task_approval E i v act key"
| "perform E (ReviewTask i decision v rid fids disp act key) = review_task E i decision v rid fids disp act key"
| "perform E (ReviseTask i updates v rid fnd act key) = revise_task E i updates v rid fnd act key"
| "perform E (ResumeAfterReconciliation i v act key) = resume_after_reconciliation E i v act key"
| "perform E (LeaseTask i v owner expires_at agent mv msha act key) =
     lease_task E i v owner expires_at agent mv msha act key"
| "perform E (StartRun i run_id fence v act key) = start_run E i run_id fence v act key"
| "perform E (SubmitResult res act key) = submit_result E res act key"
| "perform E (RequestCancellation i v act key) = request_cancellation E i v act key"
| "perform E (ConfirmCancellation i v act key) = confirm_cancellation E i v act key"
| "perform E (ExpireLease i v replay_safe act key now_arg) = expire_lease E i v replay_safe act key now_arg"
| "perform E (PrepareAction fs fence act key) = prepare_action E fs fence act key"
| "perform E (BeginActionDispatch i v act key) = begin_action_dispatch E i v act key"
| "perform E (ReconcileAction i outcome v act prov evidence key) =
     reconcile_action E i outcome v act prov evidence key"

section \<open>The moves of a task\<close>

text \<open>
  Every way in which \<open>_transition_in_tx\<close> is called: from which row, to which state, with which run status,
  and whether the lease is cleared entirely or only its fence.
\<close>

definition unresolved :: "action_state set" where
  "unresolved = {APrepared, ADispatched, AUnknown}"

inductive task_move :: "env \<Rightarrow> db \<Rightarrow> task_row \<Rightarrow> task_state \<Rightarrow> run_status option \<Rightarrow> bool \<Rightarrow> bool \<Rightarrow> bool"
  for E d row where
  make_ready: "t_state row \<in> {TProposed, TAwaitingApproval, TExpired} \<Longrightarrow> task_move E d row TReady None False False"
| ask_approval: "t_state row = TProposed \<Longrightarrow> task_move E d row TAwaitingApproval None False False"
| decide: "t_state row = TReview \<Longrightarrow> st \<in> {TAccepted, TRejected, TChangesRequested} \<Longrightarrow>
    task_move E d row st None False False"
| resume: "t_state row = TNeedsReconciliation \<Longrightarrow> task_actions_in (t_task_id row) unresolved d = 0 \<Longrightarrow>
    st \<in> {TReady, TReview} \<Longrightarrow>
    (st = TReview) = (\<exists>r. latest_run d (t_task_id row) = Some r \<and> r_status r = RCompleted) \<Longrightarrow>
    task_move E d row st None (st = TReady) False"
| cancel_idle: "t_state row \<in> {TProposed, TAwaitingApproval, TReady, TExpired} \<Longrightarrow>
    task_move E d row TCancelled None True False"
| ask_cancel: "t_state row \<in> {TLeased, TRunning} \<Longrightarrow> task_move E d row TCancellationRequested None False True"
| confirm_cancel: "t_state row = TCancellationRequested \<Longrightarrow> task_actions_in (t_task_id row) unresolved d = 0 \<Longrightarrow>
    task_move E d row TCancelled (Some RCancelled) True False"
| start: "t_state row = TLeased \<Longrightarrow> lease_current E row run_id fence n \<Longrightarrow>
    task_move E d row TRunning (Some RRunning) False False"
| expire: "t_state row \<in> {TLeased, TRunning} \<Longrightarrow> lease_expired E row now_arg n \<Longrightarrow>
    st = expire_next_state (task_actions_in (t_task_id row) {ADispatched, AUnknown} d) replay_safe row \<Longrightarrow>
    task_move E d row st (Some RExpired) True False"

text \<open>How an action moves: dispatch of a prepared one, or a reconciled outcome with the details given.\<close>

inductive action_move :: "action_row \<Rightarrow> action_state \<Rightarrow> string dict \<Rightarrow> bool" for row where
  dispatch: "a_state row = APrepared \<Longrightarrow> action_move row ADispatched []"
| reconcile: "a_state row \<in> reconcile_from st \<Longrightarrow>
    st = AConfirmed \<longrightarrow> text_set prov \<and> evidence \<noteq> None \<and> evidence \<noteq> Some [] \<Longrightarrow>
    action_move row st (reconcile_details prov evidence)"

section \<open>Steps of the tables\<close>

inductive db_step :: "env \<Rightarrow> db \<Rightarrow> db \<Rightarrow> bool" for E d where
  objective_created:
    "follows E key (objective_args oid ''objective.created'' 1 act p) d e \<Longrightarrow>
     objective_record fs act now (JStr oid) = Inr draft \<Longrightarrow>
     digest_profile E draft objective_profile_excluded = Inr digest \<Longrightarrow>
     record_json = norm (JObj (dict_set ''objective_sha256'' (JStr digest) draft)) \<Longrightarrow>
     \<forall>q \<in> set (objectives d). o_objective_id q \<noteq> oid \<Longrightarrow>
     db_step E d ((push_event e d)
      \<lparr>objective_revisions := objective_revisions d @
         [\<lparr>or_objective_id = oid, or_revision = 1, or_sha256 = digest, or_record = record_json, or_created_at = now\<rparr>],
       objectives := objectives d @
         [\<lparr>o_objective_id = oid, o_marker = marker_of e, o_revision = 1, o_sha256 = digest,
           o_status = Proposed, o_record = record_json, o_updated_at = now\<rparr>]\<rparr>)"
| objective_moved:
    "find_objective d i = Some row \<Longrightarrow> mk_aggregate_version (o_marker row) = v \<Longrightarrow>
     new \<in> set (allowed_status (o_status row)) \<Longrightarrow>
     follows E key (objective_args i (''objective.'' @ objective_status_text new) (v + 1) act p) d e \<Longrightarrow>
     record_json = norm (JObj (dict_merge (dict_of (o_record row))
        [(''aggregate_version'', JInt (v + 1)), (''status'', JStr (objective_status_text new))])) \<Longrightarrow>
     db_step E d ((push_event e d)
      \<lparr>objectives := update_where (\<lambda>q. o_objective_id q = i)
         (\<lambda>r. r\<lparr>o_marker := marker_of e, o_status := new, o_record := record_json, o_updated_at := now\<rparr>)
         (objectives d)\<rparr>)"
| objective_revised:
    "find_objective d i = Some row \<Longrightarrow> mk_aggregate_version (o_marker row) = v \<Longrightarrow>
     o_status row \<notin> {Completed, Cancelled, Superseded} \<Longrightarrow>
     revise_check objective_permitted updates = Inr () \<Longrightarrow>
     follows E key (objective_args i ''objective.revised'' (v + 1) act p) d e \<Longrightarrow>
     draft = dict_merge (dict_merge (dict_of (o_record row)) updates)
            [(''aggregate_version'', JInt (v + 1)), (''objective_revision'', JInt (o_revision row + 1)),
             (''objective_sha256'', JStr []),
             (''supersedes'', JObj [(''objective_id'', JStr i),
                (''objective_revision'', JInt (o_revision row)), (''objective_sha256'', JStr (o_sha256 row))])] \<Longrightarrow>
     digest_profile E draft objective_profile_excluded = Inr digest \<Longrightarrow>
     record_json = norm (JObj (dict_set ''objective_sha256'' (JStr digest) draft)) \<Longrightarrow>
     db_step E d ((push_event e d)
      \<lparr>objective_revisions := objective_revisions d @
         [\<lparr>or_objective_id = i, or_revision = o_revision row + 1, or_sha256 = digest, or_record = record_json,
           or_created_at = now\<rparr>],
       objectives := update_where (\<lambda>q. o_objective_id q = i)
         (\<lambda>r. r\<lparr>o_marker := marker_of e, o_revision := o_revision row + 1, o_sha256 := digest,
                o_record := record_json, o_updated_at := now\<rparr>)
         (objectives d)\<rparr>)"
| task_created:
    "find_objective d oid = Some objective \<Longrightarrow> o_status objective \<in> {Active, Proposed} \<Longrightarrow>
     follows E key (task_args tid ''task.created'' 1 act p ''internal'') d e \<Longrightarrow>
     p = JObj [(''task_revision'', JObj revision), (''state'', JStr ''proposed'')] \<Longrightarrow>
     task_revision_record fs act now (JStr tid) objective = Inr revision \<Longrightarrow>
     sha256_json E (JObj revision) = Inr task_sha \<Longrightarrow>
     bindE (dict_item fs ''max_attempts'') bind_int = Inr max_n \<Longrightarrow>
     \<forall>q \<in> set (tasks d). t_task_id q \<noteq> tid \<Longrightarrow>
     db_step E d ((push_event e d)
      \<lparr>task_revisions := task_revisions d @
         [\<lparr>tr_task_id = tid, tr_revision = 1, tr_sha256 = task_sha, tr_record = norm (JObj revision),
           tr_created_at = now\<rparr>],
       tasks := tasks d @
         [\<lparr>t_task_id = tid, t_marker = marker_of e, t_revision = 1, t_sha256 = task_sha,
           t_objective_id = o_objective_id objective, t_objective_revision = o_revision objective,
           t_objective_sha256 = o_sha256 objective, t_state = TProposed, t_attempt_count = 0,
           t_max_attempts = max_n, t_current_run_id = None, t_lease_owner = None,
           t_lease_fencing_token = None, t_lease_expires_at = None, t_created_at = now, t_updated_at = now\<rparr>]\<rparr>)"
| task_moved:
    "find_task d i = Some row \<Longrightarrow> mk_aggregate_version (t_marker row) = v \<Longrightarrow>
     task_move E d row st rs cl cf \<Longrightarrow>
     follows E key (task_args i (''task.'' @ task_state_text st) (v + 1) act p ''internal'') d e \<Longrightarrow>
     db_step E d ((push_event e d)
      \<lparr>tasks := update_where (\<lambda>q. t_task_id q = i) (move_task (marker_of e) (v + 1) st now cl cf) (tasks d),
       runs := mark_run row rs now (runs d)\<rparr>)"
| task_revised:
    "find_task d i = Some row \<Longrightarrow> mk_aggregate_version (t_marker row) = v \<Longrightarrow> t_state row = TChangesRequested \<Longrightarrow>
     revise_check task_permitted updates = Inr () \<Longrightarrow>
     find_task_revision d i (t_revision row) = Some previous \<Longrightarrow> latest_run d i = Some run \<Longrightarrow>
     revision = dict_merge (dict_merge (dict_of (tr_record previous)) updates)
            [(''task_revision'', JInt (t_revision row + 1)), (''created_at'', JStr now),
             (''supersedes_run_id'', JStr (r_run_id run)), (''review_id'', JStr review_id),
             (''unresolved_finding_ids'', text_list fnd)] \<Longrightarrow>
     sha256_json E (JObj revision) = Inr task_sha \<Longrightarrow>
     bindE (dict_item revision ''max_attempts'') bind_int = Inr max_n \<Longrightarrow>
     follows E key (task_args i ''task.revised'' (v + 1) act p ''internal'') d e \<Longrightarrow>
     db_step E d ((push_event e d)
      \<lparr>task_revisions := task_revisions d @
         [\<lparr>tr_task_id = i, tr_revision = t_revision row + 1, tr_sha256 = task_sha,
           tr_record = norm (JObj revision), tr_created_at = now\<rparr>],
       tasks := update_where (\<lambda>q. t_task_id q = i)
         (\<lambda>r. r\<lparr>t_marker := marker_of e, t_revision := t_revision row + 1, t_sha256 := task_sha, t_state := TReady,
                t_max_attempts := max_n, t_updated_at := now\<rparr>) (tasks d)\<rparr>)"
| task_leased:
    "find_task d i = Some row \<Longrightarrow> mk_aggregate_version (t_marker row) = v \<Longrightarrow>
     t_state row \<in> {TReady, TExpired} \<Longrightarrow> t_attempt_count row + 1 \<le> t_max_attempts row \<Longrightarrow>
     find_task_revision d i (t_revision row) = Some revision \<Longrightarrow>
     task_envelope row (dict_of (tr_record revision)) agent mv msha (t_attempt_count row + 1) (v + 1) fence = Inr draft \<Longrightarrow>
     digest_profile E draft [''task_envelope_sha256''] = Inr digest \<Longrightarrow>
     follows E key (task_args i ''task.leased'' (v + 1) act p ''confidential'') d e \<Longrightarrow>
     \<forall>q \<in> set (runs d). r_run_id q \<noteq> run_id \<Longrightarrow>
     db_step E d ((push_event e d)
      \<lparr>runs := runs d @
         [\<lparr>r_run_id = run_id, r_task_id = i, r_task_revision = t_revision row, r_attempt_number = t_attempt_count row + 1,
           r_status = RLeased, r_envelope = norm (JObj (dict_set ''task_envelope_sha256'' (JStr digest) draft)),
           r_envelope_sha256 = digest, r_result = None, r_result_sha256 = None, r_created_at = now, r_updated_at = now\<rparr>],
       tasks := update_where (\<lambda>q. t_task_id q = i)
         (\<lambda>r. r\<lparr>t_marker := marker_of e, t_state := TLeased,
                t_attempt_count := t_attempt_count row + 1, t_sha256 := digest, t_current_run_id := Some run_id,
                t_lease_owner := Some owner, t_lease_fencing_token := Some fence,
                t_lease_expires_at := Some expires_at, t_updated_at := now\<rparr>) (tasks d)\<rparr>)"
| result_quarantined:
    "find_task d i = Some row \<Longrightarrow> t_state row = TCancellationRequested \<Longrightarrow> t_current_run_id row = Some run_id \<Longrightarrow>
     find_run d run_id = Some run \<Longrightarrow> r_task_id run = i \<Longrightarrow>
     get (r_envelope run) ''lease_fencing_token'' = map_of res ''lease_fencing_token'' \<Longrightarrow>
     sha256_json E (JObj res) = Inr sha \<Longrightarrow>
     follows E key (task_args i ''task.result_quarantined_after_cancel''
        (mk_aggregate_version (t_marker row) + 1) act p ''internal'') d e \<Longrightarrow>
     db_step E d ((push_event e d)
      \<lparr>runs := update_where (\<lambda>q. r_run_id q = run_id)
        (\<lambda>q. q\<lparr>r_status := RCompletedAfterCancel, r_result := Some (norm (JObj res)), r_result_sha256 := Some sha,
                r_updated_at := now\<rparr>) (runs d),
       tasks := update_where (\<lambda>q. t_task_id q = i)
         (\<lambda>r. r\<lparr>t_marker := marker_of e, t_updated_at := now\<rparr>) (tasks d)\<rparr>)"
| result_recorded:
    "find_task d i = Some row \<Longrightarrow> mk_aggregate_version (t_marker row) = v \<Longrightarrow> t_state row = TRunning \<Longrightarrow>
     t_current_run_id row = Some run_id \<Longrightarrow> find_run d run_id = Some run \<Longrightarrow> r_task_id run = i \<Longrightarrow>
     get (r_envelope run) ''lease_fencing_token'' = map_of res ''lease_fencing_token'' \<Longrightarrow>
     sha256_json E (JObj res) = Inr sha \<Longrightarrow>
     st = result_next_state (run_actions_in run_id {ADispatched, AUnknown} d) completed row \<Longrightarrow>
     rst = (if completed then RCompleted else RFailed) \<Longrightarrow>
     p = JObj [(''run_id'', JStr run_id), (''result_sha256'', JStr sha),
            (''run_status'', JStr (run_status_text rst)), (''next_state'', JStr (task_state_text st))] \<Longrightarrow>
     follows E key (task_args i ''task.result_recorded'' (v + 1) act p ''internal'') d e \<Longrightarrow>
     db_step E d ((push_event e d)
      \<lparr>runs := update_where (\<lambda>q. r_run_id q = run_id)
        (\<lambda>q. q\<lparr>r_status := rst, r_result := Some (norm (JObj res)), r_result_sha256 := Some sha,
                r_updated_at := now\<rparr>) (runs d),
       tasks := update_where (\<lambda>q. t_task_id q = i)
         (\<lambda>r. r\<lparr>t_marker := marker_of e, t_state := st, t_current_run_id := None, t_lease_owner := None,
                t_lease_fencing_token := None, t_lease_expires_at := None, t_updated_at := now\<rparr>) (tasks d)\<rparr>)"
| action_prepared:
    "find_task d tid = Some row \<Longrightarrow> lease_current E row run_id fence n \<Longrightarrow> t_state row = TRunning \<Longrightarrow>
     map_of fs ''task_id'' = Some (JStr tid) \<Longrightarrow> map_of fs ''run_id'' = Some (JStr run_id) \<Longrightarrow>
     map_of fs ''operation_idempotency_key'' = Some (JStr op_key) \<Longrightarrow>
     \<forall>q \<in> set (actions d). a_action_id q \<noteq> aid \<and> a_operation_key q \<noteq> op_key \<Longrightarrow>
     \<exists>q \<in> set (runs d). r_run_id q = run_id \<Longrightarrow>
     bindE (action_record E fs (JStr aid) (t_revision row) now) (with_compensation E fs) = Inr record \<Longrightarrow>
     follows E key (action_args aid ''action.prepared'' 1 act p) d e \<Longrightarrow>
     db_step E d ((push_event e d)
      \<lparr>actions := actions d @
         [\<lparr>a_action_id = aid, a_marker = marker_of e, a_task_id = tid, a_task_revision = t_revision row, a_run_id = run_id,
           a_operation_key = op_key, a_state = APrepared, a_record = norm (JObj record),
           a_provider_operation_id = None, a_provider_evidence_sha256 = None, a_created_at = now, a_updated_at = now\<rparr>]\<rparr>)"
| action_moved:
    "find_action d i = Some row \<Longrightarrow> mk_aggregate_version (a_marker row) = v \<Longrightarrow> action_move row st details \<Longrightarrow>
     record = advance_record (dict_of (a_record row)) (v + 1) st now details \<Longrightarrow>
     evidence_digest E details = Inr h \<Longrightarrow> detail_text details ''provider_operation_id'' = Inr prov \<Longrightarrow>
     follows E key (action_args i (''action.'' @ action_state_text st) (v + 1) act p) d e \<Longrightarrow>
     db_step E d ((push_event e d)
      \<lparr>actions := update_where (\<lambda>q. a_action_id q = i)
         (\<lambda>r. r\<lparr>a_marker := marker_of e, a_state := st, a_record := norm (JObj record), a_provider_operation_id := prov,
           a_provider_evidence_sha256 := h, a_updated_at := now\<rparr>) (actions d)\<rparr>)"
| task_escalated:
    "a \<in> set (actions d) \<Longrightarrow> a_task_id a = tid \<Longrightarrow>
     find_task d tid = Some row \<Longrightarrow> t_state row \<notin> task_terminal \<Longrightarrow> t_state row \<noteq> TNeedsReconciliation \<Longrightarrow>
     follows E key (task_args tid ''task.needs_reconciliation''
            (mk_aggregate_version (t_marker row) + 1) act p ''internal'') d e \<Longrightarrow>
     db_step E d ((push_event e d)
      \<lparr>tasks := update_where (\<lambda>q. t_task_id q = tid)
          (\<lambda>r. r\<lparr>t_marker := (marker_of e)\<lparr>mk_aggregate_version := mk_aggregate_version (t_marker r) + 1\<rparr>,
             t_state := TNeedsReconciliation, t_lease_owner := None, t_lease_fencing_token := None,
             t_lease_expires_at := None, t_updated_at := now\<rparr>) (tasks d)\<rparr>)"

section \<open>Requests make steps\<close>

definition makes_steps :: "env \<Rightarrow> (txs, json) tx \<Rightarrow> bool" where
  "makes_steps E op \<longleftrightarrow> (\<forall>s res s'. op s = Inr (res, s') \<longrightarrow> (db_step E)\<^sup>*\<^sup>* (tx_db s) (tx_db s'))"

lemma makes_stepsI:
  "(\<And>s res s'. op s = Inr (res, s') \<Longrightarrow> db_step E (tx_db s) (tx_db s')) \<Longrightarrow> makes_steps E op"
  unfolding makes_steps_def by blast

lemma tx_db_tick: "tx_db (s\<lparr>tick := n\<rparr>) = tx_db s"
  by simp

lemma find_task_id: "find_task d i = Some row \<Longrightarrow> t_task_id row = i \<and> row \<in> set (tasks d)"
  unfolding find_task_def by (auto dest: find_Some_iff)

lemma transition_steps:
  assumes "transition_in_tx E key row st v act details rs cl cf s = Inr (res, s')" and "tx_db s = d"
    and "find_task d i = Some row" and "mk_aggregate_version (t_marker row) = v"
    and "task_move E d row st rs cl cf"
  shows "db_step E d (tx_db s')"
  using transition_effect [OF assms(1)] assms(2-) find_task_id [OF assms(3)]
  by (auto intro: task_moved simp del: append.simps dict_merge.simps)

lemma objective_steps:
  "makes_steps E (create_objective_op E key fs act)"
  "makes_steps E (set_objective_status_op E key i status v act)"
  "revise_check objective_permitted updates = Inr () \<Longrightarrow> makes_steps E (revise_objective_op E key i updates v act)"
proof -
  show "makes_steps E (create_objective_op E key fs act)"
    by (rule makes_stepsI) (auto dest!: create_objective_effect intro: objective_created)
  show "makes_steps E (set_objective_status_op E key i status v act)"
    by (rule makes_stepsI)
      (auto dest!: set_objective_status_effect intro: objective_moved simp del: append.simps dict_merge.simps)
  show "makes_steps E (revise_objective_op E key i updates v act)" if "revise_check objective_permitted updates = Inr ()"
    by (rule makes_stepsI, drule revise_objective_effect)
      (use that in \<open>auto intro: objective_revised simp del: append.simps dict_merge.simps\<close>)
qed

lemma task_steps:
  "makes_steps E (create_task_op E key fs act)"
  "st = TReady \<and> from = {TProposed, TAwaitingApproval, TExpired} \<or> st = TAwaitingApproval \<and> from = {TProposed} \<Longrightarrow>
     makes_steps E (simple_task_transition_op E key i st from v act)"
  "st \<in> {TAccepted, TRejected, TChangesRequested} \<Longrightarrow> makes_steps E (review_task_op E key i st v rid fids disp act)"
  "revise_check task_permitted updates = Inr () \<Longrightarrow> makes_steps E (revise_task_op E key i updates v rid fnd act)"
  "makes_steps E (resume_after_reconciliation_op E key i v act)"
  "makes_steps E (request_cancellation_op E key i v act)"
  "makes_steps E (confirm_cancellation_op E key i v act)"
proof -
  show "makes_steps E (create_task_op E key fs act)"
    by (rule makes_stepsI, drule create_task_effect, elim exE conjE, simp only:, rule task_created, (assumption | rule refl)+)
  show "makes_steps E (simple_task_transition_op E key i st from v act)"
    if "st = TReady \<and> from = {TProposed, TAwaitingApproval, TExpired} \<or> st = TAwaitingApproval \<and> from = {TProposed}"
    by (rule makes_stepsI, drule simple_transition_effect, elim exE conjE, rule transition_steps, assumption, rule refl,
        assumption, assumption) (use that in \<open>auto intro: make_ready ask_approval\<close>)
  show "makes_steps E (review_task_op E key i st v rid fids disp act)" if "st \<in> {TAccepted, TRejected, TChangesRequested}"
    by (rule makes_stepsI, drule review_task_effect)
      (use that in \<open>blast intro: transition_steps decide\<close>)
  show "makes_steps E (revise_task_op E key i updates v rid fnd act)" if "revise_check task_permitted updates = Inr ()"
    by (rule makes_stepsI, drule revise_task_effect, elim exE conjE, simp only:, rule task_revised,
        (assumption | rule refl | rule that)+)
  show "makes_steps E (resume_after_reconciliation_op E key i v act)"
    by (rule makes_stepsI, drule resume_effect, elim exE conjE, rule transition_steps, assumption, rule refl, assumption, assumption)
      (auto intro!: resume simp: unresolved_def dest: find_task_id)
  show "makes_steps E (request_cancellation_op E key i v act)"
    by (rule makes_stepsI, drule request_cancellation_effect)
      (blast intro: transition_steps cancel_idle ask_cancel)
  show "makes_steps E (confirm_cancellation_op E key i v act)"
    by (rule makes_stepsI, drule confirm_cancellation_effect, elim exE conjE, rule transition_steps, assumption, rule refl, assumption, assumption)
      (auto intro!: confirm_cancel simp: unresolved_def dest: find_task_id)
qed

lemma lease_steps:
  "makes_steps E (lease_task_op E key i v owner expires_at agent mv msha act)"
  "makes_steps E (start_run_op E key i run_id fence v act)"
  "makes_steps E (submit_result_op E key res tid v act)"
  "makes_steps E (expire_lease_op E key i v replay_safe act now_arg)"
proof -
  show "makes_steps E (lease_task_op E key i v owner expires_at agent mv msha act)"
    by (rule makes_stepsI, drule lease_task_effect, elim exE conjE, simp only:, rule task_leased, (assumption | rule refl)+)
  show "makes_steps E (start_run_op E key i run_id fence v act)"
    by (rule makes_stepsI, drule start_run_effect) (fastforce intro: transition_steps start)
  show "makes_steps E (submit_result_op E key res tid v act)"
  proof (rule makes_stepsI)
    fix s w s' assume "submit_result_op E key res tid v act s = Inr (w, s')"
    from submit_result_effect [OF this] obtain i row run_id run fence n now sha where
      *: "find_task (tx_db s) i = Some row" "t_current_run_id row = Some run_id" "find_run (tx_db s) run_id = Some run"
        "r_task_id run = i" "get (r_envelope run) ''lease_fencing_token'' = map_of res ''lease_fencing_token''"
        "sha256_json E (JObj res) = Inr sha"
      and d: "(t_state row = TRunning \<and> mk_aggregate_version (t_marker row) = v \<and>
          record_result E key res i v row run_id now sha act (s\<lparr>tick := n\<rparr>) = Inr (w, s')) \<or>
        (t_state row = TCancellationRequested \<and>
          quarantine_result E key res i row run_id now sha act (s\<lparr>tick := n\<rparr>) = Inr (w, s'))"
      by metis
    from d show "db_step E (tx_db s) (tx_db s')"
    proof (elim disjE conjE)
      assume a: "t_state row = TRunning" "mk_aggregate_version (t_marker row) = v"
        "record_result E key res i v row run_id now sha act (s\<lparr>tick := n\<rparr>) = Inr (w, s')"
      from record_result_effect [OF a(3)] show ?thesis
        by (elim exE conjE) (simp only: tx_db_tick, rule result_recorded [OF *(1) a(2, 1) *(2-)], (rule refl | assumption)+)
    next
      assume a: "t_state row = TCancellationRequested"
        "quarantine_result E key res i row run_id now sha act (s\<lparr>tick := n\<rparr>) = Inr (w, s')"
      from quarantine_effect [OF a(2)] show ?thesis
        by (elim exE conjE) (simp only: tx_db_tick, rule result_quarantined [OF *(1) a(1) *(2-)], assumption)
    qed
  qed
  show "makes_steps E (expire_lease_op E key i v replay_safe act now_arg)"
    by (rule makes_stepsI, drule expire_lease_effect, elim exE conjE, rule transition_steps, assumption, assumption, assumption, assumption)
      (auto intro!: expire dest: find_task_id)
qed

lemma action_steps:
  "makes_steps E (prepare_action_op E key fs fence act)"
  "(\<And>row. a_state row \<in> from \<Longrightarrow> action_move row st details) \<Longrightarrow>
     makes_steps E (action_transition_op E key i v from st act details boundary escalate)"
proof -
  show "makes_steps E (prepare_action_op E key fs fence act)"
    by (rule makes_stepsI, drule prepare_action_effect, elim exE conjE, simp only:, rule action_prepared, (assumption | rule refl)+)
  assume move: "\<And>row. a_state row \<in> from \<Longrightarrow> action_move row st details"
  show "makes_steps E (action_transition_op E key i v from st act details boundary escalate)"
    unfolding makes_steps_def
  proof (intro allI impI)
    fix s res s' assume "action_transition_op E key i v from st act details boundary escalate s = Inr (res, s')"
    from action_transition_effect [OF this] obtain row now rcd h prov e p d1 where
      r: "find_action (tx_db s) i = Some row" "mk_aggregate_version (a_marker row) = v" "a_state row \<in> from"
        "rcd = advance_record (dict_of (a_record row)) (v + 1) st now details"
        "evidence_digest E details = Inr h" "detail_text details ''provider_operation_id'' = Inr prov"
        "follows E key (action_args i (''action.'' @ action_state_text st) (v + 1) act p) (tx_db s) e"
      and d1: "d1 = (push_event e (tx_db s))
      \<lparr>actions := update_where (\<lambda>q. a_action_id q = i)
         (\<lambda>r. r\<lparr>a_marker := marker_of e, a_state := st, a_record := norm (JObj rcd), a_provider_operation_id := prov,
           a_provider_evidence_sha256 := h, a_updated_at := now\<rparr>) (actions (tx_db s))\<rparr>"
      and esc: "if escalate then escalated E key (a_task_id row) act d1 (tx_db s') else tx_db s' = d1"
      by metis
    have "db_step E (tx_db s) d1"
      unfolding d1 by (rule action_moved [OF r(1, 2) move [OF r(3)] r(4-)])
    moreover have "\<exists>a \<in> set (actions d1). a_task_id a = a_task_id row"
    proof -
      have "map a_task_id (actions d1) = map a_task_id (actions (tx_db s))"
        unfolding d1 by (simp add: map_update_where)
      moreover have "row \<in> set (actions (tx_db s))"
        using find_Some_iff r(1) unfolding find_action_def by force
      ultimately have "a_task_id row \<in> set (map a_task_id (actions d1))" by simp
      then show ?thesis by auto
    qed
    then have "tx_db s' = d1 \<or> db_step E d1 (tx_db s')"
      using esc by (auto simp: escalated_def intro: task_escalated split: if_splits)
    ultimately show "(db_step E)\<^sup>*\<^sup>* (tx_db s) (tx_db s')" by auto
  qed
qed

text \<open>What a request does: steps, and at the end one row of \<open>command_dedup\<close>.\<close>

lemma review_decision_state: "review_decision decision = Some st \<Longrightarrow> st = TAccepted \<or> st = TRejected \<or> st = TChangesRequested"
  by (auto simp: review_decision_def split: if_splits)

definition call_steps :: "env \<Rightarrow> call \<Rightarrow> bool" where
  "call_steps E c \<longleftrightarrow> (\<forall>d out d'. c d = (out, d') \<longrightarrow>
     (\<exists>d1 dd. (db_step E)\<^sup>*\<^sup>* d d1 \<and> d' = d1\<lparr>command_dedup := dd\<rparr>))"

lemma no_steps: "\<exists>d1 dd. (db_step E)\<^sup>*\<^sup>* d d1 \<and> d = d1\<lparr>command_dedup := dd\<rparr>"
  by (intro exI [of _ d] exI [of _ "command_dedup d"]) simp

lemma run_command_steps: "makes_steps E op \<Longrightarrow> call_steps E (run_command E key cmd op)"
  using no_steps unfolding call_steps_def makes_steps_def took_effect_def
  by (metis run_command_effect [unfolded took_effect_def])

lemma checked_steps: "(\<And>a. pre = Inr a \<Longrightarrow> call_steps E (f a)) \<Longrightarrow> call_steps E (checked pre f)"
  using no_steps unfolding call_steps_def by (metis checked_effect)

lemma perform_steps: "call_steps E (perform E r)"
proof (cases r)
  case (CreateObjective fs act key)
  then show ?thesis
    by (simp add: create_objective_def checked_steps run_command_steps objective_steps)
next
  case (SetObjectiveStatus i status v act key)
  then show ?thesis by (simp add: set_objective_status_def run_command_steps objective_steps)
next
  case (ReviseObjective i updates v act key)
  then show ?thesis by (simp add: revise_objective_def checked_steps run_command_steps objective_steps)
next
  case (CreateTask fs act key)
  then show ?thesis by (simp add: create_task_def checked_steps run_command_steps task_steps)
next
  case (SetTaskReady i v act key)
  then show ?thesis
    by (simp only: perform.simps set_task_ready_def simple_task_transition_def) (intro run_command_steps task_steps(2), simp)
next
  case (RequestTaskApproval i v act key)
  then show ?thesis
    by (simp only: perform.simps request_task_approval_def simple_task_transition_def) (intro run_command_steps task_steps(2), simp)
next
  case (ReviewTask i decision v rid fids disp act key)
  then show ?thesis
    by (simp only: perform.simps review_task_def Let_def)
      (intro checked_steps run_command_steps task_steps(3),
        auto simp: tx_simps dest!: review_decision_state)
next
  case (ReviseTask i updates v rid fnd act key)
  then show ?thesis by (simp add: revise_task_def checked_steps run_command_steps task_steps)
next
  case (ResumeAfterReconciliation i v act key)
  then show ?thesis by (simp add: resume_after_reconciliation_def run_command_steps task_steps)
next
  case (LeaseTask i v owner expires_at agent mv msha act key)
  then show ?thesis by (simp add: lease_task_def checked_steps run_command_steps lease_steps)
next
  case (StartRun i run_id fence v act key)
  then show ?thesis by (simp add: start_run_def checked_steps run_command_steps lease_steps)
next
  case (SubmitResult res act key)
  then show ?thesis by (auto simp: submit_result_def intro!: checked_steps run_command_steps lease_steps)
next
  case (RequestCancellation i v act key)
  then show ?thesis by (simp add: request_cancellation_def run_command_steps task_steps)
next
  case (ConfirmCancellation i v act key)
  then show ?thesis by (simp add: confirm_cancellation_def run_command_steps task_steps)
next
  case (ExpireLease i v replay_safe act key now_arg)
  then show ?thesis by (simp add: expire_lease_def run_command_steps lease_steps)
next
  case (PrepareAction fs fence act key)
  then show ?thesis by (simp add: prepare_action_def checked_steps run_command_steps action_steps)
next
  case (BeginActionDispatch i v act key)
  then show ?thesis
    by (simp only: perform.simps begin_action_dispatch_def action_transition_def)
      (intro run_command_steps action_steps(2) dispatch, simp)
next
  case (ReconcileAction i outcome v act prov evidence key)
  then show ?thesis
    by (simp only: perform.simps reconcile_action_def action_transition_def)
      (intro checked_steps run_command_steps action_steps(2), auto simp: tx_simps intro!: reconcile)
qed

end
