(* ===== verification/Integrity.thy ===== *)
theory Integrity
  imports Steps
begin

text \<open>
  \<open>Store.verify_integrity\<close>: the check of a whole database that runs whenever a store is opened. The event
  log is replayed (\<open>verify_event_log\<close>), every projection row is compared with the terminal event of its
  aggregate, and every stored record with its digests and with the columns that copy it.

  Outside the model: the contents of the migration files (given by their digests), SQLite's own
  \<open>integrity_check\<close> (given by its answer) and Unicode normalisation (the function \<open>normal\<close> that stands for
  \<open>normalize_text\<close>).
\<close>

section \<open>Comparing columns with record entries\<close>

text \<open>\<open>record.get(k) == column\<close> for a text, an integer and a nullable text column.\<close>

definition same_text :: "json option \<Rightarrow> string \<Rightarrow> bool" where
  "same_text v s = (v = Some (JStr s))"

definition same_int :: "json option \<Rightarrow> int \<Rightarrow> bool" where
  "same_int v n = (case Option.bind v num_of of None \<Rightarrow> False | Some x \<Rightarrow> num_eq x (Frac n 1))"

definition same_nullable :: "json option \<Rightarrow> string option \<Rightarrow> bool" where
  "same_nullable v o' = (case o' of None \<Rightarrow> v = None \<or> v = Some JNull | Some s \<Rightarrow> same_text v s)"

definition entry :: "json \<Rightarrow> string \<Rightarrow> json option" where
  "entry v k = get v k"

text \<open>\<open>canonical_json(json.loads(text)) != text\<close>.\<close>

definition reencodes :: "json \<Rightarrow> string \<Rightarrow> unit result" where
  "reencodes v msg = bindE (canonical v) (\<lambda>w. guardE (w = v) (IntegrityError msg))"

section \<open>The parts of the check\<close>

definition verify_migrations :: "string list \<Rightarrow> db \<Rightarrow> unit result" where
  "verify_migrations files d =
     bindE (guardE (length files = 4) (IntegrityError ''migration inventory does not match schema version'')) (\<lambda>_.
     forE (\<lambda>(version, sha). guardE (map_of (migrations d) version = Some sha)
         (IntegrityError ''migration checksum mismatch'')) (zip [1..int (length files)] files))"

definition verify_marker :: "(string \<times> event_row) list \<Rightarrow> string \<times> event_marker \<Rightarrow> unit result" where
  "verify_marker terminal p =
     (case map_of terminal (fst p) of
        None \<Rightarrow> Inl (IntegrityError ''projection without event'')
      | Some e \<Rightarrow> guardE (snd p = marker_of e) (IntegrityError ''projection/event mismatch''))"

definition projection_rows :: "db \<Rightarrow> (string \<times> event_marker) list" where
  "projection_rows d =
     map (\<lambda>r. (o_objective_id r, o_marker r)) (objectives d) @
     map (\<lambda>r. (t_task_id r, t_marker r)) (tasks d) @
     map (\<lambda>r. (a_action_id r, a_marker r)) (actions d) @
     map (\<lambda>r. (m_memory_id r, m_marker r)) (memory_records d)"

definition projected_kinds :: "string list" where
  "projected_kinds = [''objective'', ''task'', ''action'', ''memory'']"

definition verify_projections :: "(string \<times> event_row) list \<Rightarrow> db \<Rightarrow> unit result" where
  "verify_projections terminal d =
     bindE (forE (verify_marker terminal) (projection_rows d)) (\<lambda>_.
     guardE (fst ` set (projection_rows d) =
         fst ` set (filter (\<lambda>p. ev_aggregate_type (snd p) \<in> set projected_kinds) terminal))
       (IntegrityError ''event/projection aggregate inventory mismatch''))"

definition verify_objective_revision :: "env \<Rightarrow> objective_revision_row \<Rightarrow> unit result" where
  "verify_objective_revision E r =
     bindE (reencodes (or_record r) ''noncanonical objective revision'') (\<lambda>_.
     bindE (digest_profile E (dict_of (or_record r)) objective_profile_excluded) (\<lambda>digest.
     guardE (digest = or_sha256 r \<and> entry (or_record r) ''objective_sha256'' = Some (JStr digest))
       (IntegrityError ''objective revision hash mismatch'')))"

definition verify_task_revision :: "env \<Rightarrow> task_revision_row \<Rightarrow> unit result" where
  "verify_task_revision E r =
     bindE (reencodes (tr_record r) ''task revision hash mismatch'') (\<lambda>_.
     bindE (sha256_json E (tr_record r)) (\<lambda>sha.
     guardE (sha = tr_sha256 r) (IntegrityError ''task revision hash mismatch'')))"

definition verify_run_result :: "env \<Rightarrow> run_row \<Rightarrow> unit result" where
  "verify_run_result E r = (case r_result r of
      None \<Rightarrow> Inr ()
    | Some res \<Rightarrow>
        bindE (reencodes res ''run result hash mismatch'') (\<lambda>_.
        bindE (sha256_json E res) (\<lambda>sha.
        guardE (Some sha = r_result_sha256 r) (IntegrityError ''run result hash mismatch''))))"

definition verify_run :: "env \<Rightarrow> run_row \<Rightarrow> unit result" where
  "verify_run E r =
     bindE (digest_profile E (dict_of (r_envelope r)) [''task_envelope_sha256'']) (\<lambda>envelope_sha.
     bindE (reencodes (r_envelope r) ''run envelope hash mismatch'') (\<lambda>_.
     bindE (guardE (envelope_sha = r_envelope_sha256 r \<and>
         entry (r_envelope r) ''task_envelope_sha256'' = Some (JStr envelope_sha))
       (IntegrityError ''run envelope hash mismatch'')) (\<lambda>_.
     verify_run_result E r)))"

definition verify_objective :: "objective_row \<Rightarrow> unit result" where
  "verify_objective r =
     bindE (reencodes (o_record r) ''objective projection record mismatch'') (\<lambda>_.
     guardE (same_text (entry (o_record r) ''objective_id'') (o_objective_id r) \<and>
         same_int (entry (o_record r) ''aggregate_version'') (mk_aggregate_version (o_marker r)) \<and>
         same_text (entry (o_record r) ''status'') (objective_status_text (o_status r)) \<and>
         same_text (entry (o_record r) ''objective_sha256'') (o_sha256 r))
       (IntegrityError ''objective projection record mismatch''))"

definition verify_action :: "env \<Rightarrow> action_row \<Rightarrow> unit result" where
  "verify_action E r =
     bindE (case entry (a_record r) ''provider_evidence'' of
         None \<Rightarrow> Inr None
       | Some v \<Rightarrow> if truthy v then bindE (sha256_json E v) (\<lambda>h. Inr (Some h)) else Inr None) (\<lambda>evidence_sha.
     bindE (reencodes (a_record r) ''action projection record mismatch'') (\<lambda>_.
     guardE (same_text (entry (a_record r) ''action_id'') (a_action_id r) \<and>
         same_int (entry (a_record r) ''aggregate_version'') (mk_aggregate_version (a_marker r)) \<and>
         same_text (entry (a_record r) ''state'') (action_state_text (a_state r)) \<and>
         same_text (entry (a_record r) ''task_id'') (a_task_id r) \<and>
         same_int (entry (a_record r) ''task_revision'') (a_task_revision r) \<and>
         same_text (entry (a_record r) ''run_id'') (a_run_id r) \<and>
         same_text (entry (a_record r) ''operation_idempotency_key'') (a_operation_key r) \<and>
         same_nullable (entry (a_record r) ''provider_operation_id'') (a_provider_operation_id r) \<and>
         evidence_sha = a_provider_evidence_sha256 r)
       (IntegrityError ''action projection record mismatch'')))"

text \<open>The state that the latest event of a task announces.\<close>

definition task_prefix :: string where
  "task_prefix = ''task.''"

definition expected_task_state :: "event_row \<Rightarrow> json result" where
  "expected_task_state e =
     (if ev_event_type e = ''task.created'' then item (ev_payload e) ''state''
      else if ev_event_type e = ''task.result_recorded'' then item (ev_payload e) ''next_state''
      else if ev_event_type e = ''task.result_quarantined_after_cancel'' then Inr (JStr ''cancellation_requested'')
      else if ev_event_type e = ''task.revised'' then Inr (JStr ''ready'')
      else if take 5 (ev_event_type e) = task_prefix then Inr (JStr (drop 5 (ev_event_type e)))
      else Inl (IntegrityError ''unknown terminal task event''))"

definition lease_count :: "db \<Rightarrow> string \<Rightarrow> nat" where
  "lease_count d i = count_where (\<lambda>e. ev_aggregate_id e = i \<and> ev_event_type e = ''task.leased'') (events d)"

definition revision_run :: "db \<Rightarrow> string \<Rightarrow> int \<Rightarrow> run_row option" where
  "revision_run d i n =
     max_row r_attempt_number (filter (\<lambda>r. r_task_id r = i \<and> r_task_revision r = n) (runs d))"

definition lease_columns :: "task_row \<Rightarrow> string option list" where
  "lease_columns r = [t_lease_owner r, t_lease_fencing_token r, t_lease_expires_at r]"

definition verify_task_lease :: "db \<Rightarrow> task_row \<Rightarrow> unit result" where
  "verify_task_lease d r =
     (if t_state r \<in> {TLeased, TRunning}
      then (case revision_run d (t_task_id r) (t_revision r) of
          None \<Rightarrow> Inl (IntegrityError ''task current run mismatch'')
        | Some run \<Rightarrow>
            bindE (guardE (t_current_run_id r = Some (r_run_id run)) (IntegrityError ''task current run mismatch'')) (\<lambda>_.
            bindE (guardE (list_all (\<lambda>c. c \<noteq> None) (lease_columns r)) (IntegrityError ''task lease projection mismatch'')) (\<lambda>_.
            bindE (item (r_envelope run) ''lease_fencing_token'') (\<lambda>fence.
            guardE (same_text (Some fence) (the (t_lease_fencing_token r))) (IntegrityError ''task lease projection mismatch'')))))
      else guardE (list_all (\<lambda>c. c = None) (lease_columns r)) (IntegrityError ''inactive task retains lease authority''))"

definition verify_task :: "db \<Rightarrow> task_row \<Rightarrow> unit result" where
  "verify_task d r =
     (let mismatch = IntegrityError ''task projection record mismatch'' in
     bindE (found (IntegrityError ''task projection revision missing'')
        (find_task_revision d (t_task_id r) (t_revision r))) (\<lambda>revision_row.
     bindE (found (IntegrityError ''task projection event missing'') (latest_event d (t_task_id r))) (\<lambda>latest.
     bindE (expected_task_state latest) (\<lambda>expected_state.
     (let run = revision_run d (t_task_id r) (t_revision r);
          expected_sha = (case run of Some q \<Rightarrow> r_envelope_sha256 q | None \<Rightarrow> tr_sha256 revision_row);
          revision = tr_record revision_row in
     bindE (guardE (expected_state = JStr (task_state_text (t_state r)) \<and>
         t_attempt_count r = int (lease_count d (t_task_id r)) \<and> t_sha256 r = expected_sha) mismatch) (\<lambda>_.
     bindE (item revision ''objective_id'') (\<lambda>oid.
     bindE (guardE (same_text (Some oid) (t_objective_id r)) mismatch) (\<lambda>_.
     bindE (item revision ''objective_revision'') (\<lambda>orev.
     bindE (guardE (same_int (Some orev) (t_objective_revision r)) mismatch) (\<lambda>_.
     bindE (item revision ''objective_sha256'') (\<lambda>osha.
     bindE (guardE (same_text (Some osha) (t_objective_sha256 r)) mismatch) (\<lambda>_.
     bindE (bindE (item revision ''max_attempts'') py_int) (\<lambda>max_attempts.
     bindE (guardE (t_max_attempts r = max_attempts) mismatch) (\<lambda>_.
     verify_task_lease d r))))))))))))))"

section \<open>Memory, context and the later tables\<close>

definition expected_memory_state :: "string \<Rightarrow> string" where
  "expected_memory_state ty =
     (let state = (if take 7 ty = ''memory.'' then drop 7 ty else ty)
      in if state = ''created'' then ''candidate'' else state)"

definition verify_memory :: "env \<Rightarrow> db \<Rightarrow> memory_row \<Rightarrow> unit result" where
  "verify_memory E d r =
     (case latest_event d (m_memory_id r) of
        None \<Rightarrow> Inl (TypeError ''NoneType'')
      | Some latest \<Rightarrow>
          bindE (reencodes (m_record r) ''memory projection mismatch'') (\<lambda>_.
          bindE (sha256_json E (m_record r)) (\<lambda>sha.
          guardE (sha = m_record_sha256 r \<and>
              same_text (entry (m_record r) ''memory_id'') (m_memory_id r) \<and>
              same_int (entry (m_record r) ''aggregate_version'') (mk_aggregate_version (m_marker r)) \<and>
              same_text (entry (m_record r) ''scope'') (m_scope r) \<and>
              same_text (entry (m_record r) ''type'') (m_type r) \<and>
              same_text (entry (m_record r) ''review_state'') (memory_state_text (m_review_state r)) \<and>
              memory_state_text (m_review_state r) = expected_memory_state (ev_event_type latest) \<and>
              same_text (entry (m_record r) ''statement'') (m_statement r) \<and>
              same_text (entry (m_record r) ''sensitivity'') (m_sensitivity r))
            (IntegrityError ''memory projection mismatch''))))"

definition expected_fts :: "(string \<Rightarrow> string) \<Rightarrow> db \<Rightarrow> (string \<times> string \<times> string \<times> string) list" where
  "expected_fts normal d =
     map (\<lambda>r. (m_memory_id r, normal (m_statement r), m_labels_text r, m_source_text r))
       (filter (\<lambda>r. m_review_state r = MAccepted) (memory_records d))"

definition actual_fts :: "db \<Rightarrow> (string \<times> string \<times> string \<times> string) list" where
  "actual_fts d = map (\<lambda>r. (f_memory_id r, f_statement r, f_labels r, f_source_metadata r)) (memory_fts d)"

text \<open>Equality of two \<open>dict\<close>s built from pairs, the last pair of a key winning.\<close>

definition same_dict :: "(string \<times> 'a) list \<Rightarrow> (string \<times> 'a) list \<Rightarrow> bool" where
  "same_dict xs ys = (\<forall>k \<in> fst ` (set xs \<union> set ys). map_of (rev xs) k = map_of (rev ys) k)"

definition verify_context :: "env \<Rightarrow> context_row \<Rightarrow> unit result" where
  "verify_context E r =
     (let mismatch = ''context pack mismatch'' in
     bindE (reencodes (cp_manifest r) mismatch) (\<lambda>_.
     bindE (sha256_json E (cp_manifest r)) (\<lambda>manifest_sha.
     bindE (guardE (manifest_sha = cp_manifest_sha256 r) (IntegrityError mismatch)) (\<lambda>_.
     bindE (reencodes (cp_content r) mismatch) (\<lambda>_.
     bindE (sha256_json E (cp_content r)) (\<lambda>content_sha.
     guardE (content_sha = cp_content_sha256 r \<and>
         same_text (entry (cp_manifest r) ''context_id'') (cp_context_id r) \<and>
         same_text (entry (cp_manifest r) ''task_id'') (cp_task_id r)) (IntegrityError mismatch)))))))"

definition verify_manifest :: "env \<Rightarrow> manifest_row \<Rightarrow> unit result" where
  "verify_manifest E r =
     (let mismatch = ''agent manifest projection mismatch'' in
     bindE (reencodes (am_manifest r) mismatch) (\<lambda>_.
     bindE (item (am_manifest r) ''manifest_sha256'') (\<lambda>stated.
     bindE (guardE (same_text (Some stated) (am_manifest_sha256 r)) (IntegrityError mismatch)) (\<lambda>_.
     bindE (digest_profile E (dict_of (am_manifest r)) [''manifest_sha256'', ''aggregate_version'']) (\<lambda>digest.
     guardE (digest = am_manifest_sha256 r) (IntegrityError mismatch))))))"

definition verify_links :: "db \<Rightarrow> unit result" where
  "verify_links d =
     bindE (forE (\<lambda>r. guardE (find_task d (im_task_id r) \<noteq> None) (IntegrityError ''interface message points to missing task''))
        (interface_messages d)) (\<lambda>_.
     forE (\<lambda>r. guardE (find_run d (rd_run_id r) \<noteq> None) (IntegrityError ''runner dispatch points to missing run''))
        (runner_dispatches d))"

definition verify_reviews :: "db \<Rightarrow> unit result" where
  "verify_reviews d =
     forE (\<lambda>r. guardE (find_task d (rv_task_id r) \<noteq> None \<and> find_run d (rv_run_id r) \<noteq> None)
        (IntegrityError ''task review points to missing work'')) (task_reviews d)"

section \<open>The whole check\<close>

definition meta_value :: "string \<Rightarrow> db \<Rightarrow> string result" where
  "meta_value k d = found (IntegrityError ''missing Core metadata'') (map_of (meta d) k)"

definition terminal_hashes :: "(string \<times> event_row) list \<Rightarrow> json" where
  "terminal_hashes terminal = JObj (map (\<lambda>p. (fst p, JStr (ev_event_sha256 (snd p)))) (sort_key fst terminal))"

text \<open>The tables of Core, after the log was replayed.\<close>

definition verify_core_tables :: "env \<Rightarrow> (string \<times> event_row) list \<Rightarrow> db \<Rightarrow> unit result" where
  "verify_core_tables E terminal d =
     bindE (verify_projections terminal d) (\<lambda>_.
     bindE (forE (verify_objective_revision E) (objective_revisions d)) (\<lambda>_.
     bindE (forE (verify_task_revision E) (task_revisions d)) (\<lambda>_.
     bindE (forE (verify_run E) (runs d)) (\<lambda>_.
     bindE (forE verify_objective (objectives d)) (\<lambda>_.
     bindE (forE (verify_action E) (actions d)) (\<lambda>_.
     forE (verify_task d) (tasks d)))))))"

definition verify_later_tables :: "env \<Rightarrow> (string \<Rightarrow> string) \<Rightarrow> db \<Rightarrow> unit result" where
  "verify_later_tables E normal d =
     bindE (forE (verify_memory E d) (memory_records d)) (\<lambda>_.
     bindE (guardE (same_dict (actual_fts d) (expected_fts normal d)) (IntegrityError ''memory FTS projection mismatch'')) (\<lambda>_.
     bindE (forE (verify_context E) (context_packs d)) (\<lambda>_.
     bindE (verify_links d) (\<lambda>_.
     bindE (forE (verify_manifest E) (agent_manifests d)) (\<lambda>_.
     verify_reviews d)))))"

definition verify_integrity :: "env \<Rightarrow> string \<Rightarrow> string list \<Rightarrow> (string \<Rightarrow> string) \<Rightarrow> db \<Rightarrow> json result" where
  "verify_integrity E check files normal d =
     bindE (verify_pragmas E) (\<lambda>_.
     bindE (guardE (check = ''ok'') (IntegrityError ''SQLite integrity_check failed'')) (\<lambda>_.
     bindE (verify_migrations files d) (\<lambda>_.
     bindE (verify_event_log E d) (\<lambda>terminal.
     bindE (verify_core_tables E terminal d) (\<lambda>_.
     bindE (verify_later_tables E normal d) (\<lambda>_.
     bindE (meta_value ''database_id'' d) (\<lambda>database_id.
     Inr (JObj [(''database_id'', JStr database_id),
       (''event_high_water'', JInt (int (length (events d)))),
       (''integrity_check'', JStr check),
       (''terminal_hashes'', terminal_hashes terminal)]))))))))"

section \<open>Opening a store\<close>

text \<open>\<open>Store.open\<close> of an existing file: the journal mode, the writer, the connection's settings, and the
  check unless the caller waives it.\<close>

definition open_store ::
  "env \<Rightarrow> bool \<Rightarrow> string \<Rightarrow> string list \<Rightarrow> (string \<Rightarrow> string) \<Rightarrow> bool \<Rightarrow> db \<Rightarrow> unit result" where
  "open_store E exists check files normal verify d =
     bindE (guardE exists (StoreError ''database does not exist'')) (\<lambda>_.
     bindE (guardE (fst (snd (pragmas E)) = ''wal'') (IntegrityError ''unsafe SQLite journal_mode'')) (\<lambda>_.
     bindE (meta_value ''writer_id'' d) (\<lambda>owner.
     bindE (guardE (owner = writer_id E) (IntegrityError ''configured writer does not own this database'')) (\<lambda>_.
     bindE (verify_pragmas E) (\<lambda>_.
     if verify then bindE (verify_integrity E check files normal d) (\<lambda>_. Inr ()) else Inr ())))))"

text \<open>\<open>Core.status\<close>: \<open>COUNT(*) ... GROUP BY state ORDER BY state\<close>.\<close>

definition state_counts :: "string list \<Rightarrow> json" where
  "state_counts states =
     JObj (map (\<lambda>s. (s, JInt (int (count_list states s)))) (sort (remdups states)))"

definition status :: "env \<Rightarrow> string \<Rightarrow> string list \<Rightarrow> (string \<Rightarrow> string) \<Rightarrow> db \<Rightarrow> json result" where
  "status E check files normal d =
     bindE (verify_integrity E check files normal d) (\<lambda>report.
     bindE (item report ''database_id'') (\<lambda>database_id.
     bindE (bindE (meta_value ''schema_version'' d) (\<lambda>v. py_int (JStr v))) (\<lambda>schema_version.
     bindE (meta_value ''application_version'' d) (\<lambda>application_version.
     bindE (item report ''event_high_water'') (\<lambda>high_water.
     Inr (JObj [(''ok'', JBool True),
       (''database_id'', database_id),
       (''schema_version'', JInt schema_version),
       (''application_version'', JStr application_version),
       (''event_high_water'', high_water),
       (''journal_mode'', JStr ''wal''),
       (''synchronous'', JStr ''full''),
       (''objectives'', JInt (int (length (objectives d)))),
       (''tasks'', state_counts (map (\<lambda>r. task_state_text (t_state r)) (tasks d))),
       (''actions'', state_counts (map (\<lambda>r. action_state_text (a_state r)) (actions d)))]))))))"

end
