(* ===== verification/Records.thy ===== *)
theory Records
  imports Integrity
begin

text \<open>
  What a stored record, the normal form of a \<open>dict\<close>, says about the \<open>dict\<close> it was made from: its entries, its
  digests, and the integers it holds.
\<close>

section \<open>Entries\<close>

lemma norm_simps [simp]:
  "norm JNull = JNull" "norm (JBool b) = JBool b" "norm (JInt i) = JInt i" "norm (JStr s) = JStr s"
  "norm (JFloat f) = float_norm f" "norm (JList xs) = JList (map norm xs)"
  by (simp_all add: norm_def)

lemma plain_norm: "plain v \<Longrightarrow> plain (norm v)"
proof (induction v)
  case (JObj d)
  have "plain (norm (snd p))" if "p \<in> set d" for p
    using JObj.IH [OF that, of "snd p"] JObj.prems that by (cases p) (auto simp: list_all_iff)
  then show ?case by (simp add: norm_JObj list_all_iff)
qed (auto simp: list_all_iff)

lemma utf16be_Cons_latin: "utf16be (ucs (c # s)) = 0 # of_char c # utf16be (ucs s)"
proof -
  have "of_char c < (256::nat)" by simp
  moreover from this have "of_char c < (0x10000::nat)" by linarith
  ultimately have "utf16_char (of_char c) = [0, of_char c]" by (simp only: utf16_char_def if_True div_less mod_less)
  then show ?thesis by (simp add: utf16be_def)
qed

lemma utf16be_ucs_inj: "utf16be (ucs s) = utf16be (ucs t) \<longleftrightarrow> s = t"
proof (induction s arbitrary: t)
  case Nil
  then show ?case by (cases t) (simp_all add: utf16be_Cons_latin del: ucs_simps(2), simp add: utf16be_def)
next
  case (Cons c s)
  then show ?case
    by (cases t) (simp_all add: utf16be_Cons_latin del: ucs_simps(2), simp add: utf16be_def)
qed

lemma sort_key_of_map: "sort_key f (map g xs) = map g (sort_key (\<lambda>x. f (g x)) xs)"
proof (induction xs)
  case (Cons x xs)
  have "insort_key f (g x) (map g ys) = map g (insort_key (\<lambda>x. f (g x)) x ys)" for ys
    by (induction ys) simp_all
  with Cons show ?case by simp
qed simp

lemma map_of_filter_key: "map_of d k = map_of (filter (\<lambda>p. fst p = k) d) k"
  by (induction d) auto

lemma map_of_sort_key: "map_of (sort_key (\<lambda>p. utf16be (ucs (fst p))) d) k = map_of d k" for d :: "(string \<times> 'a) list"
proof -
  let ?f = "\<lambda>p :: string \<times> 'a. utf16be (ucs (fst p))"
  have "filter (\<lambda>p. ?f p = utf16be (ucs k)) (sort_key ?f d) = filter (\<lambda>p. ?f p = utf16be (ucs k)) d"
    by (rule sort_key_stable)
  then have "filter (\<lambda>p. fst p = k) (sort_key ?f d) = filter (\<lambda>p. fst p = k) d"
    by (simp only: utf16be_ucs_inj)
  then show ?thesis by (metis map_of_filter_key)
qed

lemma get_norm: "get (norm (JObj d)) k = map_option norm (map_of d k)"
proof -
  have "map_of (map (\<lambda>p. (fst p, norm (snd p))) d) k = map_option norm (map_of d k)"
    by (induction d) auto
  then show ?thesis by (simp add: norm_JObj map_of_sort_key)
qed

lemma norm_idem [simp]: "norm (norm v) = norm v"
proof (induction v)
  case (JFloat f)
  then show ?case by (cases f) (simp_all add: float_norm_def)
next
  case (JList xs)
  then show ?case by simp
next
  case (JObj d)
  let ?n = "map (\<lambda>p :: string \<times> json. (fst p, norm (snd p)))"
  let ?s = "sort_key (\<lambda>p :: string \<times> json. utf16be (ucs (fst p)))"
  have c: "?n (?s xs) = ?s (?n xs)" for xs
    by (simp add: sort_key_of_map)
  have "?n (?n d) = ?n d" using JObj.IH by auto
  then have "norm (norm (JObj d)) = JObj (?s (?s (?n d)))"
    unfolding norm_JObj c by (simp only:)
  then show ?case unfolding norm_JObj by (simp add: sort_key_id_if_sorted)
qed simp_all


section \<open>Digests\<close>

lemma dict_of_norm: "dict_of (norm (JObj d)) = sort_key (\<lambda>p. utf16be (ucs (fst p))) (map (\<lambda>p. (fst p, norm (snd p))) d)"
  by (simp add: norm_JObj dict_of_def)

lemma norm_without:
  "norm (JObj (dict_without ex (dict_of (norm (JObj d))))) = norm (JObj (dict_without ex d))"
proof -
  let ?n = "map (\<lambda>p :: string \<times> json. (fst p, norm (snd p)))"
  let ?s = "sort_key (\<lambda>p :: string \<times> json. utf16be (ucs (fst p)))"
  have f: "dict_without ex (?s xs) = ?s (dict_without ex xs)" for xs
    by (simp add: dict_without_def filter_sort)
  have n: "dict_without ex (?n xs) = ?n (dict_without ex xs)" for xs
    by (induction xs) (auto simp: dict_without_def)
  have "norm (JObj (?s (?n xs))) = norm (norm (JObj xs))" for xs
    by (simp only: norm_JObj)
  then have "norm (JObj (?s (?n xs))) = norm (JObj xs)" for xs by simp
  then show ?thesis by (simp only: dict_of_norm f n)
qed

lemma without_set: "k \<in> set ex \<Longrightarrow> dict_without ex (dict_set k v d) = dict_without ex d"
  by (induction k v d rule: dict_set.induct) (auto simp: dict_without_def)

lemma norm_without_set:
  "k \<in> set ex \<Longrightarrow> norm (JObj (dict_without ex (dict_of (norm (JObj (dict_set k v d)))))) = norm (JObj (dict_without ex d))"
  by (simp add: norm_without without_set)

lemma digest_profile_norm:
  assumes "canonical (JObj d) = Inr (JObj d)"
  shows "digest_profile E d ex = Inr (sha256 E (norm (JObj (dict_without ex d))))"
proof -
  have "\<exists>w. canonical (JObj (dict_without ex d)) = Inr w"
    using assms unfolding canonical_ok_JObj [of "dict_without ex d"]
    by (metis canonical_ok_JObj dict_without_def filter_is_subset subset_iff)
  then show ?thesis by (simp add: digest_profile_def sha256_json_Inr)
qed

lemma dict_of_JObj [simp]: "dict_of (JObj d) = d"
  by (simp add: dict_of_def)

lemma norm_JObj_is_obj: "JObj (dict_of (norm (JObj d))) = norm (JObj d)"
  by (simp add: norm_JObj)

section \<open>Integers\<close>

lemma digits_num_value: "digits_num ds = digits_value ds"
proof -
  have "foldl (\<lambda>a d. 10 * a + d) a ds = a * 10 ^ length ds + digits_value ds" for a
    by (induction ds arbitrary: a) (simp_all add: algebra_simps)
  then show ?thesis by (simp add: digits_num_def)
qed

lemma bit_len_le: "n < 2 ^ k \<Longrightarrow> bit_len n \<le> k"
proof (induction k arbitrary: n)
  case (Suc k)
  then have "n div 2 < 2 ^ k" by simp
  from Suc.IH [OF this] show ?case by (simp add: bit_len.simps [of n])
qed (simp add: bit_len.simps)

lemma bit_len_ge: "n \<noteq> 0 \<Longrightarrow> 2 ^ (bit_len n - 1) \<le> n"
proof (induction n rule: bit_len.induct)
  case (1 n)
  show ?case
  proof (cases "n div 2 = 0")
    case True
    with 1 show ?thesis by (simp add: bit_len.simps)
  next
    case False
    with 1 have "2 ^ (bit_len (n div 2) - 1) \<le> n div 2" by simp
    moreover have "0 < bit_len (n div 2)" using False by (simp add: bit_len.simps)
    moreover have "2 ^ bit_len (n div 2) = 2 * (2 :: nat) ^ (bit_len (n div 2) - 1)"
      using \<open>0 < bit_len (n div 2)\<close> by (simp flip: power_Suc)
    ultimately have "2 ^ bit_len (n div 2) \<le> n" by linarith
    then show ?thesis using 1 by (simp add: bit_len.simps [of n])
  qed
qed

lemma nearest_double_exact:
  assumes "n < 2 ^ 53"
  shows "\<exists>k. nearest_double n 1 = (n * 2 ^ k, 2 ^ k)"
proof (cases "n = 0")
  case True
  then show ?thesis
    by (intro exI [of _ 54]) (simp add: nearest_double_def Let_def bit_len.simps round_half_even_def)
next
  case False
  let ?L = "bit_len n"
  have L: "?L \<le> 53" "0 < ?L" using bit_len_le [OF assms] False by (simp_all add: bit_len.simps [of n])
  have b1: "bit_len 1 = 1" by (simp add: bit_len.simps)
  have "2 ^ (?L - 1) * 2 ^ (54 - ?L) \<le> n * 2 ^ (54 - ?L)"
    by (rule mult_le_mono1 [OF bit_len_ge [OF False]])
  moreover have "2 ^ (?L - 1) * 2 ^ (54 - ?L) = (2 :: nat) ^ (?L - 1 + (54 - ?L))"
    by (simp only: power_add)
  moreover have "?L - 1 + (54 - ?L) = 53" using L by linarith
  ultimately have q: "2 ^ 53 \<le> n * 2 ^ (54 - ?L)" by (simp only:)
  have e0: "int ?L - int (bit_len 1) - 53 = int ?L - 54" using b1 by simp
  have n0: "nat (- (int ?L - 54)) = 54 - ?L" "nat (int ?L - 54) = 0" using L by auto
  have e: "max (int ?L - 54 + 1) (-1074) = int ?L - 53" using L by simp
  have n1: "nat (- (int ?L - 53)) = 53 - ?L" "nat (int ?L - 53) = 0" using L by auto
  have r: "round_half_even m 1 = m" for m by (simp add: round_half_even_def)
  have "nearest_double n 1 = (n * 2 ^ (53 - ?L), 2 ^ (53 - ?L))"
    unfolding nearest_double_def Let_def e0 n0 using q
    by (simp only: power_0 mult_1_right div_by_1 mult_1 if_True e n1 r)
  then show ?thesis by blast
qed

lemma nearest_double_zero: "fst (nearest_double 0 d) = 0"
  by (simp add: nearest_double_def Let_def round_half_even_def)

lemma float_num_integral:
  assumes "int (length ds) \<le> n" and "digits_value ds * 10 ^ nat (n - int (length ds)) < 2 ^ 53"
  shows "\<exists>k. float_num (PyFloat neg ds n) =
    Frac ((if neg then -1 else 1) * int (digits_value ds * 10 ^ nat (n - int (length ds))) * 2 ^ k) (2 ^ k)"
proof -
  let ?v = "digits_value ds * 10 ^ nat (n - int (length ds))"
  obtain k where k: "nearest_double ?v 1 = (?v * 2 ^ k, 2 ^ k)" using nearest_double_exact [OF assms(2)] by blast
  have "nat (- (n - int (length ds))) = 0" using assms(1) by simp
  then have "float_num (PyFloat neg ds n) = Frac ((if neg then -1 else 1) * int (?v * 2 ^ k)) (int (2 ^ k))"
    by (simp only: float_num_def pyfloat.case Let_def digits_num_value power_0 k fst_conv snd_conv)
  then show ?thesis by (intro exI [of _ k]) (simp add: mult.assoc)
qed

lemma canonical_JInt: "canonical (JInt i) = Inr w \<Longrightarrow> \<bar>i\<bar> < 2 ^ 53"
  by (auto simp: canonical_def canonical_json_def to_u_def bindE_Inr_iff split: if_splits)

text \<open>An integer column and the entry that it was bound from agree, as long as the stored entry is canonical.\<close>

lemma bind_int_norm:
  assumes "bind_int v = Inr n" and "canonical (norm v) = Inr (norm v)"
  shows "py_int (norm v) = Inr n"
proof (cases v)
  case (JFloat f)
  show ?thesis
  proof (cases "norm v = v")
    case False
    with JFloat obtain neg ds m where f: "f = PyFloat neg ds m" by (cases f) (auto simp: float_norm_def)
    let ?v = "digits_value ds * 10 ^ nat (m - int (length ds))"
    let ?i = "(if neg then -1 else 1) * int ?v"
    have ds: "int (length ds) \<le> m \<or> ds = []" using False JFloat f by (auto simp: float_norm_def split: if_splits)
    have nv: "norm v = JInt ?i"
      using False JFloat f by (auto simp: float_norm_def split: if_splits)
    from assms(2) have "\<bar>?i\<bar> < 2 ^ 53" unfolding nv by (rule canonical_JInt)
    then have "int ?v < 2 ^ 53" by (cases neg) (simp_all add: abs_mult)
    then have b: "?v < 2 ^ 53" by (metis of_nat_less_iff of_nat_numeral of_nat_power)
    have "lossless_int v = Some ?i"
    proof (cases "ds = []")
      case True
      then show ?thesis using JFloat f
        by (simp add: lossless_int_def float_num_def digits_num_def nearest_double_zero Let_def)
    next
      case False
      then have "int (length ds) \<le> m" using ds by simp
      from float_num_integral [OF this b]
      obtain k where "float_num f = Frac (?i * 2 ^ k) (2 ^ k)" unfolding f by blast
      then show ?thesis using JFloat by (simp add: lossless_int_def)
    qed
    moreover have "lossless_int v = Some n"
      using assms(1) by (auto simp: bind_int_def split: option.splits if_splits)
    ultimately show ?thesis unfolding nv by (simp add: py_int_def)
  qed (use JFloat assms bind_int_py in simp)
qed (use assms bind_int_py in \<open>auto simp: bind_int_def lossless_int_def\<close>)

end
