(* ===== verification/Reach.thy ===== *)
theory Reach
  imports Records
begin

text \<open>
  Reachable databases: what the requests of one service, one writer with one hash function, can make of an
  initialised store. An invariant of the service holds initially, survives every step of the tables, and
  does not look at the table of recorded commands; the locale \<open>service_invariant\<close> states this contract and
  its lemmas carry an invariant to every request and every reachable database.
\<close>

section \<open>Reachable databases\<close>

text \<open>Two environments of one service: time, entropy, faults and schemas may differ.\<close>

definition same_service :: "env \<Rightarrow> env \<Rightarrow> bool" where
  "same_service E F \<longleftrightarrow> sha256 F = sha256 E \<and> writer_id F = writer_id E"

inductive reachable :: "env \<Rightarrow> db \<Rightarrow> bool" for E where
  start: "reachable E (initial_db shas version database_id (writer_id E))"
| request: "reachable E d \<Longrightarrow> same_service E F \<Longrightarrow> perform F r d = (out, d') \<Longrightarrow> reachable E d'"

lemma same_service_digests:
  assumes "same_service E F"
  shows "sha256_json F = sha256_json E" and "digest_profile F = digest_profile E"
proof -
  show s: "sha256_json F = sha256_json E"
    using assms by (intro ext sha256_json_cong) (simp add: same_service_def)
  show "digest_profile F = digest_profile E" by (intro ext) (simp add: digest_profile_def s)
qed

locale service_invariant =
  fixes E :: env and P :: "db \<Rightarrow> bool"
  assumes initially: "P (initial_db shas version database_id (writer_id E))"
    and step: "same_service E F \<Longrightarrow> P d \<Longrightarrow> db_step F d d' \<Longrightarrow> P d'"
    and dedup: "P d \<Longrightarrow> P (d\<lparr>command_dedup := dd\<rparr>)"
begin

lemma steps: "(db_step F)\<^sup>*\<^sup>* d d' \<Longrightarrow> same_service E F \<Longrightarrow> P d \<Longrightarrow> P d'"
  by (induction rule: rtranclp_induct) (auto intro: step)

lemma kept: "perform F r d = (out, d') \<Longrightarrow> same_service E F \<Longrightarrow> P d \<Longrightarrow> P d'"
  using perform_steps [of F r] steps dedup unfolding call_steps_def by metis

lemma always: "reachable E d \<Longrightarrow> P d"
  by (induction rule: reachable.induct) (auto intro: initially kept)

end

text \<open>Two invariants are one, and one invariant may rest on another.\<close>

locale service_invariant_under = under: service_invariant E Q for E Q +
  fixes P :: "db \<Rightarrow> bool"
  assumes initially': "P (initial_db shas version database_id (writer_id E))"
    and step': "same_service E F \<Longrightarrow> Q d \<Longrightarrow> P d \<Longrightarrow> db_step F d d' \<Longrightarrow> P d'"
    and dedup': "P d \<Longrightarrow> P (d\<lparr>command_dedup := dd\<rparr>)"

sublocale service_invariant_under \<subseteq> both: service_invariant E "\<lambda>d. Q d \<and> P d"
  by unfold_locales (auto intro: under.initially under.step under.dedup initially' step' dedup')

end
