(* ===== verification/Invariants.thy ===== *)
theory Invariants
  imports Reach
begin

text \<open>
  The invariants that tie the tables to the event log and to each other: the projection contract of the
  four tables, and the references between rows.
\<close>

section \<open>The projection contract\<close>

context projection_table
begin

text \<open>An event of another kind of aggregate does not touch the table.\<close>

lemma unrelated:
  assumes "tracks rows key mark kind d" and "follows E k a d e" and "aggregate_type a \<noteq> kind"
    and "\<forall>q. latest_event d (aggregate_id a) = Some q \<longrightarrow> ev_aggregate_type q = aggregate_type a"
    and "rows d' = rows d" and "events d' = events d @ [e]"
  shows "tracks rows key mark kind d'"
proof (rule other_event [OF assms(1-3, 5, 6)])
  show "aggregate_id a \<notin> key ` set (rows d)"
  proof (cases "latest_event d (aggregate_id a)")
    case None
    show ?thesis
    proof
      assume "aggregate_id a \<in> key ` set (rows d)"
      then obtain r where "r \<in> set (rows d)" "key r = aggregate_id a" by auto
      with row_event [OF assms(1), of r] None show False by auto
    qed
  next
    case (Some q)
    with assms(3, 4) row_kind [OF assms(1) Some] show ?thesis by auto
  qed
qed

lemma latest_kind:
  assumes "tracks rows key mark kind d" and "r \<in> set (rows d)"
  shows "\<exists>q. latest_event d (key r) = Some q \<and> ev_aggregate_type q = kind"
  using row_event [OF assms] by blast

text \<open>An \<open>UPDATE\<close> by key changes the one row that a lookup by that key finds.\<close>

lemma update_found:
  assumes "tracks rows key mark kind d" and "List.find (\<lambda>r. key r = i) (rows d) = Some row"
  shows "update_where (\<lambda>r. key r = i) f (rows d) = update_where (\<lambda>r. key r = i) (\<lambda>_. f row) (rows d)"
proof -
  have "f r = f row" if "r \<in> set (rows d)" "key r = i" for r
    using find_by_key [of key "rows d" r] assms that by (auto simp: tracks_def)
  then show ?thesis by (simp add: update_where_def)
qed

lemma update_one:
  assumes t: "tracks rows key mark kind d" and f: "follows E k a d e" and kd: "aggregate_type a = kind"
    and row: "List.find (\<lambda>r. key r = aggregate_id a) (rows d) = Some row"
    and d': "rows d' = update_where (\<lambda>r. key r = aggregate_id a) g (rows d)" "events d' = events d @ [e]"
    and g: "key (g row) = aggregate_id a" "mark (g row) = marker_of e"
  shows "tracks rows key mark kind d'"
  by (rule update_row [OF t f kd, where g = "\<lambda>_. g row"])
    (use d' g find_Some_iff [OF row] in \<open>auto simp: update_found [OF t row, of g] intro: image_eqI [of _ _ row]\<close>)

end

definition own_kind :: "event_args \<Rightarrow> db \<Rightarrow> bool" where
  "own_kind a d \<longleftrightarrow> (\<forall>q. latest_event d (aggregate_id a) = Some q \<longrightarrow> ev_aggregate_type q = aggregate_type a)"

lemma own_kind_first:
  "follows E key a d e \<Longrightarrow> versions_positive d \<Longrightarrow> aggregate_version a = 1 \<Longrightarrow> own_kind a d"
  using follows_first by (simp add: own_kind_def)

lemma own_kind_row:
  assumes "projections_ok d"
  shows "find_objective d i = Some r1 \<Longrightarrow> aggregate_id a = i \<Longrightarrow> aggregate_type a = ''objective'' \<Longrightarrow> own_kind a d"
    and "find_task d i = Some r2 \<Longrightarrow> aggregate_id a = i \<Longrightarrow> aggregate_type a = ''task'' \<Longrightarrow> own_kind a d"
    and "find_action d i = Some r3 \<Longrightarrow> aggregate_id a = i \<Longrightarrow> aggregate_type a = ''action'' \<Longrightarrow> own_kind a d"
  using assms ot.latest_kind [of d r1] tt.latest_kind [of d r2] at.latest_kind [of d r3]
  by (auto simp: own_kind_def projections_ok_def find_objective_def find_task_def find_action_def dest!: find_Some_iff)

lemma projections_push:
  assumes p: "projections_ok d" and f: "follows E k a d e" and o: "own_kind a d"
    and d': "events d' = events d @ [e]" "memory_records d' = memory_records d"
    and kind: "aggregate_type a \<noteq> ''memory''"
    and t: "if aggregate_type a = ''objective'' then tracks objectives o_objective_id o_marker ''objective'' d'
      else objectives d' = objectives d"
      "if aggregate_type a = ''task'' then tracks tasks t_task_id t_marker ''task'' d' else tasks d' = tasks d"
      "if aggregate_type a = ''action'' then tracks actions a_action_id a_marker ''action'' d' else actions d' = actions d"
  shows "projections_ok d'"
proof -
  have "versions_positive (push_event e d)" using p f by (simp add: projections_ok_def versions_positive_push)
  then have v: "versions_positive d'" using d' by (simp add: versions_positive_def)
  note p = p [unfolded projections_ok_def] and o = o [unfolded own_kind_def]
  have "tracks objectives o_objective_id o_marker ''objective'' d'"
    using t(1) ot.unrelated [OF _ f _ o _ d'(1)] p by (auto split: if_splits)
  moreover have "tracks tasks t_task_id t_marker ''task'' d'"
    using t(2) tt.unrelated [OF _ f _ o _ d'(1)] p by (auto split: if_splits)
  moreover have "tracks actions a_action_id a_marker ''action'' d'"
    using t(3) at.unrelated [OF _ f _ o _ d'(1)] p by (auto split: if_splits)
  moreover have "tracks memory_records m_memory_id m_marker ''memory'' d'"
    using mt.unrelated [OF _ f kind o d'(2, 1)] p by simp
  ultimately show ?thesis using v by (simp add: projections_ok_def)
qed

lemma objective_args_simps [simp]:
  "aggregate_type (objective_args i ty v act p) = ''objective''"
  "aggregate_id (objective_args i ty v act p) = i"
  "event_type (objective_args i ty v act p) = ty"
  "aggregate_version (objective_args i ty v act p) = v"
  "payload (objective_args i ty v act p) = p"
  by (simp_all add: objective_args_def)

lemma move_task_simps [simp]:
  "t_task_id (move_task m v st now cl cf r) = t_task_id r"
  "t_marker (move_task m v st now cl cf r) = m\<lparr>mk_aggregate_version := v\<rparr>"
  "t_state (move_task m v st now cl cf r) = st"
  "t_revision (move_task m v st now cl cf r) = t_revision r"
  "t_sha256 (move_task m v st now cl cf r) = t_sha256 r"
  "t_objective_id (move_task m v st now cl cf r) = t_objective_id r"
  "t_objective_revision (move_task m v st now cl cf r) = t_objective_revision r"
  "t_objective_sha256 (move_task m v st now cl cf r) = t_objective_sha256 r"
  "t_attempt_count (move_task m v st now cl cf r) = t_attempt_count r"
  "t_max_attempts (move_task m v st now cl cf r) = t_max_attempts r"
  "lease_columns (move_task m v st now cl cf r) = (if cl \<or> cf then [None, None, None] else lease_columns r)"
  "t_current_run_id (move_task m v st now cl cf r) = (if cl then None else t_current_run_id r)"
  by (simp_all add: move_task_def Let_def lease_columns_def)

text \<open>A row is inserted with the first event of its aggregate, or changed with a later one.\<close>

lemma projections_insert:
  assumes p: "projections_ok d" and f: "follows E k a d e" and one: "aggregate_version a = 1"
    and d': "events d' = events d @ [e]" "memory_records d' = memory_records d"
    and t: "aggregate_type a = ''objective'' \<and> tasks d' = tasks d \<and> actions d' = actions d \<and>
        (\<exists>r. objectives d' = objectives d @ [r] \<and> o_objective_id r = aggregate_id a \<and> o_marker r = marker_of e) \<or>
      aggregate_type a = ''task'' \<and> objectives d' = objectives d \<and> actions d' = actions d \<and>
        (\<exists>r. tasks d' = tasks d @ [r] \<and> t_task_id r = aggregate_id a \<and> t_marker r = marker_of e) \<or>
      aggregate_type a = ''action'' \<and> objectives d' = objectives d \<and> tasks d' = tasks d \<and>
        (\<exists>r. actions d' = actions d @ [r] \<and> a_action_id r = aggregate_id a \<and> a_marker r = marker_of e)"
  shows "projections_ok d'"
proof -
  note q = p [unfolded projections_ok_def]
  have o: "own_kind a d" using own_kind_first [OF f _ one] q by simp
  show ?thesis
    by (rule projections_push [OF p f o d'])
      (use t q ot.insert_row [OF _ f _ one _ _ d'(1)] tt.insert_row [OF _ f _ one _ _ d'(1)]
        at.insert_row [OF _ f _ one _ _ d'(1)] in auto)
qed

lemma objective_updated:
  assumes p: "projections_ok d" and row: "find_objective d i = Some row" and f: "follows E k (objective_args i ty v act pl) d e"
    and g: "o_objective_id (g row) = i" "o_marker (g row) = marker_of e"
    and d': "events d' = events d @ [e]" "memory_records d' = memory_records d" "tasks d' = tasks d" "actions d' = actions d"
      "objectives d' = update_where (\<lambda>q. o_objective_id q = i) g (objectives d)"
  shows "projections_ok d'"
  by (rule projections_push [OF p f own_kind_row(1) [OF p row] d'(1, 2)])
    (use d' g p row ot.update_one [OF _ f, where d' = d' and g = g and row = row] in \<open>auto simp: projections_ok_def find_objective_def\<close>)

lemma task_updated:
  assumes p: "projections_ok d" and row: "find_task d i = Some row" and f: "follows E k (task_args i ty v act pl sens) d e"
    and g: "t_task_id (g row) = i" "t_marker (g row) = marker_of e"
    and d': "events d' = events d @ [e]" "memory_records d' = memory_records d" "objectives d' = objectives d" "actions d' = actions d"
      "tasks d' = update_where (\<lambda>q. t_task_id q = i) g (tasks d)"
  shows "projections_ok d'"
  by (rule projections_push [OF p f own_kind_row(2) [OF p row] d'(1, 2)])
    (use d' g p row tt.update_one [OF _ f, where d' = d' and g = g and row = row] in \<open>auto simp: projections_ok_def find_task_def\<close>)

lemma action_updated:
  assumes p: "projections_ok d" and row: "find_action d i = Some row" and f: "follows E k (action_args i ty v act pl) d e"
    and g: "a_action_id (g row) = i" "a_marker (g row) = marker_of e"
    and d': "events d' = events d @ [e]" "memory_records d' = memory_records d" "objectives d' = objectives d" "tasks d' = tasks d"
      "actions d' = update_where (\<lambda>q. a_action_id q = i) g (actions d)"
  shows "projections_ok d'"
  by (rule projections_push [OF p f own_kind_row(3) [OF p row] d'(1, 2)])
    (use d' g p row at.update_one [OF _ f, where d' = d' and g = g and row = row] in \<open>auto simp: projections_ok_def find_action_def\<close>)

lemma find_ids:
  "find_objective d i = Some ro \<Longrightarrow> o_objective_id ro = i \<and> ro \<in> set (objectives d)"
  "find_action d i = Some ra \<Longrightarrow> a_action_id ra = i \<and> ra \<in> set (actions d)"
  "find_run d i = Some rr \<Longrightarrow> r_run_id rr = i \<and> rr \<in> set (runs d)"
  unfolding find_objective_def find_action_def find_run_def by (auto dest: find_Some_iff)

lemma projections_step:
  assumes "db_step E d d'" and p: "projections_ok d"
  shows "projections_ok d'"
  using assms(1)
proof cases
  case objective_created
  show ?thesis by (rule projections_insert [OF p objective_created(2)]) (simp_all add: objective_created(1))
next
  case objective_moved
  then show ?thesis by (intro objective_updated [OF p objective_moved(2, 5)]) (auto dest: find_ids)
next
  case objective_revised
  show ?thesis
    by (rule objective_updated [OF p objective_revised(2, 6)])
      (use objective_revised find_ids in \<open>simp_all\<close>)
next
  case task_created
  show ?thesis by (rule projections_insert [OF p task_created(4)]) (simp_all add: task_created(1))
next
  case task_moved
  show ?thesis
    by (rule task_updated [OF p task_moved(2, 5)]) (use task_moved find_task_id in \<open>simp_all\<close>)
next
  case task_revised
  show ?thesis
    by (rule task_updated [OF p task_revised(2, 11)]) (use task_revised find_task_id in \<open>simp_all\<close>)
next
  case task_leased
  show ?thesis
    by (rule task_updated [OF p task_leased(2, 9)]) (use task_leased find_task_id in \<open>simp_all\<close>)
next
  case result_quarantined
  show ?thesis
    by (rule task_updated [OF p result_quarantined(2, 9)]) (use result_quarantined find_task_id in \<open>simp_all\<close>)
next
  case result_recorded
  show ?thesis
    by (rule task_updated [OF p result_recorded(2, 13)]) (use result_recorded find_task_id in \<open>simp_all\<close>)
next
  case action_prepared
  show ?thesis by (rule projections_insert [OF p action_prepared(11)]) (simp_all add: action_prepared(1))
next
  case action_moved
  show ?thesis
    by (rule action_updated [OF p action_moved(2, 8)]) (use action_moved find_ids in \<open>simp_all\<close>)
next
  case task_escalated
  show ?thesis
    by (rule task_updated [OF p task_escalated(4, 7)]) (use task_escalated find_task_id in \<open>simp_all\<close>)
qed

text \<open>The table of recorded commands is no part of it.\<close>

lemma latest_event_dedup [simp]: "latest_event (d\<lparr>command_dedup := dd\<rparr>) i = latest_event d i"
  by (simp add: latest_event_def)

lemma tables_initial [simp]:
  "events (initial_db s v i w) = []" "objective_revisions (initial_db s v i w) = []" "objectives (initial_db s v i w) = []"
  "task_revisions (initial_db s v i w) = []" "tasks (initial_db s v i w) = []" "runs (initial_db s v i w) = []"
  "actions (initial_db s v i w) = []" "memory_records (initial_db s v i w) = []" "command_dedup (initial_db s v i w) = []"
  by (simp_all add: initial_db_def)

interpretation projections: service_invariant E projections_ok for E
  by (unfold_locales; (rule projections_step; assumption)?; simp add: projections_ok_def versions_positive_def tracks_def)

section \<open>References between rows\<close>

lemma image_update_where: "(\<And>r. k (f r) = k r) \<Longrightarrow> k ` set (update_where p f rs) = k ` set rs"
  by (metis list.set_map map_update_where)

lemma ball_update_where:
  "(\<forall>r \<in> set (update_where p f rs). Q r) \<longleftrightarrow> (\<forall>r \<in> set rs. if p r then Q (f r) else Q r)"
  by (induction rs) auto

lemma map_mark_run: "(\<And>r st n. k (r\<lparr>r_status := st, r_updated_at := n\<rparr>) = k r) \<Longrightarrow> map k (mark_run row rs now rows) = map k rows"
  by (auto simp: mark_run_def map_update_where split: option.splits)

lemma image_mark_run:
  "(\<And>r st n. k (r\<lparr>r_status := st, r_updated_at := n\<rparr>) = k r) \<Longrightarrow> k ` set (mark_run row rs now rows) = k ` set rows"
  by (metis list.set_map map_mark_run)

definition task_ids :: "db \<Rightarrow> string set" where
  "task_ids d = t_task_id ` set (tasks d)"

definition run_keys :: "db \<Rightarrow> (string \<times> string) set" where
  "run_keys d = (\<lambda>r. (r_run_id r, r_task_id r)) ` set (runs d)"

definition revision_keys :: "db \<Rightarrow> (string \<times> int \<times> string) set" where
  "revision_keys d = (\<lambda>r. (or_objective_id r, or_revision r, or_sha256 r)) ` set (objective_revisions d)"

text \<open>
  The references hold, also those that no foreign key declares: revisions and runs belong to tasks, the current
  run of a task and the run of an action are runs of that task, and objectives and tasks name a revision of
  the objective with its digest. Runs have distinct identifiers and actions distinct operation keys.
\<close>

definition task_links :: "db \<Rightarrow> task_row \<Rightarrow> bool" where
  "task_links d t \<longleftrightarrow>
     (\<forall>i. t_current_run_id t = Some i \<longrightarrow> (i, t_task_id t) \<in> run_keys d) \<and>
     (t_objective_id t, t_objective_revision t, t_objective_sha256 t) \<in> revision_keys d"

definition links_ok :: "db \<Rightarrow> bool" where
  "links_ok d \<longleftrightarrow>
     tr_task_id ` set (task_revisions d) \<subseteq> task_ids d \<and>
     r_task_id ` set (runs d) \<subseteq> task_ids d \<and>
     distinct (map r_run_id (runs d)) \<and>
     (\<forall>t \<in> set (tasks d). task_links d t) \<and>
     (\<forall>a \<in> set (actions d). (a_run_id a, a_task_id a) \<in> run_keys d) \<and>
     distinct (map a_operation_key (actions d)) \<and>
     (\<forall>q \<in> set (objectives d). (o_objective_id q, o_revision q, o_sha256 q) \<in> revision_keys d)"

lemma links_step:
  assumes "db_step E d d'" and l: "links_ok d"
  shows "links_ok d'"
  using assms(1)
proof cases
  case objective_created
  show ?thesis unfolding objective_created(1)
    using l by (auto simp: links_ok_def task_links_def task_ids_def run_keys_def revision_keys_def)
next
  case objective_moved
  show ?thesis unfolding objective_moved(1)
    using l by (auto simp: links_ok_def task_links_def task_ids_def run_keys_def revision_keys_def ball_update_where)
next
  case objective_revised
  show ?thesis unfolding objective_revised(1)
    using l by (auto simp: links_ok_def task_links_def task_ids_def run_keys_def revision_keys_def ball_update_where)
next
  case task_created
  show ?thesis unfolding task_created(1)
    using l find_ids(1) [OF task_created(2)] by (auto simp: links_ok_def task_links_def task_ids_def run_keys_def revision_keys_def)
next
  case (task_moved i row v st rs cl cf key act p e now)
  have "r_task_id ` set (mark_run row rs now (runs d)) = r_task_id ` set (runs d)"
    by (rule image_mark_run) simp
  moreover have "(\<lambda>r. (r_run_id r, r_task_id r)) ` set (mark_run row rs now (runs d)) = (\<lambda>r. (r_run_id r, r_task_id r)) ` set (runs d)"
    by (rule image_mark_run) simp
  moreover have "map r_run_id (mark_run row rs now (runs d)) = map r_run_id (runs d)"
    by (rule map_mark_run) simp
  ultimately show ?thesis unfolding task_moved(1)
    using l by (simp add: links_ok_def task_links_def task_ids_def run_keys_def revision_keys_def ball_update_where image_update_where)
      blast
next
  case task_revised
  show ?thesis unfolding task_revised(1)
    using l find_task_id [OF task_revised(2)]
    by (auto simp: links_ok_def task_links_def task_ids_def run_keys_def revision_keys_def ball_update_where image_update_where)
next
  case task_leased
  show ?thesis unfolding task_leased(1)
    using l find_task_id [OF task_leased(2)] task_leased(10)
    by (auto simp: links_ok_def task_links_def task_ids_def run_keys_def revision_keys_def ball_update_where image_update_where)
next
  case result_quarantined
  show ?thesis unfolding result_quarantined(1)
    using l by (auto simp: links_ok_def task_links_def task_ids_def run_keys_def revision_keys_def ball_update_where image_update_where distinct_map_update_where)
next
  case result_recorded
  show ?thesis unfolding result_recorded(1)
    using l by (auto simp: links_ok_def task_links_def task_ids_def run_keys_def revision_keys_def ball_update_where image_update_where distinct_map_update_where)
next
  case (action_prepared tid row run_id)
  have "(run_id, tid) \<in> run_keys d"
    using l find_task_id [OF action_prepared(2)] action_prepared(3) by (auto simp: links_ok_def task_links_def lease_current_def)
  then show ?thesis unfolding action_prepared(1)
    using l action_prepared(8) by (auto simp: links_ok_def task_links_def task_ids_def run_keys_def revision_keys_def)
next
  case action_moved
  show ?thesis unfolding action_moved(1)
    using l by (auto simp: links_ok_def task_links_def task_ids_def run_keys_def revision_keys_def ball_update_where distinct_map_update_where)
next
  case task_escalated
  show ?thesis unfolding task_escalated(1)
    using l by (auto simp: links_ok_def task_links_def task_ids_def run_keys_def revision_keys_def ball_update_where image_update_where)
qed

interpretation links: service_invariant E links_ok for E
  by (unfold_locales; (rule links_step; assumption)?;
      simp add: links_ok_def task_links_def task_ids_def run_keys_def revision_keys_def)

end
