(* ===== verification/Stored.thy ===== *)
theory Stored
  imports Invariants
begin

text \<open>
  The invariants of single records: the event log passes its replay, every stored record has the digest that
  its columns state, and the columns that copy a record agree with it. Each holds as long as the stored
  values read back as values that encode again, which fails for integers of at least \<open>2 ^ 53\<close> only.
\<close>

section \<open>Values that encode again\<close>

definition encodable :: "json \<Rightarrow> bool" where
  "encodable v = (canonical v = Inr v)"

lemma reencodes_Inr: "encodable v \<Longrightarrow> reencodes v m = Inr ()"
  by (simp add: encodable_def reencodes_def)

lemma encodable_norm: "encodable v \<Longrightarrow> norm v = v"
  using canonical_Inr by (force simp: encodable_def)

lemma hashed:
  assumes "sha256_json E v = Inr h" and "encodable (norm v)"
  shows "sha256_json E (norm v) = Inr h"
  using assms by (auto simp: sha256_json_Inr encodable_def)

text \<open>A record that states its own digest.\<close>

lemma stamped:
  assumes "digest_profile E draft ex = Inr h" and "k \<in> set ex"
    and "encodable (norm (JObj (dict_set k (JStr h) draft)))"
  shows "digest_profile E (dict_of (norm (JObj (dict_set k (JStr h) draft)))) ex = Inr h"
proof -
  let ?r = "norm (JObj (dict_set k (JStr h) draft))"
  have "canonical (JObj (dict_of ?r)) = Inr (JObj (dict_of ?r))"
    using assms(3) by (simp add: norm_JObj_is_obj encodable_def)
  from digest_profile_norm [OF this] have "digest_profile E (dict_of ?r) ex = Inr (sha256 E (norm (JObj (dict_without ex draft))))"
    by (simp only: norm_without_set [OF assms(2)])
  then show ?thesis using assms(1) by (simp add: digest_profile_def sha256_json_Inr)
qed

lemma stamped_entry: "entry (norm (JObj (dict_set k (JStr h) draft))) k = Some (JStr h)"
  by (simp add: entry_def get_norm)

lemma map_of_merge_other: "k \<notin> fst ` set e \<Longrightarrow> map_of (dict_merge d e) k = map_of d k"
  by (induction d e rule: dict_merge.induct) auto

lemma get_dict_of: "get v k = map_of (dict_of v) k"
  by (cases v) (simp_all add: get_def dict_of_def)

lemma pick_keys: "pick d names = Inr xs \<Longrightarrow> map fst xs = names"
proof (induction names arbitrary: xs)
  case (Cons n names)
  then show ?case by (auto simp: pick_def bindE_Inr_iff)
qed (simp add: pick_def)

lemma pick_lookup: "pick d names = Inr xs \<Longrightarrow> map_of xs = (\<lambda>k. if k \<in> set names then map_of d k else None)"
proof (induction names arbitrary: xs)
  case (Cons n names)
  then obtain v ys where "map_of d n = Some v" "pick d names = Inr ys" "xs = (n, v) # ys"
    by (auto simp: pick_def bindE_Inr_iff dict_item_Inr_iff)
  with Cons.IH [of ys] show ?case by (auto simp: fun_eq_iff)
qed (simp add: pick_def)

section \<open>The event log\<close>

lemma step_event:
  assumes "db_step E d d'"
  obtains key a e where "follows E key a d e" and "events d' = events d @ [e]"
    and "global_sequence d' = global_sequence (push_event e d)" and "writer_sequences d' = writer_sequences (push_event e d)"
    and "command_dedup d' = command_dedup d" and "migrations d' = migrations d" and "meta d' = meta d"
proof -
  from assms have "\<exists>key a e. follows E key a d e \<and> events d' = events d @ [e] \<and>
      global_sequence d' = global_sequence (push_event e d) \<and> writer_sequences d' = writer_sequences (push_event e d) \<and>
      command_dedup d' = command_dedup d \<and> migrations d' = migrations d \<and> meta d' = meta d"
    by cases (rule exI, rule exI, rule exI, rule conjI, assumption, simp)+
  then show ?thesis using that by blast
qed

lemma log_ok_same:
  assumes "events d' = events d" and "global_sequence d' = global_sequence d" and "writer_sequences d' = writer_sequences d"
  shows "log_ok E d' = log_ok E d"
  using assms by (simp add: log_ok_def verify_event_log_def)

lemma verify_event_log_service:
  assumes "same_service E F"
  shows "verify_event_log F d = verify_event_log E d"
proof -
  have v: "verify_event F n st r = verify_event E n st r" for n st r
    by (simp add: verify_event_def same_service_digests(1) [OF assms])
  have "verify_events F n st rs = verify_events E n st rs" for n st rs
    by (induction rs arbitrary: n st) (simp_all add: v)
  then show ?thesis by (simp add: verify_event_log_def)
qed

definition log_inv :: "env \<Rightarrow> db \<Rightarrow> bool" where
  "log_inv E d \<longleftrightarrow> ((\<forall>e \<in> set (events d). encodable (ev_payload e)) \<longrightarrow> log_ok E d)"

interpretation log: service_invariant E "log_inv E" for E
proof
  show "log_inv E (initial_db shas version database_id (writer_id E))" for shas version database_id
    by (simp add: log_inv_def log_ok_def verify_event_log_def initial_db_def)
  show "log_inv E (d\<lparr>command_dedup := dd\<rparr>)" if "log_inv E d" for d dd
    using that log_ok_same [of "d\<lparr>command_dedup := dd\<rparr>" d E] by (simp add: log_inv_def)
  fix F d d' assume s: "same_service E F" and i: "log_inv E d" and st: "db_step F d d'"
  from step_event [OF st] obtain key a e where f: "follows F key a d e" and ev: "events d' = events d @ [e]"
    and g: "global_sequence d' = global_sequence (push_event e d)" and w: "writer_sequences d' = writer_sequences (push_event e d)"
    by metis
  have same: "log_ok F c = log_ok E c" for c by (simp add: log_ok_def verify_event_log_service [OF s])
  have "log_ok E d'" if "\<forall>e \<in> set (events d'). encodable (ev_payload e)"
  proof -
    from that i have "log_ok E d" by (simp add: log_inv_def ev)
    then have "log_ok F (push_event e d)"
      using push_event_verifies [OF _ f] that same by (simp add: ev encodable_def)
    then show ?thesis using log_ok_same [of d' "push_event e d" E] ev g w same by simp
  qed
  then show "log_inv E d'" by (simp add: log_inv_def)
qed

section \<open>Digests of revisions, runs and results\<close>

definition objective_revision_ok :: "env \<Rightarrow> objective_revision_row \<Rightarrow> bool" where
  "objective_revision_ok E r \<longleftrightarrow> (encodable (or_record r) \<longrightarrow>
     digest_profile E (dict_of (or_record r)) objective_profile_excluded = Inr (or_sha256 r)) \<and>
     entry (or_record r) ''objective_sha256'' = Some (JStr (or_sha256 r))"

definition task_revision_ok :: "env \<Rightarrow> task_revision_row \<Rightarrow> bool" where
  "task_revision_ok E r \<longleftrightarrow> (encodable (tr_record r) \<longrightarrow> sha256_json E (tr_record r) = Inr (tr_sha256 r))"

definition envelope_ok :: "env \<Rightarrow> run_row \<Rightarrow> bool" where
  "envelope_ok E r \<longleftrightarrow> (encodable (r_envelope r) \<longrightarrow>
     digest_profile E (dict_of (r_envelope r)) [''task_envelope_sha256''] = Inr (r_envelope_sha256 r)) \<and>
     entry (r_envelope r) ''task_envelope_sha256'' = Some (JStr (r_envelope_sha256 r))"

definition result_ok :: "env \<Rightarrow> run_row \<Rightarrow> bool" where
  "result_ok E r \<longleftrightarrow> (\<forall>v. r_result r = Some v \<longrightarrow> encodable v \<longrightarrow>
     (\<exists>h. r_result_sha256 r = Some h \<and> sha256_json E v = Inr h))"

definition digests_inv :: "env \<Rightarrow> db \<Rightarrow> bool" where
  "digests_inv E d \<longleftrightarrow>
     (\<forall>r \<in> set (objective_revisions d). objective_revision_ok E r) \<and>
     (\<forall>r \<in> set (task_revisions d). task_revision_ok E r) \<and>
     (\<forall>r \<in> set (runs d). envelope_ok E r \<and> result_ok E r)"

lemma run_status_kept [simp]:
  "envelope_ok E (r\<lparr>r_status := st, r_updated_at := n\<rparr>) = envelope_ok E r"
  "result_ok E (r\<lparr>r_status := st, r_updated_at := n\<rparr>) = result_ok E r"
  "envelope_ok E (r\<lparr>r_status := st, r_result := x, r_result_sha256 := y, r_updated_at := n\<rparr>) = envelope_ok E r"
  by (simp_all add: envelope_ok_def result_ok_def)

lemma ball_mark_run:
  "(\<forall>r \<in> set rows. Q r) \<Longrightarrow> (\<And>r st n. Q r \<Longrightarrow> Q (r\<lparr>r_status := st, r_updated_at := n\<rparr>)) \<Longrightarrow>
   \<forall>r \<in> set (mark_run row rs now rows). Q r"
  by (simp add: mark_run_def ball_update_where split: option.splits)

lemma stamped_objective:
  "digest_profile E draft objective_profile_excluded = Inr h \<Longrightarrow>
   objective_revision_ok E \<lparr>or_objective_id = i, or_revision = n, or_sha256 = h,
     or_record = norm (JObj (dict_set ''objective_sha256'' (JStr h) draft)), or_created_at = now\<rparr>"
  by (simp add: objective_revision_ok_def stamped_entry stamped objective_profile_excluded_def)

lemma stamped_envelope:
  "digest_profile E draft [''task_envelope_sha256''] = Inr h \<Longrightarrow>
   r_envelope r = norm (JObj (dict_set ''task_envelope_sha256'' (JStr h) draft)) \<Longrightarrow> r_envelope_sha256 r = h \<Longrightarrow>
   envelope_ok E r"
  by (simp add: envelope_ok_def stamped_entry stamped)

lemma hashed_result:
  "sha256_json E v = Inr h \<Longrightarrow> result_ok E (r\<lparr>r_status := st, r_result := Some (norm v), r_result_sha256 := Some h, r_updated_at := n\<rparr>)"
  using hashed by (simp add: result_ok_def)

lemma digests_step:
  assumes "db_step E d d'" and i: "digests_inv E d"
  shows "digests_inv E d'"
  using assms(1)
proof cases
  case objective_created
  then show ?thesis using i by (simp add: digests_inv_def stamped_objective)
next
  case objective_revised
  then show ?thesis using i by (simp add: digests_inv_def stamped_objective)
next
  case task_created
  then show ?thesis using i hashed by (simp add: digests_inv_def task_revision_ok_def)
next
  case task_revised
  then show ?thesis using i hashed by (simp add: digests_inv_def task_revision_ok_def del: dict_merge.simps)
next
  case task_leased
  then show ?thesis using i by (simp add: digests_inv_def stamped_envelope result_ok_def)
next
  case task_moved
  then show ?thesis using i by (simp add: digests_inv_def) (rule ball_mark_run, simp_all)
next
  case result_quarantined
  then show ?thesis using i hashed_result by (simp add: digests_inv_def ball_update_where)
next
  case result_recorded
  then show ?thesis using i hashed_result by (simp add: digests_inv_def ball_update_where)
qed (use i in \<open>simp_all add: digests_inv_def\<close>)

lemma digests_service:
  assumes "same_service E F" shows "digests_inv F = digests_inv E"
  by (intro ext) (simp add: digests_inv_def objective_revision_ok_def task_revision_ok_def envelope_ok_def result_ok_def
      same_service_digests [OF assms])

interpretation digests: service_invariant E "digests_inv E" for E
proof
  show "digests_inv E d'" if "same_service E F" "digests_inv E d" "db_step F d d'" for F d d'
    using digests_step [OF that(3)] that(2) by (simp only: digests_service [OF that(1)])
qed (simp_all add: digests_inv_def)

section \<open>Columns that copy a record\<close>

definition objective_row_ok :: "objective_row \<Rightarrow> bool" where
  "objective_row_ok r \<longleftrightarrow>
     entry (o_record r) ''objective_id'' = Some (JStr (o_objective_id r)) \<and>
     entry (o_record r) ''aggregate_version'' = Some (JInt (mk_aggregate_version (o_marker r))) \<and>
     entry (o_record r) ''status'' = Some (JStr (objective_status_text (o_status r))) \<and>
     entry (o_record r) ''objective_sha256'' = Some (JStr (o_sha256 r))"

definition action_row_ok :: "action_row \<Rightarrow> bool" where
  "action_row_ok r \<longleftrightarrow>
     entry (a_record r) ''action_id'' = Some (JStr (a_action_id r)) \<and>
     entry (a_record r) ''aggregate_version'' = Some (JInt (mk_aggregate_version (a_marker r))) \<and>
     entry (a_record r) ''state'' = Some (JStr (action_state_text (a_state r))) \<and>
     entry (a_record r) ''task_id'' = Some (JStr (a_task_id r)) \<and>
     entry (a_record r) ''task_revision'' = Some (JInt (a_task_revision r)) \<and>
     entry (a_record r) ''run_id'' = Some (JStr (a_run_id r)) \<and>
     entry (a_record r) ''operation_idempotency_key'' = Some (JStr (a_operation_key r))"

definition rows_inv :: "db \<Rightarrow> bool" where
  "rows_inv d \<longleftrightarrow> (\<forall>r \<in> set (objectives d). objective_row_ok r) \<and> (\<forall>r \<in> set (actions d). action_row_ok r)"

lemma marker_of_follows: "follows E key a d e \<Longrightarrow> mk_aggregate_version (marker_of e) = aggregate_version a"
  by (simp add: marker_of_def follows_simps)

lemma entry_norm: "entry (norm (JObj d)) k = map_option norm (map_of d k)"
  by (simp add: entry_def get_norm)

lemma entry_dict_of: "map_of (dict_of v) k = entry v k"
  by (simp add: entry_def get_dict_of)

lemma new_objective_row:
  assumes "objective_record fs act now (JStr oid) = Inr draft" and "mk_aggregate_version m = 1"
  shows "objective_row_ok \<lparr>o_objective_id = oid, o_marker = m, o_revision = n, o_sha256 = h, o_status = Proposed,
    o_record = norm (JObj (dict_set ''objective_sha256'' (JStr h) draft)), o_updated_at = u\<rparr>"
  using assms by (auto simp: objective_record_def bindE_Inr_iff objective_row_ok_def entry_norm map_add_def dest!: pick_lookup)

lemma new_action_row:
  assumes "bindE (action_record E fs (JStr aid) n now) (with_compensation E fs) = Inr rcd"
    and "map_of fs ''task_id'' = Some (JStr tid)" and "map_of fs ''run_id'' = Some (JStr rid)"
    and "map_of fs ''operation_idempotency_key'' = Some (JStr k)"
  shows "action_row_ok \<lparr>a_action_id = aid, a_marker = m\<lparr>mk_aggregate_version := 1\<rparr>, a_task_id = tid, a_task_revision = n, a_run_id = rid,
    a_operation_key = k, a_state = APrepared, a_record = norm (JObj rcd), a_provider_operation_id = None,
    a_provider_evidence_sha256 = None, a_created_at = now, a_updated_at = now\<rparr>"
proof -
  from assms(1) obtain r0 where r: "action_record E fs (JStr aid) n now = Inr r0"
    and rcd: "rcd = r0 \<or> (\<exists>c. rcd = dict_set ''compensation'' c r0)"
    by (auto simp: with_compensation_def bindE_Inr_iff split: option.splits)
  have "map_of rcd x = map_of r0 x" if "x \<noteq> ''compensation''" for x using rcd that by auto
  moreover from r assms(2-) have "map_of r0 ''action_id'' = Some (JStr aid) \<and> map_of r0 ''aggregate_version'' = Some (JInt 1) \<and>
      map_of r0 ''state'' = Some (JStr ''prepared'') \<and> map_of r0 ''task_id'' = Some (JStr tid) \<and>
      map_of r0 ''task_revision'' = Some (JInt n) \<and> map_of r0 ''run_id'' = Some (JStr rid) \<and>
      map_of r0 ''operation_idempotency_key'' = Some (JStr k)"
    by (auto simp: action_record_def bindE_Inr_iff map_add_def dest!: pick_lookup)
  ultimately show ?thesis by (simp add: action_row_ok_def entry_norm)
qed

lemma permitted_keys: "revise_check permitted updates = Inr () \<Longrightarrow> fst ` set updates \<subseteq> set permitted"
  by (auto simp: revise_check_def bindE_Inr_iff list_all_iff)

text \<open>An \<open>UPDATE\<close> by key keeps a property of the rows when the row it finds keeps it.\<close>

lemma updated_objectives:
  "projections_ok d \<Longrightarrow> find_objective d i = Some row \<Longrightarrow> \<forall>r \<in> set (objectives d). Q r \<Longrightarrow> Q (f row) \<Longrightarrow>
   \<forall>r \<in> set (update_where (\<lambda>q. o_objective_id q = i) f (objectives d)). Q r"
  using ot.update_found [of d i row f] by (simp add: projections_ok_def find_objective_def ball_update_where)

lemma updated_tasks:
  "projections_ok d \<Longrightarrow> find_task d i = Some row \<Longrightarrow> \<forall>r \<in> set (tasks d). Q r \<Longrightarrow> Q (f row) \<Longrightarrow>
   \<forall>r \<in> set (update_where (\<lambda>q. t_task_id q = i) f (tasks d)). Q r"
  using tt.update_found [of d i row f] by (simp add: projections_ok_def find_task_def ball_update_where)

lemma updated_actions:
  "projections_ok d \<Longrightarrow> find_action d i = Some row \<Longrightarrow> \<forall>r \<in> set (actions d). Q r \<Longrightarrow> Q (f row) \<Longrightarrow>
   \<forall>r \<in> set (update_where (\<lambda>q. a_action_id q = i) f (actions d)). Q r"
  using at.update_found [of d i row f] by (simp add: projections_ok_def find_action_def ball_update_where)

lemma detail_keys: "action_move row st details \<Longrightarrow> fst ` set details \<subseteq> {''provider_operation_id'', ''provider_evidence''}"
  by (auto elim!: action_move.cases simp: reconcile_details_def split: if_splits option.splits)

lemma advanced_entry:
  assumes "fst ` set details \<subseteq> {''provider_operation_id'', ''provider_evidence''}"
    and "k \<notin> {''provider_operation_id'', ''provider_evidence'', ''updated_at'', ''dispatched_at'', ''confirmed_at''}"
  shows "map_of (advance_record rcd v st now details) k =
    (if k = ''aggregate_version'' then Some (JInt v) else if k = ''state'' then Some (JStr (action_state_text st))
     else map_of rcd k)"
proof -
  have "k \<notin> fst ` set details" using assms by auto
  then show ?thesis using assms(2) unfolding advance_record_def by (subst map_of_merge_other) auto
qed

lemma rows_step:
  assumes "db_step E d d'" and p: "projections_ok d" and i: "rows_inv d"
  shows "rows_inv d'"
  using assms(1)
proof cases
  case (objective_created key oid act p e fs now draft digest record_json)
  then show ?thesis using i marker_of_follows [OF objective_created(2)] by (simp add: rows_inv_def new_objective_row)
next
  case (objective_moved i row v new key act p e record_json now)
  have "objective_row_ok row" using i find_ids(1) [OF objective_moved(2)] by (simp add: rows_inv_def)
  then have "objective_row_ok (row\<lparr>o_marker := marker_of e, o_status := new, o_record := record_json, o_updated_at := now\<rparr>)"
    using objective_moved(6) marker_of_follows [OF objective_moved(5)] by (simp add: objective_row_ok_def entry_norm entry_dict_of)
  with i show ?thesis unfolding objective_moved(1) rows_inv_def
    by (intro conjI) (simp_all, rule updated_objectives [OF p objective_moved(2)], simp_all)
next
  case (objective_revised i row v updates key act p e draft digest record_json now)
  have r: "objective_row_ok row" using i find_ids(1) [OF objective_revised(2)] by (simp add: rows_inv_def)
  have "k \<notin> set objective_permitted \<Longrightarrow> map_of (dict_merge (dict_of (o_record row)) updates) k = entry (o_record row) k" for k
    using permitted_keys [OF objective_revised(5)] map_of_merge_other by (metis entry_dict_of subsetD)
  from this [of "''objective_id''"] this [of "''status''"] r
  have u: "map_of (dict_merge (dict_of (o_record row)) updates) ''objective_id'' = Some (JStr (o_objective_id row))"
    "map_of (dict_merge (dict_of (o_record row)) updates) ''status'' = Some (JStr (objective_status_text (o_status row)))"
    by (simp_all add: objective_row_ok_def objective_permitted_def)
  have "objective_row_ok (row\<lparr>o_marker := marker_of e, o_revision := o_revision row + 1, o_sha256 := digest,
      o_record := record_json, o_updated_at := now\<rparr>)"
    unfolding objective_row_ok_def objective_revised(7, 9)
    by (simp add: entry_norm u marker_of_follows [OF objective_revised(6)])
  with i show ?thesis unfolding objective_revised(1) rows_inv_def
    by (intro conjI) (simp_all del: dict_merge.simps, rule updated_objectives [OF p objective_revised(2)], simp_all)
next
  case (action_prepared tid row run_id fence n fs op_key aid now rcd key act p e)
  have "marker_of e = (marker_of e)\<lparr>mk_aggregate_version := 1\<rparr>"
    using marker_of_follows [OF action_prepared(11)] by simp
  with new_action_row [OF action_prepared(10, 5-7), of "marker_of e"] i show ?thesis
    unfolding action_prepared(1) by (simp add: rows_inv_def)
next
  case (action_moved i row v st details rcd now h prov key act p e)
  have r: "action_row_ok row" using i find_ids(2) [OF action_moved(2)] by (simp add: rows_inv_def)
  then have "action_row_ok (row\<lparr>a_marker := marker_of e, a_state := st, a_record := norm (JObj rcd), a_provider_operation_id := prov,
           a_provider_evidence_sha256 := h, a_updated_at := now\<rparr>)"
    using action_moved(5) marker_of_follows [OF action_moved(8)] advanced_entry [OF detail_keys [OF action_moved(4)]]
    by (simp add: action_row_ok_def entry_norm entry_dict_of)
  with i show ?thesis unfolding action_moved(1) rows_inv_def
    by (intro conjI) (simp_all, rule updated_actions [OF p action_moved(2)], simp_all)
qed (use i in \<open>simp_all add: rows_inv_def\<close>)

interpretation rows: service_invariant_under E projections_ok rows_inv for E
  by (unfold_locales; (rule rows_step; assumption)?; simp add: rows_inv_def)

end
