(* ===== verification/History.thy ===== *)
theory History
  imports Stored
begin

text \<open>
  The invariant of tasks: every column of a row of \<open>tasks\<close> is what the history of the task says. The history
  is the latest event of the task, the number of its leases, its revisions and its runs; what later
  updates of a run change, its status and result, is no part of it.
\<close>

section \<open>The history of a task\<close>

definition run_core :: "run_row \<Rightarrow> run_row" where
  "run_core r = r\<lparr>r_status := RLeased, r_result := None, r_result_sha256 := None, r_updated_at := []\<rparr>"

record task_history =
  h_latest :: "event_row option"
  h_leases :: nat
  h_revisions :: "task_revision_row list"
  h_runs :: "run_row list"

definition history :: "db \<Rightarrow> string \<Rightarrow> task_history" where
  "history d i = \<lparr>h_latest = latest_event d i, h_leases = lease_count d i,
     h_revisions = filter (\<lambda>r. tr_task_id r = i) (task_revisions d),
     h_runs = filter (\<lambda>r. r_task_id r = i) (map run_core (runs d))\<rparr>"

definition newest_run :: "task_history \<Rightarrow> int \<Rightarrow> run_row option" where
  "newest_run h n = max_row r_attempt_number (filter (\<lambda>r. r_task_revision r = n) (h_runs h))"

definition announced :: "task_history \<Rightarrow> task_row \<Rightarrow> bool" where
  "announced h t \<longleftrightarrow> (\<exists>e. h_latest h = Some e \<and> expected_task_state e = Inr (JStr (task_state_text (t_state t))))"

definition revision_fits :: "task_revision_row \<Rightarrow> task_row \<Rightarrow> bool" where
  "revision_fits q t \<longleftrightarrow>
     entry (tr_record q) ''objective_id'' = Some (JStr (t_objective_id t)) \<and>
     entry (tr_record q) ''objective_revision'' = Some (JInt (t_objective_revision t)) \<and>
     entry (tr_record q) ''objective_sha256'' = Some (JStr (t_objective_sha256 t)) \<and>
     (\<exists>v. entry (tr_record q) ''max_attempts'' = Some (norm v) \<and> bind_int v = Inr (t_max_attempts t))"

definition profiled :: "task_history \<Rightarrow> task_row \<Rightarrow> bool" where
  "profiled h t \<longleftrightarrow>
     (\<forall>q \<in> set (h_revisions h). tr_revision q \<le> t_revision t) \<and>
     (\<exists>q. List.find (\<lambda>q. tr_revision q = t_revision t) (h_revisions h) = Some q \<and> revision_fits q t \<and>
        t_sha256 t = (case newest_run h (t_revision t) of Some r \<Rightarrow> r_envelope_sha256 r | None \<Rightarrow> tr_sha256 q))"

definition counted :: "task_history \<Rightarrow> task_row \<Rightarrow> bool" where
  "counted h t \<longleftrightarrow> t_attempt_count t = int (h_leases h) \<and>
     map r_attempt_number (h_runs h) = [1..t_attempt_count t] \<and>
     (\<forall>r \<in> set (h_runs h). r_task_revision r \<le> t_revision t)"

lemma counted_attempts: "counted h t \<Longrightarrow> r \<in> set (h_runs h) \<Longrightarrow> r_attempt_number r \<le> t_attempt_count t"
  by (metis atLeastAtMost_iff counted_def image_eqI list.set_map set_upto)

definition lease_held :: "task_history \<Rightarrow> task_row \<Rightarrow> bool" where
  "lease_held h t \<longleftrightarrow> (\<exists>r fence. newest_run h (t_revision t) = Some r \<and> t_current_run_id t = Some (r_run_id r) \<and>
     t_lease_fencing_token t = Some fence \<and> entry (r_envelope r) ''lease_fencing_token'' = Some (JStr fence) \<and>
     t_lease_owner t \<noteq> None \<and> t_lease_expires_at t \<noteq> None)"

definition lease_fits :: "task_history \<Rightarrow> task_row \<Rightarrow> bool" where
  "lease_fits h t \<longleftrightarrow>
     (if t_state t \<in> {TLeased, TRunning} then lease_held h t else lease_columns t = [None, None, None])"

definition task_fits :: "task_history \<Rightarrow> task_row \<Rightarrow> bool" where
  "task_fits h t \<longleftrightarrow> announced h t \<and> profiled h t \<and> counted h t \<and> lease_fits h t \<and> t_state t \<noteq> TExpired \<and>
     (t_state t \<in> {TProposed, TAwaitingApproval} \<longrightarrow> h_runs h = [])"

definition tasks_inv :: "db \<Rightarrow> bool" where
  "tasks_inv d \<longleftrightarrow> (\<forall>t \<in> set (tasks d). task_fits (history d (t_task_id t)) t)"

section \<open>Histories grow\<close>

lemma expected_state_text: "ev_event_type e = ''task.'' @ task_state_text st \<Longrightarrow> expected_task_state e = Inr (JStr (task_state_text st))"
  by (cases st) (simp_all add: expected_task_state_def task_prefix_def)

lemma run_core_simps [simp]:
  "r_run_id (run_core r) = r_run_id r" "r_task_id (run_core r) = r_task_id r"
  "r_task_revision (run_core r) = r_task_revision r" "r_attempt_number (run_core r) = r_attempt_number r"
  "r_envelope (run_core r) = r_envelope r" "r_envelope_sha256 (run_core r) = r_envelope_sha256 r"
  by (simp_all add: run_core_def)

lemma run_core_marked [simp]: "map run_core (mark_run row rs now rows) = map run_core rows"
  by (rule map_mark_run) (simp add: run_core_def)

lemma run_core_result [simp]:
  "map run_core (update_where p (\<lambda>q. q\<lparr>r_status := st, r_result := x, r_result_sha256 := y, r_updated_at := n\<rparr>) rows) = map run_core rows"
  by (rule map_update_where) (simp add: run_core_def)

lemma lease_count_push:
  assumes "follows E key a d e" and "events d' = events d @ [e]"
  shows "lease_count d' i = lease_count d i + (if aggregate_id a = i \<and> event_type a = ''task.leased'' then 1 else 0)"
  using follows_simps [OF assms(1)] by (simp add: lease_count_def assms(2))

lemma latest_push:
  assumes "follows E key a d e" and "events d' = events d @ [e]"
  shows "latest_event d' i = (if i = aggregate_id a then Some e else latest_event d i)"
  using follows_latest [OF assms(1)] assms(2) by (simp add: latest_event_def)

text \<open>An event that is not a task's leaves every task as it is.\<close>

lemma tasks_untouched:
  assumes p: "projections_ok d" and i: "tasks_inv d" and f: "follows E key a d e" and o: "own_kind a d"
    and kind: "aggregate_type a \<noteq> ''task''"
    and d': "events d' = events d @ [e]" "tasks d' = tasks d" "task_revisions d' = task_revisions d"
      "runs d' = runs d"
  shows "tasks_inv d'"
proof -
  have "history d' (t_task_id t) = history d (t_task_id t)" if "t \<in> set (tasks d)" for t
  proof -
    have "aggregate_id a \<noteq> t_task_id t"
      using tt.latest_kind [of d t] that p o kind by (auto simp: projections_ok_def own_kind_def)
    then show ?thesis using latest_push [OF f d'(1)] lease_count_push [OF f d'(1)] d' by (simp add: history_def)
  qed
  then show ?thesis using i d' by (simp add: tasks_inv_def)
qed

text \<open>An event of a task extends the history of that task.\<close>

lemma history_push:
  assumes f: "follows E key (task_args i ty v act pl sens) d e" and ev: "events d' = events d @ [e]"
    and d': "task_revisions d' = task_revisions d @ qs" "map run_core (runs d') = map run_core (runs d @ rs)"
    and own: "\<forall>q \<in> set qs. tr_task_id q = i" "\<forall>r \<in> set rs. r_task_id r = i"
  shows "history d' j = (if j = i
    then \<lparr>h_latest = Some e, h_leases = h_leases (history d i) + (if ty = ''task.leased'' then 1 else 0),
        h_revisions = h_revisions (history d i) @ qs, h_runs = h_runs (history d i) @ map run_core rs\<rparr>
    else history d j)"
proof -
  have "filter (\<lambda>q. tr_task_id q = j) qs = (if j = i then qs else [])"
    using own(1) by (auto simp: filter_id_conv filter_empty_conv)
  moreover have "filter (\<lambda>r. r_task_id r = j) (map run_core rs) = (if j = i then map run_core rs else [])"
    using own(2) by (auto simp: filter_id_conv filter_empty_conv)
  ultimately show ?thesis
    by (simp add: history_def latest_push [OF f ev] lease_count_push [OF f ev] d')
qed

lemma tasks_touched:
  assumes p: "projections_ok d" and i: "tasks_inv d" and row: "find_task d i = Some row"
    and f: "follows E key (task_args i ty v act pl sens) d e"
    and d': "events d' = events d @ [e]" "tasks d' = update_where (\<lambda>q. t_task_id q = i) g (tasks d)"
      "task_revisions d' = task_revisions d @ qs" "map run_core (runs d') = map run_core (runs d @ rs)"
    and own: "\<forall>q \<in> set qs. tr_task_id q = i" "\<forall>r \<in> set rs. r_task_id r = i" "t_task_id (g row) = i"
    and fits: "task_fits \<lparr>h_latest = Some e, h_leases = h_leases (history d i) + (if ty = ''task.leased'' then 1 else 0),
        h_revisions = h_revisions (history d i) @ qs, h_runs = h_runs (history d i) @ map run_core rs\<rparr> (g row)"
  shows "tasks_inv d'"
proof -
  note h = history_push [OF f d'(1, 3, 4) own(1, 2)]
  have "task_fits (history d' (t_task_id t)) t" if "t \<in> set (tasks d')" for t
  proof -
    from that obtain r where r: "r \<in> set (tasks d)" "t_task_id r = i \<and> t = g r \<or> t_task_id r \<noteq> i \<and> t = r"
      unfolding d'(2) set_update_where by blast
    from row p r(1) have "t_task_id r = i \<Longrightarrow> r = row"
      using find_by_key [of t_task_id "tasks d" r] by (auto simp: find_task_def projections_ok_def tracks_def)
    from r(2) show ?thesis
    proof (elim disjE conjE)
      assume "t_task_id r = i" "t = g r"
      with \<open>t_task_id r = i \<Longrightarrow> r = row\<close> fits own(3) show ?thesis by (simp add: h)
    next
      assume "t_task_id r \<noteq> i" "t = r"
      with i r(1) show ?thesis by (simp add: h tasks_inv_def)
    qed
  qed
  then show ?thesis by (simp add: tasks_inv_def)
qed

lemma tasks_added:
  assumes i: "tasks_inv d" and f: "follows E key (task_args i ty v act pl sens) d e"
    and none: "\<forall>q \<in> set (tasks d). t_task_id q \<noteq> i"
    and d': "events d' = events d @ [e]" "tasks d' = tasks d @ [t]" "task_revisions d' = task_revisions d @ [q]" "runs d' = runs d"
    and own: "tr_task_id q = i" "t_task_id t = i"
    and fits: "task_fits \<lparr>h_latest = Some e, h_leases = h_leases (history d i) + (if ty = ''task.leased'' then 1 else 0),
        h_revisions = h_revisions (history d i) @ [q], h_runs = h_runs (history d i)\<rparr> t"
  shows "tasks_inv d'"
proof -
  have h: "history d' j = (if j = i
    then \<lparr>h_latest = Some e, h_leases = h_leases (history d i) + (if ty = ''task.leased'' then 1 else 0),
        h_revisions = h_revisions (history d i) @ [q], h_runs = h_runs (history d i)\<rparr> else history d j)" for j
    using history_push [OF f d'(1), of "[q]" "[]" j] d' own by simp
  show ?thesis using i none fits own by (simp add: tasks_inv_def h d'(2))
qed

section \<open>What a transition keeps\<close>

definition task_profile :: "task_row \<Rightarrow> int \<times> string \<times> string \<times> int \<times> string \<times> int \<times> int" where
  "task_profile t = (t_revision t, t_sha256 t, t_objective_id t, t_objective_revision t, t_objective_sha256 t,
     t_attempt_count t, t_max_attempts t)"

lemma fits_moved:
  assumes "task_fits h t" and "task_profile u = task_profile t"
    and "h_leases k = h_leases h" and "h_revisions k = h_revisions h" and "h_runs k = h_runs h"
    and "announced k u" and "lease_fits k u" and "t_state u \<noteq> TExpired"
    and "t_state u \<in> {TProposed, TAwaitingApproval} \<Longrightarrow> t_state t \<in> {TProposed, TAwaitingApproval}"
  shows "task_fits k u"
proof -
  have e: "newest_run k = newest_run h" "revision_fits q u = revision_fits q t" for q
    using assms(2, 5) by (auto simp: newest_run_def revision_fits_def task_profile_def fun_eq_iff)
  have "profiled k u = profiled h t" "counted k u = counted h t"
    using assms(2-5) by (simp_all add: profiled_def counted_def task_profile_def e)
  with assms show ?thesis unfolding task_fits_def by auto
qed

lemma find_filter: "List.find p (filter q xs) = List.find (\<lambda>x. q x \<and> p x) xs"
  by (induction xs) auto

lemma idle_lease: "lease_columns t = [None, None, None] \<Longrightarrow> t_state t \<notin> {TLeased, TRunning} \<Longrightarrow> lease_fits h t"
  by (simp add: lease_fits_def)

lemma fits_idle: "task_fits h t \<Longrightarrow> t_state t \<notin> {TLeased, TRunning} \<Longrightarrow> lease_columns t = [None, None, None]"
  by (simp add: task_fits_def lease_fits_def)

section \<open>Every step keeps it\<close>

lemma move_fits:
  assumes "task_fits (history d i) row" and "task_move E d row st rs cl cf" and "ev_event_type e = ''task.'' @ task_state_text st"
    and "h_latest k = Some e" and "h_leases k = h_leases (history d i)" and "h_revisions k = h_revisions (history d i)"
    and "h_runs k = h_runs (history d i)"
  shows "task_fits k (move_task m v st now cl cf row)"
proof (rule fits_moved [OF assms(1)])
  let ?u = "move_task m v st now cl cf row"
  show "task_profile ?u = task_profile row" by (simp add: task_profile_def)
  show "announced k ?u" using assms(4) expected_state_text [OF assms(3)] by (simp add: announced_def)
  from assms(2) have c: "cl \<or> cf \<or> t_state row \<notin> {TLeased, TRunning} \<or> st = TRunning \<and> t_state row = TLeased"
    and st: "st \<notin> {TLeased, TRunning, TExpired} \<or> st = TRunning \<and> t_state row = TLeased \<and> \<not> cl \<and> \<not> cf"
    by (auto elim!: task_move.cases simp: expire_next_state_def split: if_splits)
  then show "t_state ?u \<noteq> TExpired" by auto
  show "t_state row \<in> {TProposed, TAwaitingApproval}" if "t_state ?u \<in> {TProposed, TAwaitingApproval}"
    using assms(2) that by (auto elim!: task_move.cases simp: expire_next_state_def split: if_splits)
  show "lease_fits k ?u"
  proof (cases "st = TRunning \<and> t_state row = TLeased")
    case True
    with assms(1) have "lease_held (history d i) row" by (simp add: task_fits_def lease_fits_def)
    then show ?thesis using True st assms(7)
      by (auto simp: lease_fits_def lease_held_def newest_run_def move_task_def Let_def)
  next
    case False
    then show ?thesis using c st fits_idle [OF assms(1)] by (auto intro!: idle_lease)
  qed
qed (use assms in simp_all)

text \<open>A new task has no history before its first event.\<close>

lemma no_history:
  assumes "projections_ok d" and "links_ok d" and "follows E key a d e" and "aggregate_version a = 1"
    and "\<forall>q \<in> set (tasks d). t_task_id q \<noteq> aggregate_id a"
  shows "h_leases (history d (aggregate_id a)) = 0" and "h_revisions (history d (aggregate_id a)) = []"
    and "h_runs (history d (aggregate_id a)) = []"
proof -
  have "latest_event d (aggregate_id a) = None"
    using follows_first [OF assms(3) _ assms(4)] assms(1) by (simp add: projections_ok_def)
  then have "\<forall>e \<in> set (events d). ev_aggregate_id e \<noteq> aggregate_id a" by (simp add: latest_event_None)
  then show "h_leases (history d (aggregate_id a)) = 0" by (simp add: history_def lease_count_def count_where_zero)
  have "aggregate_id a \<notin> task_ids d" using assms(5) by (auto simp: task_ids_def)
  then show "h_revisions (history d (aggregate_id a)) = []" "h_runs (history d (aggregate_id a)) = []"
    using assms(2) by (auto simp: history_def links_ok_def filter_empty_conv)
qed

lemma new_revision:
  assumes "task_revision_record fs act now tid objective = Inr revision" and "bindE (dict_item fs ''max_attempts'') bind_int = Inr n"
    and "t_objective_id t = o_objective_id objective" and "t_objective_revision t = o_revision objective"
    and "t_objective_sha256 t = o_sha256 objective" and "t_max_attempts t = n" and "tr_record q = norm (JObj revision)"
  shows "revision_fits q t"
  using assms
  by (auto simp: task_revision_record_def bindE_Inr_iff revision_fits_def entry_norm map_add_def dict_item_Inr_iff
      dest!: pick_lookup)

lemma later_revision:
  assumes "revision_fits p t" and "revise_check task_permitted updates = Inr ()"
    and "revision = dict_merge (dict_merge (dict_of (tr_record p)) updates)
            [(''task_revision'', JInt m), (''created_at'', JStr now),
             (''supersedes_run_id'', JStr r), (''review_id'', JStr rv), (''unresolved_finding_ids'', fnd)]"
    and "bindE (dict_item revision ''max_attempts'') bind_int = Inr n"
    and "t_objective_id u = t_objective_id t" "t_objective_revision u = t_objective_revision t"
      "t_objective_sha256 u = t_objective_sha256 t" "t_max_attempts u = n" and "tr_record q = norm (JObj revision)"
  shows "revision_fits q u"
proof -
  have "map_of revision k = entry (tr_record p) k" if "k \<in> {''objective_id'', ''objective_revision'', ''objective_sha256''}" for k
  proof -
    have "k \<notin> set task_permitted" using that by (auto simp: task_permitted_def)
    then have "k \<notin> fst ` set updates" using permitted_keys [OF assms(2)] by blast
    then have "map_of (dict_merge (dict_of (tr_record p)) updates) k = entry (tr_record p) k"
      by (simp add: map_of_merge_other entry_dict_of)
    then show ?thesis using that unfolding assms(3) by (subst map_of_merge_other) auto
  qed
  then show ?thesis using assms(1, 4-)
    by (auto simp: revision_fits_def entry_norm bindE_Inr_iff dict_item_Inr_iff)
qed

lemma fresh_revision:
  assumes "task_fits h t" and "t_revision u = t_revision t + 1" and "tr_revision q = t_revision t + 1" and "revision_fits q u"
    and "t_sha256 u = tr_sha256 q" and "t_attempt_count u = t_attempt_count t"
    and "h_leases k = h_leases h" and "h_revisions k = h_revisions h @ [q]" and "h_runs k = h_runs h"
  shows "profiled k u \<and> counted k u"
proof -
  have "newest_run k (t_revision u) = None"
    using assms(1, 2, 9) by (auto simp: newest_run_def filter_empty_conv task_fits_def counted_def)
  moreover have "List.find (\<lambda>q. tr_revision q = t_revision t + 1) (h_revisions h) = None"
    using assms(1) by (auto simp: find_None_iff_all task_fits_def profiled_def)
  then have "List.find (\<lambda>q. tr_revision q = t_revision u) (h_revisions k) = Some q"
    using assms(2, 3, 8) by (simp add: find_append)
  ultimately show ?thesis using assms by (auto simp: task_fits_def profiled_def counted_def)
qed

lemma fresh_run:
  assumes "task_fits h t" and "task_profile u = (t_revision t, r_envelope_sha256 r, t_objective_id t, t_objective_revision t,
      t_objective_sha256 t, t_attempt_count t + 1, t_max_attempts t)"
    and "r_attempt_number r = t_attempt_count t + 1" and "r_task_revision r = t_revision t"
    and "h_leases k = h_leases h + 1" and "h_revisions k = h_revisions h" and "h_runs k = h_runs h @ [r]"
  shows "newest_run k (t_revision u) = Some r" and "profiled k u" and "counted k u"
proof -
  have c: "\<forall>q \<in> set (h_runs h). r_attempt_number q < r_attempt_number r"
    using assms(1, 3) counted_attempts [of h t] by (force simp: task_fits_def)
  have u: "t_revision u = t_revision t" using assms(2) by (simp add: task_profile_def)
  show n: "newest_run k (t_revision u) = Some r"
    using c assms(4) by (simp add: newest_run_def assms(7) u max_row_snoc)
  show "profiled k u" using assms(1, 2, 6) n u
    by (auto simp: task_fits_def profiled_def task_profile_def revision_fits_def)
  show "counted k u" using assms(1, 2, 3, 4, 5, 7) by (auto simp: task_fits_def counted_def task_profile_def upto_rec2)
qed

lemma result_state_cases: "result_next_state n completed t \<in> {TNeedsReconciliation, TReview, TReady, TFailedTerminal}"
  by (simp add: result_next_state_def)

lemma tasks_step:
  assumes "db_step E d d'" and p: "projections_ok d" and l: "links_ok d" and i: "tasks_inv d"
  shows "tasks_inv d'"
  using assms(1)
proof cases
  case objective_created
  show ?thesis
    by (rule tasks_untouched [OF p i objective_created(2) own_kind_first [OF objective_created(2)]])
      (use p in \<open>simp_all add: objective_created(1) projections_ok_def\<close>)
next
  case objective_moved
  show ?thesis
    by (rule tasks_untouched [OF p i objective_moved(5) own_kind_row(1) [OF p objective_moved(2)]])
      (simp_all add: objective_moved(1))
next
  case objective_revised
  show ?thesis
    by (rule tasks_untouched [OF p i objective_revised(6) own_kind_row(1) [OF p objective_revised(2)]])
      (simp_all add: objective_revised(1))
next
  case action_prepared
  show ?thesis
    by (rule tasks_untouched [OF p i action_prepared(11) own_kind_first [OF action_prepared(11)]])
      (use p in \<open>simp_all add: action_prepared(1) projections_ok_def\<close>)
next
  case action_moved
  show ?thesis
    by (rule tasks_untouched [OF p i action_moved(8) own_kind_row(3) [OF p action_moved(2)]])
      (simp_all add: action_moved(1))
next
  case (task_moved i row v st rs cl cf key act p e now)
  have fit: "task_fits (history d i) row" using i find_task_id [OF task_moved(2)] by (auto simp: tasks_inv_def)
  have ty: "event_type (task_args i (''task.'' @ task_state_text st) (v + 1) act p ''internal'') \<noteq> ''task.leased''"
    using task_moved(4) by (cases st) (auto elim: task_move.cases simp: expire_next_state_def split: if_splits)
  have ev: "ev_event_type e = ''task.'' @ task_state_text st" using follows_simps(3) [OF task_moved(5)] by simp
  show ?thesis
    by (rule tasks_touched [OF p i task_moved(2, 5), where g = "move_task (marker_of e) (v + 1) st now cl cf" and qs = "[]" and rs = "[]"])
      (use ty find_task_id [OF task_moved(2)] in
        \<open>simp_all add: task_moved(1) move_fits [OF fit task_moved(4) ev]\<close>)
next
  case (task_created oid objective key tid act p e revision fs now task_sha max_n)
  note none = no_history [OF assms(2) l task_created(4)]
  show ?thesis
  proof (rule tasks_added [OF i task_created(4, 9)])
    let ?t = "\<lparr>t_task_id = tid, t_marker = marker_of e, t_revision = 1, t_sha256 = task_sha,
           t_objective_id = o_objective_id objective, t_objective_revision = o_revision objective,
           t_objective_sha256 = o_sha256 objective, t_state = TProposed, t_attempt_count = 0,
           t_max_attempts = max_n, t_current_run_id = None, t_lease_owner = None,
           t_lease_fencing_token = None, t_lease_expires_at = None, t_created_at = now, t_updated_at = now\<rparr>"
    let ?q = "\<lparr>tr_task_id = tid, tr_revision = 1, tr_sha256 = task_sha, tr_record = norm (JObj revision), tr_created_at = now\<rparr>"
    have "revision_fits ?q ?t" by (rule new_revision [OF task_created(6, 8)]) simp_all
    moreover have "expected_task_state e = Inr (JStr ''proposed'')"
      using follows_simps(3, 5) [OF task_created(4)]
      by (simp add: expected_task_state_def task_created(5) item_Inr_iff get_norm)
    ultimately show "task_fits \<lparr>h_latest = Some e, h_leases = h_leases (history d tid) + (if ''task.created'' = ''task.leased'' then 1 else 0),
        h_revisions = h_revisions (history d tid) @ [?q], h_runs = h_runs (history d tid)\<rparr> ?t"
      using none task_created(9)
      by (simp add: task_fits_def announced_def profiled_def counted_def newest_run_def lease_fits_def lease_columns_def)
  qed (simp_all add: task_created(1))
next
  case (task_revised i row v updates previous run revision now review_id fnd task_sha max_n key act p e)
  have fit: "task_fits (history d i) row" using i find_task_id [OF task_revised(2)] by (auto simp: tasks_inv_def)
  show ?thesis
  proof (rule tasks_touched [OF p i task_revised(2, 11), where
        g = "\<lambda>r. r\<lparr>t_marker := marker_of e, t_revision := t_revision row + 1, t_sha256 := task_sha, t_state := TReady,
                t_max_attempts := max_n, t_updated_at := now\<rparr>"])
    let ?u = "row\<lparr>t_marker := marker_of e, t_revision := t_revision row + 1, t_sha256 := task_sha, t_state := TReady,
                t_max_attempts := max_n, t_updated_at := now\<rparr>"
    let ?q = "\<lparr>tr_task_id = i, tr_revision = t_revision row + 1, tr_sha256 = task_sha,
           tr_record = norm (JObj revision), tr_created_at = now\<rparr>"
    let ?k = "\<lparr>h_latest = Some e, h_leases = h_leases (history d i) + (if ''task.revised'' = ''task.leased'' then 1 else 0),
        h_revisions = h_revisions (history d i) @ [?q], h_runs = h_runs (history d i) @ map run_core []\<rparr>"
    have "List.find (\<lambda>q. tr_revision q = t_revision row) (h_revisions (history d i)) = Some previous"
      using task_revised(6) unfolding find_task_revision_def history_def by (simp add: find_filter)
    then have "revision_fits previous row" using fit by (simp add: task_fits_def profiled_def)
    from later_revision [OF this task_revised(5, 8, 10), of ?u ?q] have "revision_fits ?q ?u" by simp
    from fresh_revision [OF fit _ _ this, of ?k] have "profiled ?k ?u \<and> counted ?k ?u" by simp
    moreover have "expected_task_state e = Inr (JStr ''ready'')"
      using follows_simps(3) [OF task_revised(11)] by (simp add: expected_task_state_def)
    ultimately show "task_fits ?k ?u"
      using fits_idle [OF fit] task_revised(4) by (simp add: task_fits_def announced_def lease_fits_def lease_columns_def)
  qed (use find_task_id [OF task_revised(2)] in \<open>simp_all add: task_revised(1)\<close>)
next
  case (task_leased i row v revision agent mv msha fence draft digest key act p e run_id now expires_at owner)
  have fit: "task_fits (history d i) row" using i find_task_id [OF task_leased(2)] by (auto simp: tasks_inv_def)
  show ?thesis
  proof (rule tasks_touched [OF p i task_leased(2, 9), where
        g = "\<lambda>r. r\<lparr>t_marker := marker_of e, t_state := TLeased,
                t_attempt_count := t_attempt_count row + 1, t_sha256 := digest, t_current_run_id := Some run_id,
                t_lease_owner := Some owner, t_lease_fencing_token := Some fence,
                t_lease_expires_at := Some expires_at, t_updated_at := now\<rparr>"])
    let ?r = "\<lparr>r_run_id = run_id, r_task_id = i, r_task_revision = t_revision row, r_attempt_number = t_attempt_count row + 1,
           r_status = RLeased, r_envelope = norm (JObj (dict_set ''task_envelope_sha256'' (JStr digest) draft)),
           r_envelope_sha256 = digest, r_result = None, r_result_sha256 = None, r_created_at = now, r_updated_at = now\<rparr>"
    let ?u = "row\<lparr>t_marker := marker_of e, t_state := TLeased,
                t_attempt_count := t_attempt_count row + 1, t_sha256 := digest, t_current_run_id := Some run_id,
                t_lease_owner := Some owner, t_lease_fencing_token := Some fence,
                t_lease_expires_at := Some expires_at, t_updated_at := now\<rparr>"
    let ?k = "\<lparr>h_latest = Some e, h_leases = h_leases (history d i) + (if ''task.leased'' = ''task.leased'' then 1 else 0),
        h_revisions = h_revisions (history d i) @ [], h_runs = h_runs (history d i) @ map run_core [?r]\<rparr>"
    have r: "newest_run ?k (t_revision ?u) = Some (run_core ?r)" "profiled ?k ?u" "counted ?k ?u"
      by (rule fresh_run [OF fit]; simp add: task_profile_def)+
    have "entry (r_envelope ?r) ''lease_fencing_token'' = Some (JStr fence)"
      using task_leased(7) by (auto simp: task_envelope_def bindE_Inr_iff entry_norm map_add_def dest!: pick_lookup)
    moreover have "expected_task_state e = Inr (JStr ''leased'')"
      using follows_simps(3) [OF task_leased(9)] by (simp add: expected_task_state_def task_prefix_def)
    ultimately show "task_fits ?k ?u"
      using r by (simp add: task_fits_def announced_def lease_fits_def lease_held_def)
  qed (use find_task_id [OF task_leased(2)] in \<open>simp_all add: task_leased(1)\<close>)
next
  case (result_quarantined i row run_id run res sha key act p e now)
  have fit: "task_fits (history d i) row" using i find_task_id [OF result_quarantined(2)] by (auto simp: tasks_inv_def)
  have "expected_task_state e = Inr (JStr ''cancellation_requested'')"
    using follows_simps(3) [OF result_quarantined(9)] by (simp add: expected_task_state_def)
  then show ?thesis
    by (intro tasks_touched [OF p i result_quarantined(2, 9), where qs = "[]" and rs = "[]" and
        g = "\<lambda>r. r\<lparr>t_marker := marker_of e, t_updated_at := now\<rparr>"] fits_moved [OF fit])
      (use find_task_id [OF result_quarantined(2)] result_quarantined(3) fits_idle [OF fit] in
        \<open>simp_all add: result_quarantined(1) task_profile_def announced_def lease_fits_def lease_columns_def\<close>)
next
  case (result_recorded i row v run_id run res sha st completed rst p key act e now)
  have fit: "task_fits (history d i) row" using i find_task_id [OF result_recorded(2)] by (auto simp: tasks_inv_def)
  have "expected_task_state e = Inr (JStr (task_state_text st))"
    using follows_simps(3, 5) [OF result_recorded(13)]
    by (simp add: expected_task_state_def result_recorded(12) item_Inr_iff get_norm)
  moreover have "st \<notin> {TLeased, TRunning, TExpired, TProposed, TAwaitingApproval}"
    using result_state_cases [of "run_actions_in run_id {ADispatched, AUnknown} d" completed row] result_recorded(10) by auto
  ultimately show ?thesis
    by (intro tasks_touched [OF p i result_recorded(2, 13), where qs = "[]" and rs = "[]" and
        g = "\<lambda>r. r\<lparr>t_marker := marker_of e, t_state := st, t_current_run_id := None, t_lease_owner := None,
                t_lease_fencing_token := None, t_lease_expires_at := None, t_updated_at := now\<rparr>"] fits_moved [OF fit])
      (use find_task_id [OF result_recorded(2)] in
        \<open>simp_all add: result_recorded(1) task_profile_def announced_def lease_fits_def lease_columns_def\<close>)
next
  case (task_escalated a tid row key act p e now)
  have fit: "task_fits (history d tid) row" using i find_task_id [OF task_escalated(4)] by (auto simp: tasks_inv_def)
  have "expected_task_state e = Inr (JStr ''needs_reconciliation'')"
    using follows_simps(3) [OF task_escalated(7)] by (simp add: expected_task_state_def task_prefix_def)
  then show ?thesis
    by (intro tasks_touched [OF p i task_escalated(4, 7), where qs = "[]" and rs = "[]" and
        g = "\<lambda>r. r\<lparr>t_marker := (marker_of e)\<lparr>mk_aggregate_version := mk_aggregate_version (t_marker r) + 1\<rparr>,
             t_state := TNeedsReconciliation, t_lease_owner := None, t_lease_fencing_token := None,
             t_lease_expires_at := None, t_updated_at := now\<rparr>"] fits_moved [OF fit])
      (use find_task_id [OF task_escalated(4)] in
        \<open>simp_all add: task_escalated(1) task_profile_def announced_def lease_fits_def lease_columns_def\<close>)
qed

lemma history_dedup [simp]: "history (d\<lparr>command_dedup := dd\<rparr>) i = history d i"
  by (simp add: history_def lease_count_def)

interpretation projections_links: service_invariant E "\<lambda>d. projections_ok d \<and> links_ok d" for E
  by (unfold_locales; (intro conjI projections.initially links.initially projections.dedup links.dedup)?;
      (elim conjE)?; (rule projections_step links_step; assumption)?; simp?)

interpretation histories: service_invariant_under E "\<lambda>d. projections_ok d \<and> links_ok d" tasks_inv for E
  by (unfold_locales; (elim conjE, rule tasks_step; assumption)?; simp add: tasks_inv_def)

end
