(* ===== verification/Verified.thy ===== *)
theory Verified
  imports History
begin

text \<open>
  The invariants are what \<open>verify_integrity\<close> checks: a reachable store passes the check, and can be opened
  again, exactly when no action has lost the columns that copy its provider's answer.
\<close>

section \<open>The replay and the projections\<close>

lemma verify_events_keys:
  "verify_events E n st rows = Inr (t, w) \<Longrightarrow> distinct (map fst (fst st)) \<Longrightarrow> distinct (map fst t)"
proof (induction rows arbitrary: n st)
  case (Cons r rows)
  obtain u x where st: "st = (u, x)" by (cases st)
  from Cons.prems(1) obtain st' where a: "verify_event E n (u, x) r = Inr st'" and b: "verify_events E (n + 1) st' rows = Inr (t, w)"
    by (auto simp: bindE_Inr_iff st)
  have "distinct (map fst (fst st'))" using verify_event_Inr(9) [OF a] Cons.prems(2) by (simp add: st distinct_update)
  then show ?case by (rule Cons.IH [OF b])
qed simp

lemma log_ok_terminal:
  assumes "log_ok E d"
  obtains terminal where "verify_event_log E d = Inr terminal" and "distinct (map fst terminal)"
    and "\<And>i. map_of terminal i = latest_event d i"
proof -
  from log_ok_verify [OF assms] obtain t w where v: "verify_events E 1 ([], []) (events d) = Inr (t, w)" "verify_event_log E d = Inr t"
    by metis
  with verify_events_spec [OF v(1)] verify_events_keys [OF v(1)] that show ?thesis by (simp add: latest_event_log)
qed

lemma verify_marker_row:
  assumes "tracks rows key mark kind d" and "\<And>i. map_of terminal i = latest_event d i" and "r \<in> set (rows d)"
  shows "verify_marker terminal (key r, mark r) = Inr ()"
  using assms unfolding tracks_def verify_marker_def by fastforce

lemma projection_keys:
  "fst ` set (projection_rows d) = o_objective_id ` set (objectives d) \<union> t_task_id ` set (tasks d) \<union>
     a_action_id ` set (actions d) \<union> m_memory_id ` set (memory_records d)"
  by (simp add: projection_rows_def image_Un image_image Un_assoc)

lemma tracked_keys:
  assumes "tracks rows key mark kind d" and "distinct (map fst terminal)" and "\<And>i. map_of terminal i = latest_event d i"
  shows "key ` set (rows d) = fst ` set (filter (\<lambda>p. ev_aggregate_type (snd p) = kind) terminal)"
proof (intro equalityI subsetI)
  fix i assume "i \<in> key ` set (rows d)"
  then obtain e where "latest_event d i = Some e" "ev_aggregate_type e = kind"
    using assms(1) unfolding tracks_def by blast
  then have "(i, e) \<in> set terminal" using assms(3) by (metis map_of_SomeD)
  then show "i \<in> fst ` set (filter (\<lambda>p. ev_aggregate_type (snd p) = kind) terminal)"
    using \<open>ev_aggregate_type e = kind\<close> by force
next
  fix i assume "i \<in> fst ` set (filter (\<lambda>p. ev_aggregate_type (snd p) = kind) terminal)"
  then obtain e where e: "(i, e) \<in> set terminal" "ev_aggregate_type e = kind" by auto
  then have "latest_event d i = Some e" using assms(2, 3) by (metis map_of_is_SomeI)
  then have "e \<in> set (events d)" "ev_aggregate_id e = i" using latest_event_mem by auto
  then show "i \<in> key ` set (rows d)" using assms(1) e(2) unfolding tracks_def by blast
qed

lemma verify_projections_ok:
  assumes p: "projections_ok d" and t: "distinct (map fst terminal)" "\<And>i. map_of terminal i = latest_event d i"
  shows "verify_projections terminal d = Inr ()"
proof -
  note p' = p [unfolded projections_ok_def]
  have "forE (verify_marker terminal) (projection_rows d) = Inr ()"
    using verify_marker_row [of objectives o_objective_id o_marker "''objective''" d, OF _ t(2)]
      verify_marker_row [of tasks t_task_id t_marker "''task''" d, OF _ t(2)]
      verify_marker_row [of actions a_action_id a_marker "''action''" d, OF _ t(2)]
      verify_marker_row [of memory_records m_memory_id m_marker "''memory''" d, OF _ t(2)] p'
    by (auto simp: forE_Inr_iff projection_rows_def)
  moreover have "fst ` set (filter (\<lambda>p. ev_aggregate_type (snd p) \<in> set projected_kinds) terminal) =
      fst ` set (filter (\<lambda>p. ev_aggregate_type (snd p) = ''objective'') terminal) \<union>
      fst ` set (filter (\<lambda>p. ev_aggregate_type (snd p) = ''task'') terminal) \<union>
      fst ` set (filter (\<lambda>p. ev_aggregate_type (snd p) = ''action'') terminal) \<union>
      fst ` set (filter (\<lambda>p. ev_aggregate_type (snd p) = ''memory'') terminal)"
    by (auto simp: projected_kinds_def)
  ultimately show ?thesis
    using p' tracked_keys [of objectives o_objective_id o_marker "''objective''" d, OF _ t]
      tracked_keys [of tasks t_task_id t_marker "''task''" d, OF _ t]
      tracked_keys [of actions a_action_id a_marker "''action''" d, OF _ t]
      tracked_keys [of memory_records m_memory_id m_marker "''memory''" d, OF _ t]
    by (simp add: verify_projections_def projection_keys Un_assoc)
qed

section \<open>The rows\<close>

definition stored_encodable :: "db \<Rightarrow> bool" where
  "stored_encodable d \<longleftrightarrow>
     (\<forall>e \<in> set (events d). encodable (ev_payload e)) \<and>
     (\<forall>r \<in> set (objective_revisions d). encodable (or_record r)) \<and>
     (\<forall>r \<in> set (objectives d). encodable (o_record r)) \<and>
     (\<forall>r \<in> set (task_revisions d). encodable (tr_record r)) \<and>
     (\<forall>r \<in> set (runs d). encodable (r_envelope r) \<and> (\<forall>v. r_result r = Some v \<longrightarrow> encodable v)) \<and>
     (\<forall>r \<in> set (actions d). encodable (a_record r))"

text \<open>The provider columns of an action agree with its record.\<close>

definition columns_match :: "env \<Rightarrow> action_row \<Rightarrow> bool" where
  "columns_match E r \<longleftrightarrow> same_nullable (entry (a_record r) ''provider_operation_id'') (a_provider_operation_id r) \<and>
     a_provider_evidence_sha256 r = (case entry (a_record r) ''provider_evidence'' of
        None \<Rightarrow> None | Some v \<Rightarrow> if truthy v then Some (sha256 E (norm v)) else None)"

lemma same_simps [simp]: "same_text (Some (JStr s)) s" "same_int (Some (JInt n)) n"
  by (simp_all add: same_text_def same_int_def num_of_def)

lemma encodable_entry:
  assumes "encodable v" and "entry v k = Some w"
  shows "encodable w"
proof -
  from assms(2) obtain d where v: "v = JObj d" and k: "(k, w) \<in> set d"
    by (cases v) (auto simp: entry_def get_def dest: map_of_SomeD)
  from encodable_norm [OF assms(1)] have "norm (JObj d) = JObj d" by (simp add: v)
  then have "sort_key (\<lambda>p. utf16be (ucs (fst p))) (map (\<lambda>p. (fst p, norm (snd p))) d) = d"
    unfolding norm_JObj by (simp only: jsn.inject)
  from arg_cong [OF this, of set] have "set (map (\<lambda>p. (fst p, norm (snd p))) d) = set d" by (simp only: set_sort)
  then obtain x where "w = norm x" using k by (metis (no_types, lifting) imageE list.set_map snd_conv)
  moreover obtain u where "canonical w = Inr u"
    using assms(1) k canonical_ok_JObj [of d] by (auto simp: encodable_def v)
  moreover from this have "u = norm w" by (rule canonical_Inr)
  ultimately show ?thesis by (simp add: encodable_def)
qed

lemma verify_objective_revision_ok:
  "objective_revision_ok E r \<Longrightarrow> encodable (or_record r) \<Longrightarrow> verify_objective_revision E r = Inr ()"
  by (simp add: objective_revision_ok_def verify_objective_revision_def reencodes_Inr)

lemma verify_task_revision_ok: "task_revision_ok E r \<Longrightarrow> encodable (tr_record r) \<Longrightarrow> verify_task_revision E r = Inr ()"
  by (simp add: task_revision_ok_def verify_task_revision_def reencodes_Inr)

lemma verify_run_ok:
  "envelope_ok E r \<Longrightarrow> result_ok E r \<Longrightarrow> encodable (r_envelope r) \<Longrightarrow> \<forall>v. r_result r = Some v \<longrightarrow> encodable v \<Longrightarrow>
   verify_run E r = Inr ()"
  by (auto simp: envelope_ok_def result_ok_def verify_run_def verify_run_result_def reencodes_Inr split: option.splits)

lemma verify_objective_ok: "objective_row_ok r \<Longrightarrow> encodable (o_record r) \<Longrightarrow> verify_objective r = Inr ()"
  by (simp add: objective_row_ok_def verify_objective_def reencodes_Inr)

lemma verify_action_iff:
  assumes "action_row_ok r" and "encodable (a_record r)"
  shows "verify_action E r = Inr () \<longleftrightarrow> columns_match E r"
proof (cases "entry (a_record r) ''provider_evidence''")
  case None
  then show ?thesis using assms by (auto simp: action_row_ok_def verify_action_def columns_match_def reencodes_Inr)
next
  case (Some v)
  have "sha256_json E v = Inr (sha256 E (norm v))"
    using encodable_entry [OF assms(2) Some] by (auto simp: sha256_json_Inr encodable_def)
  then show ?thesis using assms Some
    by (auto simp: action_row_ok_def verify_action_def columns_match_def reencodes_Inr split: if_splits)
qed

lemma max_row_map: "(\<And>r. k (f r) = k r) \<Longrightarrow> max_row k (map f rs) = map_option f (max_row k rs)"
  by (induction rs) (auto split: option.splits)

lemma newest_run_history: "newest_run (history d i) n = map_option run_core (revision_run d i n)"
proof -
  have "filter (\<lambda>r. r_task_revision r = n) (filter (\<lambda>r. r_task_id r = i) (map run_core (runs d))) =
      map run_core (filter (\<lambda>r. r_task_id r = i \<and> r_task_revision r = n) (runs d))"
    by (simp add: filter_map o_def conj_commute)
  then show ?thesis by (simp add: newest_run_def history_def revision_run_def max_row_map)
qed

lemma verify_task_ok:
  assumes fit: "task_fits (history d (t_task_id t)) t" and enc: "\<forall>r \<in> set (task_revisions d). encodable (tr_record r)"
  shows "verify_task d t = Inr ()"
proof -
  let ?h = "history d (t_task_id t)"
  obtain e where e: "latest_event d (t_task_id t) = Some e" "expected_task_state e = Inr (JStr (task_state_text (t_state t)))"
    using fit by (auto simp: task_fits_def announced_def history_def)
  obtain q where q: "find_task_revision d (t_task_id t) (t_revision t) = Some q" "revision_fits q t"
    "t_sha256 t = (case newest_run ?h (t_revision t) of Some r \<Rightarrow> r_envelope_sha256 r | None \<Rightarrow> tr_sha256 q)"
    using fit by (auto simp: task_fits_def profiled_def history_def find_task_revision_def find_filter)
  have n: "t_attempt_count t = int (lease_count d (t_task_id t))"
    using fit by (simp add: task_fits_def counted_def history_def)
  from q(1) have "encodable (tr_record q)" using enc find_Some_iff unfolding find_task_revision_def by metis
  from q(2) obtain v where v: "entry (tr_record q) ''max_attempts'' = Some (norm v)" "bind_int v = Inr (t_max_attempts t)"
    by (auto simp: revision_fits_def)
  have m: "py_int (norm v) = Inr (t_max_attempts t)"
    using bind_int_norm [OF v(2)] encodable_entry [OF \<open>encodable (tr_record q)\<close> v(1)] by (simp add: encodable_def)
  have sha: "t_sha256 t = (case revision_run d (t_task_id t) (t_revision t) of Some r \<Rightarrow> r_envelope_sha256 r | None \<Rightarrow> tr_sha256 q)"
    using q(3) by (simp add: newest_run_history split: option.splits)
  have lease: "verify_task_lease d t = Inr ()"
    using fit by (auto simp: task_fits_def lease_fits_def verify_task_lease_def lease_held_def newest_run_history
        lease_columns_def entry_def item_Inr_iff bindE_Inr_iff)
  show ?thesis
    using q(1, 2) e n m v(1) sha lease
    by (simp add: verify_task_def found_def Let_def revision_fits_def entry_def item_Inr_iff bindE_Inr_iff)
qed

section \<open>Reachable stores\<close>

text \<open>The operations of Core leave the tables of memory, adapters and reviews empty, and the metadata alone.\<close>

definition settled :: "env \<Rightarrow> db \<Rightarrow> bool" where
  "settled E d \<longleftrightarrow> memory_records d = [] \<and> memory_fts d = [] \<and> context_packs d = [] \<and> interface_messages d = [] \<and>
     runner_dispatches d = [] \<and> agent_manifests d = [] \<and> task_reviews d = [] \<and>
     map_of (meta d) ''database_id'' \<noteq> None \<and> map_of (meta d) ''writer_id'' = Some (writer_id E)"

lemma settled_step: "db_step F d d' \<Longrightarrow> settled E d \<Longrightarrow> settled E d'"
  by (induction rule: db_step.induct) (simp_all add: settled_def)

interpretation settled: service_invariant E "settled E" for E
  by (unfold_locales; (rule settled_step; assumption)?; simp add: settled_def initial_db_def)

lemma verify_later_settled: "settled E d \<Longrightarrow> verify_later_tables E normal d = Inr ()"
  by (simp add: settled_def verify_later_tables_def verify_links_def verify_reviews_def same_dict_def actual_fts_def expected_fts_def)

lemma reachable_core_tables:
  assumes r: "reachable E d" and enc: "stored_encodable d"
  obtains terminal where "verify_event_log E d = Inr terminal"
    and "verify_core_tables E terminal d = Inr () \<longleftrightarrow> (\<forall>a \<in> set (actions d). columns_match E a)"
proof -
  have ok: "log_ok E d" using log.always [OF r] enc by (simp add: log_inv_def stored_encodable_def)
  obtain terminal where t: "verify_event_log E d = Inr terminal" "distinct (map fst terminal)"
      "\<And>i. map_of terminal i = latest_event d i"
    using log_ok_terminal [OF ok] by blast
  note p = projections.always [OF r] and i = digests.always [OF r, unfolded digests_inv_def]
    and w = rows.both.always [OF r, unfolded rows_inv_def] and h = histories.both.always [OF r, unfolded tasks_inv_def]
    and enc = enc [unfolded stored_encodable_def]
  have "verify_projections terminal d = Inr ()" by (rule verify_projections_ok [OF p t(2, 3)])
  moreover have "forE (verify_objective_revision E) (objective_revisions d) = Inr ()"
    using i enc verify_objective_revision_ok by (auto simp: forE_Inr_iff)
  moreover have "forE (verify_task_revision E) (task_revisions d) = Inr ()"
    using i enc verify_task_revision_ok by (auto simp: forE_Inr_iff)
  moreover have "forE (verify_run E) (runs d) = Inr ()"
    using i enc verify_run_ok by (auto simp: forE_Inr_iff)
  moreover have "forE verify_objective (objectives d) = Inr ()"
    using w enc verify_objective_ok by (auto simp: forE_Inr_iff)
  moreover have "forE (verify_action E) (actions d) = Inr () \<longleftrightarrow> (\<forall>a \<in> set (actions d). columns_match E a)"
    using w enc verify_action_iff by (auto simp: forE_Inr_iff)
  moreover have "forE (verify_task d) (tasks d) = Inr ()"
    using h enc verify_task_ok by (auto simp: forE_Inr_iff)
  ultimately have "verify_core_tables E terminal d = Inr () \<longleftrightarrow> (\<forall>a \<in> set (actions d). columns_match E a)"
    by (simp add: verify_core_tables_def bindE_Inr_iff)
  with t(1) show ?thesis by (rule that)
qed

text \<open>When a store that has served requests opens.\<close>

lemma store_opens_iff:
  assumes "reachable E d" and "stored_encodable d" and "verify_pragmas E = Inr ()" and "verify_migrations files d = Inr ()"
  shows "open_store E True ''ok'' files normal True d = Inr () \<longleftrightarrow> (\<forall>a \<in> set (actions d). columns_match E a)"
proof -
  obtain terminal where "verify_event_log E d = Inr terminal"
    and "verify_core_tables E terminal d = Inr () \<longleftrightarrow> (\<forall>a \<in> set (actions d). columns_match E a)"
    by (rule reachable_core_tables [OF assms(1, 2)])
  moreover have s: "settled E d" by (rule settled.always [OF assms(1)])
  ultimately show ?thesis
    using assms(3, 4) verify_later_settled [OF s]
    by (auto simp: open_store_def verify_integrity_def bindE_Inr_iff meta_value_def found_def settled_def verify_pragmas_def)
qed

end
