(* ===== verification/Lifecycle.thy ===== *)
theory Lifecycle
  imports Verified
begin

text \<open>
  The state machines of objectives, tasks and actions, read off the event log: the events of an aggregate
  announce a path of its state machine that starts in the initial state and ends in the state of its row.
\<close>

section \<open>Paths in the log\<close>

definition events_of :: "db \<Rightarrow> string \<Rightarrow> event_row list" where
  "events_of d i = filter (\<lambda>e. ev_aggregate_id e = i) (events d)"

definition path_of ::
  "(event_row \<Rightarrow> 's \<Rightarrow> bool) \<Rightarrow> ('s \<Rightarrow> 's \<Rightarrow> bool) \<Rightarrow> 's \<Rightarrow> event_row list \<Rightarrow> 's list \<Rightarrow> bool" where
  "path_of announces edge first es sts \<longleftrightarrow>
     list_all2 announces es sts \<and> sts \<noteq> [] \<and> hd sts = first \<and> successively edge sts"

definition traced ::
  "(db \<Rightarrow> 'r list) \<Rightarrow> ('r \<Rightarrow> string) \<Rightarrow> ('r \<Rightarrow> 's) \<Rightarrow> (event_row \<Rightarrow> 's \<Rightarrow> bool) \<Rightarrow> ('s \<Rightarrow> 's \<Rightarrow> bool) \<Rightarrow> 's \<Rightarrow> db \<Rightarrow> bool" where
  "traced rows key state announces edge first d \<longleftrightarrow>
     (\<forall>r \<in> set (rows d). \<exists>sts. path_of announces edge first (events_of d (key r)) sts \<and> last sts = state r)"

locale machine_table = projection_table rows key mark kind
  for rows :: "db \<Rightarrow> 'r list" and key :: "'r \<Rightarrow> string" and mark :: "'r \<Rightarrow> event_marker" and kind :: string +
  fixes state :: "'r \<Rightarrow> 's" and announces :: "event_row \<Rightarrow> 's \<Rightarrow> bool" and edge :: "'s \<Rightarrow> 's \<Rightarrow> bool" and first :: 's
  assumes rows_dedup: "rows (d\<lparr>command_dedup := dd\<rparr>) = rows d"
begin

lemma events_push: "follows E k a d e \<Longrightarrow> events d' = events d @ [e] \<Longrightarrow>
  events_of d' i = events_of d i @ (if i = aggregate_id a then [e] else [])"
  using follows_simps(1) by (simp add: events_of_def)

lemma path_snoc:
  assumes "path_of announces edge first es sts" and "announces e s" and "edge (last sts) s"
  shows "path_of announces edge first (es @ [e]) (sts @ [s])"
  using assms by (auto simp: path_of_def list_all2_appendI successively_append_iff)

lemma traced_other:
  assumes "tracks rows key mark kind d" and "traced rows key state announces edge first d" and "follows E k a d e" and "own_kind a d"
    and "aggregate_type a \<noteq> kind" and "rows d' = rows d" and "events d' = events d @ [e]"
  shows "traced rows key state announces edge first d'"
proof -
  have "key r \<noteq> aggregate_id a" if "r \<in> set (rows d)" for r
    using latest_kind [OF assms(1) that] assms(4, 5) by (auto simp: own_kind_def)
  then show ?thesis using assms(2) events_push [OF assms(3, 7)] by (simp add: traced_def assms(6))
qed

lemma traced_insert:
  assumes t: "tracks rows key mark kind d" and "traced rows key state announces edge first d"
    and f: "follows E k a d e" "versions_positive d" "aggregate_version a = 1"
    and d': "rows d' = rows d @ [r]" "events d' = events d @ [e]"
    and r: "key r = aggregate_id a" "state r = first" "announces e first"
  shows "traced rows key state announces edge first d'"
proof -
  have none: "latest_event d (aggregate_id a) = None" by (rule follows_first [OF f])
  then have "events_of d (aggregate_id a) = []" by (auto simp: latest_event_None events_of_def filter_empty_conv)
  moreover have "key q \<noteq> aggregate_id a" if "q \<in> set (rows d)" for q
    using latest_kind [OF t that] none by auto
  ultimately show ?thesis using assms(2) r
    by (auto simp: traced_def d'(1) events_push [OF f(1) d'(2)] path_of_def intro!: exI [of _ "[first]"])
qed

lemma traced_update:
  assumes t: "tracks rows key mark kind d" and p: "traced rows key state announces edge first d" and f: "follows E k a d e"
    and row: "List.find (\<lambda>r. key r = aggregate_id a) (rows d) = Some row"
    and d': "rows d' = update_where (\<lambda>r. key r = aggregate_id a) g (rows d)" "events d' = events d @ [e]"
    and g: "key (g row) = aggregate_id a" "announces e (state (g row))" "edge (state row) (state (g row))"
  shows "traced rows key state announces edge first d'"
  unfolding traced_def
proof
  have one: "rows d' = update_where (\<lambda>r. key r = aggregate_id a) (\<lambda>_. g row) (rows d)"
    by (rule trans [OF d'(1) update_found [OF t row]])
  fix r assume "r \<in> set (rows d')"
  then obtain q where q: "q \<in> set (rows d)" "key q = aggregate_id a \<and> r = g row \<or> key q \<noteq> aggregate_id a \<and> r = q"
    unfolding one set_update_where by blast
  note ev = events_push [OF f d'(2)]
  from q(2) show "\<exists>sts. path_of announces edge first (events_of d' (key r)) sts \<and> last sts = state r"
  proof (elim disjE conjE)
    assume "r = g row"
    moreover from find_Some_iff [OF row] p obtain sts
      where s: "path_of announces edge first (events_of d (key row)) sts" "last sts = state row" by (auto simp: traced_def)
    moreover have "path_of announces edge first (events_of d (key row) @ [e]) (sts @ [state (g row)])"
      using path_snoc [OF s(1) g(2)] s(2) g(3) by simp
    ultimately show ?thesis using find_Some_iff [OF row] g(1) by (auto simp: ev)
  next
    assume "key q \<noteq> aggregate_id a" "r = q"
    with p q(1) show ?thesis by (auto simp: traced_def ev)
  qed
qed

lemma traced_dedup: "traced rows key state announces edge first d \<Longrightarrow> traced rows key state announces edge first (d\<lparr>command_dedup := dd\<rparr>)"
  by (simp add: traced_def rows_dedup events_of_def)

end

section \<open>The machines\<close>

text \<open>The tasks of \<open>docs/COMPANY-OS-SPEC.md\<close>, section 9.1, as the code has them: a cancelled task may receive
  a late result without leaving its state, an unknown outcome stops any task that has run, and there
  is no way to \<open>expired\<close>.\<close>

fun task_successors :: "task_state \<Rightarrow> task_state list" where
  "task_successors TProposed = [TAwaitingApproval, TReady, TCancelled]"
| "task_successors TAwaitingApproval = [TReady, TCancelled]"
| "task_successors TReady = [TLeased, TCancelled, TNeedsReconciliation]"
| "task_successors TLeased = [TRunning, TReady, TCancellationRequested, TNeedsReconciliation, TFailedTerminal]"
| "task_successors TRunning = [TReview, TReady, TCancellationRequested, TNeedsReconciliation, TFailedTerminal]"
| "task_successors TReview = [TAccepted, TRejected, TChangesRequested, TNeedsReconciliation]"
| "task_successors TChangesRequested = [TReady, TNeedsReconciliation]"
| "task_successors TCancellationRequested = [TCancellationRequested, TCancelled, TNeedsReconciliation]"
| "task_successors TNeedsReconciliation = [TReady, TReview]"
| "task_successors s = []"

fun action_successors :: "action_state \<Rightarrow> action_state list" where
  "action_successors APrepared = [ADispatched, AFailed]"
| "action_successors ADispatched = [AConfirmed, AFailed, AUnknown]"
| "action_successors AUnknown = [AConfirmed, AFailed]"
| "action_successors AConfirmed = [ACompensated]"
| "action_successors s = []"

definition task_edge :: "task_state \<Rightarrow> task_state \<Rightarrow> bool" where
  "task_edge a b \<longleftrightarrow> b \<in> set (task_successors a)"

definition action_edge :: "action_state \<Rightarrow> action_state \<Rightarrow> bool" where
  "action_edge a b \<longleftrightarrow> b \<in> set (action_successors a)"

text \<open>A revision keeps the status of an objective, which must not be terminal.\<close>

definition objective_edge :: "objective_status \<Rightarrow> objective_status \<Rightarrow> bool" where
  "objective_edge a b \<longleftrightarrow> b \<in> set (allowed_status a) \<or> (a = b \<and> a \<notin> {Completed, Cancelled, Superseded})"

definition task_announces :: "event_row \<Rightarrow> task_state \<Rightarrow> bool" where
  "task_announces e s \<longleftrightarrow> expected_task_state e = Inr (JStr (task_state_text s))"

definition action_announces :: "event_row \<Rightarrow> action_state \<Rightarrow> bool" where
  "action_announces e s \<longleftrightarrow> ev_event_type e = ''action.'' @ action_state_text s"

definition objective_announces :: "event_row \<Rightarrow> objective_status \<Rightarrow> bool" where
  "objective_announces e s \<longleftrightarrow>
     ev_event_type e = ''objective.revised'' \<or>
     ev_event_type e = (if s = Proposed then ''objective.created'' else ''objective.'' @ objective_status_text s)"

interpretation om: machine_table objectives o_objective_id o_marker "''objective''" o_status objective_announces objective_edge Proposed
  by unfold_locales simp

interpretation tm: machine_table tasks t_task_id t_marker "''task''" t_state task_announces task_edge TProposed
  by unfold_locales simp

interpretation am: machine_table actions a_action_id a_marker "''action''" a_state action_announces action_edge APrepared
  by unfold_locales simp

definition machines_inv :: "db \<Rightarrow> bool" where
  "machines_inv d \<longleftrightarrow>
     traced objectives o_objective_id o_status objective_announces objective_edge Proposed d \<and>
     traced tasks t_task_id t_state task_announces task_edge TProposed d \<and>
     traced actions a_action_id a_state action_announces action_edge APrepared d"

lemma machines_push:
  assumes p: "projections_ok d" and i: "machines_inv d" and f: "follows E k a d e" and o: "own_kind a d"
    and d': "events d' = events d @ [e]"
    and t: "if aggregate_type a = ''objective''
      then traced objectives o_objective_id o_status objective_announces objective_edge Proposed d' else objectives d' = objectives d"
      "if aggregate_type a = ''task''
      then traced tasks t_task_id t_state task_announces task_edge TProposed d' else tasks d' = tasks d"
      "if aggregate_type a = ''action''
      then traced actions a_action_id a_state action_announces action_edge APrepared d' else actions d' = actions d"
  shows "machines_inv d'"
  using t om.traced_other [OF _ _ f o _ _ d'] tm.traced_other [OF _ _ f o _ _ d'] am.traced_other [OF _ _ f o _ _ d'] p i
  by (auto simp: machines_inv_def projections_ok_def split: if_splits)

lemma task_machine_update:
  assumes p: "projections_ok d" and i: "machines_inv d" and row: "find_task d i = Some row"
    and f: "follows E k (task_args i ty v act pl sens) d e"
    and d': "events d' = events d @ [e]" "tasks d' = update_where (\<lambda>q. t_task_id q = i) g (tasks d)"
      "objectives d' = objectives d" "actions d' = actions d"
    and g: "t_task_id (g row) = i" "task_announces e (t_state (g row))" "task_edge (t_state row) (t_state (g row))"
  shows "machines_inv d'"
  by (rule machines_push [OF p i f own_kind_row(2) [OF p row] d'(1)])
    (use d' g p i row tm.traced_update [OF _ _ f, where d' = d' and g = g and row = row] in
      \<open>auto simp: projections_ok_def find_task_def machines_inv_def\<close>)

lemma objective_machine_update:
  assumes p: "projections_ok d" and i: "machines_inv d" and row: "find_objective d i = Some row"
    and f: "follows E k (objective_args i ty v act pl) d e"
    and d': "events d' = events d @ [e]" "objectives d' = update_where (\<lambda>q. o_objective_id q = i) g (objectives d)"
      "tasks d' = tasks d" "actions d' = actions d"
    and g: "o_objective_id (g row) = i" "objective_announces e (o_status (g row))" "objective_edge (o_status row) (o_status (g row))"
  shows "machines_inv d'"
  by (rule machines_push [OF p i f own_kind_row(1) [OF p row] d'(1)])
    (use d' g p i row om.traced_update [OF _ _ f, where d' = d' and g = g and row = row] in
      \<open>auto simp: projections_ok_def find_objective_def machines_inv_def\<close>)

lemma action_machine_update:
  assumes p: "projections_ok d" and i: "machines_inv d" and row: "find_action d i = Some row"
    and f: "follows E k (action_args i ty v act pl) d e"
    and d': "events d' = events d @ [e]" "actions d' = update_where (\<lambda>q. a_action_id q = i) g (actions d)"
      "tasks d' = tasks d" "objectives d' = objectives d"
    and g: "a_action_id (g row) = i" "action_announces e (a_state (g row))" "action_edge (a_state row) (a_state (g row))"
  shows "machines_inv d'"
  by (rule machines_push [OF p i f own_kind_row(3) [OF p row] d'(1)])
    (use d' g p i row am.traced_update [OF _ _ f, where d' = d' and g = g and row = row] in
      \<open>auto simp: projections_ok_def find_action_def machines_inv_def\<close>)

section \<open>Every step follows an edge\<close>

lemma task_move_edge: "task_move E d row st rs cl cf \<Longrightarrow> t_state row \<noteq> TExpired \<Longrightarrow> task_edge (t_state row) st"
  by (auto elim!: task_move.cases simp: task_edge_def expire_next_state_def)

lemma action_move_edge: "action_move row st details \<Longrightarrow> action_edge (a_state row) st"
  by (cases st) (auto elim!: action_move.cases simp: action_edge_def)

text \<open>Only a task that has run has an action to escalate.\<close>

lemma action_task_ran:
  assumes "links_ok d" and "tasks_inv d" and "a \<in> set (actions d)" and "find_task d (a_task_id a) = Some row"
  shows "t_state row \<notin> {TProposed, TAwaitingApproval}"
proof
  assume s: "t_state row \<in> {TProposed, TAwaitingApproval}"
  have row: "t_task_id row = a_task_id a" "row \<in> set (tasks d)" using find_task_id [OF assms(4)] by simp_all
  obtain r where "r \<in> set (runs d)" "r_task_id r = a_task_id a"
    using assms(1, 3) by (auto simp: links_ok_def run_keys_def)
  then have "run_core r \<in> set (h_runs (history d (t_task_id row)))" using row by (simp add: history_def)
  with s assms(2) row(2) show False by (auto simp: tasks_inv_def task_fits_def)
qed

lemma machines_step:
  assumes "db_step E d d'" and p: "projections_ok d" and l: "links_ok d" and t: "tasks_inv d" and i: "machines_inv d"
  shows "machines_inv d'"
  using assms(1)
proof cases
  case (objective_created key oid act pl e)
  show ?thesis
    by (rule machines_push [OF p i objective_created(2) own_kind_first [OF objective_created(2)]])
      (use p i in \<open>auto simp: objective_created(1) projections_ok_def machines_inv_def objective_announces_def follows_simps [OF objective_created(2)]
        intro: om.traced_insert [OF _ _ objective_created(2)]\<close>)
next
  case (objective_moved i row v new key act pl e)
  have "new \<noteq> Proposed" using objective_moved(4) by (cases "o_status row") auto
  then show ?thesis
    by (intro objective_machine_update [OF p i objective_moved(2, 5)])
      (use objective_moved find_ids follows_simps(3) [OF objective_moved(5)] in
        \<open>auto simp: objective_announces_def objective_edge_def\<close>)
next
  case (objective_revised j row v updates key act pl e draft digest record_json now)
  show ?thesis
    by (rule objective_machine_update [OF p i objective_revised(2, 6), where
        g = "\<lambda>r. r\<lparr>o_marker := marker_of e, o_revision := o_revision row + 1, o_sha256 := digest,
                o_record := record_json, o_updated_at := now\<rparr>"])
      (use objective_revised(1, 4) find_ids(1) [OF objective_revised(2)] follows_simps(3) [OF objective_revised(6)] in
        \<open>simp_all add: objective_announces_def objective_edge_def\<close>)
next
  case (task_created oid objective key tid act pl e)
  have a: "task_announces e TProposed"
    using follows_simps(3, 5) [OF task_created(4)]
    by (simp add: task_announces_def expected_task_state_def task_created(5) item_Inr_iff get_norm)
  show ?thesis
    by (rule machines_push [OF p i task_created(4) own_kind_first [OF task_created(4)]])
      (use p i a in \<open>auto simp: task_created(1) projections_ok_def machines_inv_def
        intro: tm.traced_insert [OF _ _ task_created(4)]\<close>)
next
  case (task_moved i row v st rs cl cf key act pl e now)
  have "task_fits (history d i) row" using t find_task_id [OF task_moved(2)] by (auto simp: tasks_inv_def)
  then have "task_edge (t_state row) st" using task_move_edge [OF task_moved(4)] by (simp add: task_fits_def)
  then show ?thesis
    by (intro task_machine_update [OF p i task_moved(2, 5), where g = "move_task (marker_of e) (v + 1) st now cl cf"])
      (use find_task_id [OF task_moved(2)] follows_simps(3) [OF task_moved(5)] expected_state_text [of e st] in
        \<open>simp_all add: task_moved(1) task_announces_def\<close>)
next
  case (task_revised j row v updates previous run revision now review_id fnd task_sha max_n key act pl e)
  show ?thesis
    by (rule task_machine_update [OF p i task_revised(2, 11), where
        g = "\<lambda>r. r\<lparr>t_marker := marker_of e, t_revision := t_revision row + 1, t_sha256 := task_sha, t_state := TReady,
                t_max_attempts := max_n, t_updated_at := now\<rparr>"])
      (use task_revised(1, 4) find_task_id [OF task_revised(2)] follows_simps(3) [OF task_revised(11)] in
        \<open>simp_all add: task_announces_def expected_task_state_def task_edge_def\<close>)
next
  case (task_leased j row v revision agent mv msha fence draft digest key act pl e run_id now expires_at owner)
  have "t_state row \<noteq> TExpired"
    using t find_task_id [OF task_leased(2)] by (auto simp: tasks_inv_def task_fits_def)
  then have "t_state row = TReady" using task_leased(4) by simp
  then show ?thesis
    by (intro task_machine_update [OF p i task_leased(2, 9), where
        g = "\<lambda>r. r\<lparr>t_marker := marker_of e, t_state := TLeased,
                t_attempt_count := t_attempt_count row + 1, t_sha256 := digest, t_current_run_id := Some run_id,
                t_lease_owner := Some owner, t_lease_fencing_token := Some fence,
                t_lease_expires_at := Some expires_at, t_updated_at := now\<rparr>"])
      (use find_task_id [OF task_leased(2)] follows_simps(3) [OF task_leased(9)] in
        \<open>simp_all add: task_leased(1) task_announces_def expected_task_state_def task_prefix_def task_edge_def\<close>)
next
  case (result_quarantined j row run_id run res sha key act pl e now)
  show ?thesis
    by (rule task_machine_update [OF p i result_quarantined(2, 9), where g = "\<lambda>r. r\<lparr>t_marker := marker_of e, t_updated_at := now\<rparr>"])
      (use result_quarantined(1, 3) find_task_id [OF result_quarantined(2)] follows_simps(3) [OF result_quarantined(9)] in
        \<open>simp_all add: task_announces_def expected_task_state_def task_edge_def\<close>)
next
  case (result_recorded i row v run_id run res sha st completed rst pl key act e now)
  have "task_edge (t_state row) st"
    using result_state_cases [of "run_actions_in run_id {ADispatched, AUnknown} d" completed row] result_recorded(4, 10)
    by (auto simp: task_edge_def)
  moreover have "task_announces e st"
    using follows_simps(3, 5) [OF result_recorded(13)]
    by (simp add: task_announces_def expected_task_state_def result_recorded(12) item_Inr_iff get_norm)
  ultimately show ?thesis
    by (intro task_machine_update [OF p i result_recorded(2, 13), where
        g = "\<lambda>r. r\<lparr>t_marker := marker_of e, t_state := st, t_current_run_id := None, t_lease_owner := None,
                t_lease_fencing_token := None, t_lease_expires_at := None, t_updated_at := now\<rparr>"])
      (use find_task_id [OF result_recorded(2)] in \<open>simp_all add: result_recorded(1)\<close>)
next
  case (action_prepared tid row run_id fence n fs op_key aid now rcd key act pl e)
  have a: "action_announces e APrepared" using follows_simps(3) [OF action_prepared(11)] by (simp add: action_announces_def)
  show ?thesis
    by (rule machines_push [OF p i action_prepared(11) own_kind_first [OF action_prepared(11)]])
      (use p i a in \<open>auto simp: action_prepared(1) projections_ok_def machines_inv_def
        intro: am.traced_insert [OF _ _ action_prepared(11)]\<close>)
next
  case (action_moved j row v st details rcd now h prov key act pl e)
  show ?thesis
    by (rule action_machine_update [OF p i action_moved(2, 8), where
        g = "\<lambda>r. r\<lparr>a_marker := marker_of e, a_state := st, a_record := norm (JObj rcd), a_provider_operation_id := prov,
           a_provider_evidence_sha256 := h, a_updated_at := now\<rparr>"])
      (use action_moved(1) find_ids(2) [OF action_moved(2)] follows_simps(3) [OF action_moved(8)]
        action_move_edge [OF action_moved(4)] in \<open>simp_all add: action_announces_def\<close>)
next
  case (task_escalated a tid row key act pl e now)
  have s: "t_state row \<notin> {TProposed, TAwaitingApproval}"
    using action_task_ran [OF l t task_escalated(2)] task_escalated(3, 4) by simp
  have "t_state row \<noteq> TExpired"
    using t find_task_id [OF task_escalated(4)] by (auto simp: tasks_inv_def task_fits_def)
  with s task_escalated(5, 6) have "task_edge (t_state row) TNeedsReconciliation"
    by (cases "t_state row") (simp_all add: task_edge_def task_terminal_def)
  moreover have "task_announces e TNeedsReconciliation"
    using follows_simps(3) [OF task_escalated(7)] by (simp add: task_announces_def expected_task_state_def task_prefix_def)
  ultimately show ?thesis
    by (intro task_machine_update [OF p i task_escalated(4, 7), where
        g = "\<lambda>r. r\<lparr>t_marker := (marker_of e)\<lparr>mk_aggregate_version := mk_aggregate_version (t_marker r) + 1\<rparr>,
             t_state := TNeedsReconciliation, t_lease_owner := None, t_lease_fencing_token := None,
             t_lease_expires_at := None, t_updated_at := now\<rparr>"])
      (use find_task_id [OF task_escalated(4)] in \<open>simp_all add: task_escalated(1)\<close>)
qed

interpretation machines: service_invariant_under E "\<lambda>d. (projections_ok d \<and> links_ok d) \<and> tasks_inv d" machines_inv for E
  by (unfold_locales; (rule histories.both.initially)?; (erule (2) histories.both.step)?; (erule histories.both.dedup)?;
      (elim conjE, rule machines_step; assumption)?;
      simp add: machines_inv_def traced_def om.traced_dedup tm.traced_dedup am.traced_dedup events_of_def)

end
