(* ===== verification/Evolution.thy ===== *)
theory Evolution
  imports Lifecycle "HOL-Library.Sublist"
begin

text \<open>
  How a store changes over time: what of an earlier database is still there, unchanged, in a later one. The
  log and the tables of revisions only grow; a row of a projected table changes only together with its version, and
  not at all once its state is terminal.
\<close>

section \<open>Later databases\<close>

definition serves :: "env \<Rightarrow> db \<Rightarrow> db \<Rightarrow> bool" where
  "serves E d d' \<longleftrightarrow> (\<exists>F r out. same_service E F \<and> perform F r d = (out, d'))"

definition later :: "env \<Rightarrow> db \<Rightarrow> db \<Rightarrow> bool" where
  "later E = (serves E)\<^sup>*\<^sup>*"

lemma reachable_later: "later E d d' \<Longrightarrow> reachable E d \<Longrightarrow> reachable E d'"
  unfolding later_def
  by (induction rule: rtranclp_induct) (auto simp: serves_def intro: reachable.request)

text \<open>An order on databases that every step follows, where an invariant helps.\<close>

locale service_order = inv: service_invariant E Q for E Q +
  fixes R :: "db \<Rightarrow> db \<Rightarrow> bool"
  assumes same: "Q d \<Longrightarrow> R d d"
    and trans: "R d d1 \<Longrightarrow> R d1 d2 \<Longrightarrow> R d d2"
    and forward: "same_service E F \<Longrightarrow> Q d \<Longrightarrow> db_step F d d' \<Longrightarrow> R d d'"
    and recorded: "R d (d1\<lparr>command_dedup := dd\<rparr>) \<longleftrightarrow> R d d1"
begin

lemma along_steps: "(db_step F)\<^sup>*\<^sup>* d d' \<Longrightarrow> same_service E F \<Longrightarrow> Q d \<Longrightarrow> R d d'"
  by (induction rule: rtranclp_induct) (auto intro: same trans forward inv.steps)

lemma along_request: "serves E d d' \<Longrightarrow> Q d \<Longrightarrow> R d d'"
  unfolding serves_def by (metis perform_steps along_steps recorded call_steps_def)

lemma along: "later E d d' \<Longrightarrow> Q d \<Longrightarrow> R d d'"
  unfolding later_def
proof (induction rule: rtranclp_induct)
  case (step d1 d2)
  have "Q d1" using step(1, 4)
    by (induction rule: rtranclp_induct) (auto simp: serves_def intro: inv.kept)
  then show ?case using step trans along_request by blast
qed (rule same)

end

section \<open>The log and the revisions only grow\<close>

definition grows :: "db \<Rightarrow> db \<Rightarrow> bool" where
  "grows d d' \<longleftrightarrow> prefix (events d) (events d') \<and>
     prefix (objective_revisions d) (objective_revisions d') \<and>
     prefix (task_revisions d) (task_revisions d') \<and>
     prefix (map run_core (runs d)) (map run_core (runs d'))"

lemma grows_step: "db_step E d d' \<Longrightarrow> grows d d'"
  by (erule db_step.cases) (auto simp: grows_def prefix_def)

interpretation growth: service_order E "\<lambda>d. True" grows for E
proof
  show "grows d d" for d by (simp add: grows_def)
  show "grows d d1 \<Longrightarrow> grows d1 d2 \<Longrightarrow> grows d d2" for d d1 d2
    unfolding grows_def using prefix_order.trans by metis
qed (simp_all add: grows_step, simp add: grows_def)

section \<open>Rows change with their version\<close>

definition rows_evolve :: "('r \<Rightarrow> string) \<Rightarrow> ('r \<Rightarrow> event_marker) \<Rightarrow> ('r \<Rightarrow> bool) \<Rightarrow> 'r list \<Rightarrow> 'r list \<Rightarrow> bool" where
  "rows_evolve key mark final rs rs' \<longleftrightarrow> (\<forall>r \<in> set rs. \<exists>r' \<in> set rs'. key r' = key r \<and>
     (r' = r \<or> \<not> final r \<and> mk_aggregate_version (mark r) < mk_aggregate_version (mark r')))"

lemma rows_evolve_refl: "rows_evolve key mark final rs rs"
  by (auto simp: rows_evolve_def)

lemma rows_evolve_trans: "rows_evolve key mark final rs rs1 \<Longrightarrow> rows_evolve key mark final rs1 rs2 \<Longrightarrow> rows_evolve key mark final rs rs2"
  unfolding rows_evolve_def by (metis order_less_trans)

lemma rows_evolve_append: "rows_evolve key mark final rs (rs @ qs)"
  by (auto simp: rows_evolve_def)

lemma rows_evolve_update:
  assumes "distinct (map key rs)" and row: "List.find (\<lambda>r. key r = i) rs = Some row"
    and g: "key (g row) = i" "\<not> final row" "mk_aggregate_version (mark row) < mk_aggregate_version (mark (g row))"
  shows "rows_evolve key mark final rs (update_where (\<lambda>r. key r = i) g rs)"
proof -
  have one: "r = row" if "r \<in> set rs" "key r = i" for r
    using find_by_key [of key rs r] assms(1) row that by simp
  show ?thesis
    unfolding rows_evolve_def
  proof
    fix r assume r: "r \<in> set rs"
    let ?r = "if key r = i then g r else r"
    have "?r \<in> set (update_where (\<lambda>r. key r = i) g rs)" using r by (auto simp: update_where_def)
    then show "\<exists>r' \<in> set (update_where (\<lambda>r. key r = i) g rs). key r' = key r \<and>
       (r' = r \<or> \<not> final r \<and> mk_aggregate_version (mark r) < mk_aggregate_version (mark r'))"
      by (rule bexI [rotated]) (use one [OF r] g in auto)
  qed
qed

lemma rows_evolve_final:
  assumes "rows_evolve key mark final rs rs'" and "distinct (map key rs')" and "r \<in> set rs" and "final r"
  shows "List.find (\<lambda>q. key q = key r) rs' = Some r"
  using assms find_by_key [of key rs' r] by (auto simp: rows_evolve_def)

lemma rows_evolve_same:
  assumes "rows_evolve key mark final rs rs'" and "distinct (map key rs')"
    and "List.find (\<lambda>q. key q = i) rs = Some r" and "List.find (\<lambda>q. key q = i) rs' = Some r'"
  shows "mk_aggregate_version (mark r) \<le> mk_aggregate_version (mark r') \<and>
    (mk_aggregate_version (mark r) = mk_aggregate_version (mark r') \<longrightarrow> r' = r)"
proof -
  from find_Some_iff [OF assms(3)] assms(1) obtain q where q: "q \<in> set rs'" "key q = i"
      "q = r \<or> mk_aggregate_version (mark r) < mk_aggregate_version (mark q)"
    by (auto simp: rows_evolve_def)
  then have "q = r'" using find_by_key [OF assms(2) q(1)] assms(4) by simp
  with q(3) show ?thesis by auto
qed

definition objective_final :: "objective_row \<Rightarrow> bool" where
  "objective_final r \<longleftrightarrow> o_status r \<in> {Completed, Cancelled, Superseded}"

definition task_final :: "task_row \<Rightarrow> bool" where
  "task_final r \<longleftrightarrow> t_state r \<in> {TAccepted, TRejected, TCancelled, TFailedTerminal}"

definition action_final :: "action_row \<Rightarrow> bool" where
  "action_final r \<longleftrightarrow> a_state r \<in> {AFailed, ACompensated}"

lemmas final_defs = objective_final_def task_final_def action_final_def

definition evolves :: "db \<Rightarrow> db \<Rightarrow> bool" where
  "evolves d d' \<longleftrightarrow>
     rows_evolve o_objective_id o_marker objective_final (objectives d) (objectives d') \<and>
     rows_evolve t_task_id t_marker task_final (tasks d) (tasks d') \<and>
     rows_evolve a_action_id a_marker action_final (actions d) (actions d')"

lemma evolves_objectives:
  assumes "objectives d' = update_where (\<lambda>q. o_objective_id q = i) g (objectives d)" "tasks d' = tasks d" "actions d' = actions d"
    and "projections_ok d" and "find_objective d i = Some row"
    and "o_objective_id (g row) = i" "\<not> objective_final row"
      "mk_aggregate_version (o_marker row) < mk_aggregate_version (o_marker (g row))"
  shows "evolves d d'"
  using assms rows_evolve_update [of o_objective_id "objectives d" i row g objective_final o_marker]
  by (simp add: evolves_def rows_evolve_refl projections_ok_def tracks_def find_objective_def)

lemma evolves_tasks:
  assumes "tasks d' = update_where (\<lambda>q. t_task_id q = i) g (tasks d)" "objectives d' = objectives d" "actions d' = actions d"
    and "projections_ok d" and "find_task d i = Some row"
    and "t_task_id (g row) = i" "\<not> task_final row"
      "mk_aggregate_version (t_marker row) < mk_aggregate_version (t_marker (g row))"
  shows "evolves d d'"
  using assms rows_evolve_update [of t_task_id "tasks d" i row g task_final t_marker]
  by (simp add: evolves_def rows_evolve_refl projections_ok_def tracks_def find_task_def)

lemma evolves_actions:
  assumes "actions d' = update_where (\<lambda>q. a_action_id q = i) g (actions d)" "objectives d' = objectives d" "tasks d' = tasks d"
    and "projections_ok d" and "find_action d i = Some row"
    and "a_action_id (g row) = i" "\<not> action_final row"
      "mk_aggregate_version (a_marker row) < mk_aggregate_version (a_marker (g row))"
  shows "evolves d d'"
  using assms rows_evolve_update [of a_action_id "actions d" i row g action_final a_marker]
  by (simp add: evolves_def rows_evolve_refl projections_ok_def tracks_def find_action_def)

lemma task_move_open: "task_move E d row st rs cl cf \<Longrightarrow> \<not> task_final row"
  by (auto elim: task_move.cases simp: task_final_def)

lemma action_move_open: "action_move row st details \<Longrightarrow> \<not> action_final row"
  by (cases st) (auto elim!: action_move.cases simp: action_final_def)

lemma event_version: "follows E k a d e \<Longrightarrow> mk_aggregate_version (marker_of e) = aggregate_version a"
  using marker_of_follows by metis

lemma evolves_step:
  assumes "db_step E d d'" and p: "projections_ok d"
  shows "evolves d d'"
  using assms(1)
proof cases
  case objective_created
  then show ?thesis by (simp add: evolves_def rows_evolve_refl rows_evolve_append)
next
  case (objective_moved i row v new key act pl e)
  show ?thesis unfolding objective_moved(1)
    by (rule evolves_objectives [OF _ _ _ p objective_moved(2)], simp, simp, simp)
      (use objective_moved find_ids(1) [OF objective_moved(2)] event_version [OF objective_moved(5)] in
        \<open>auto simp: objective_final_def simp del: dict_merge.simps append.simps\<close>)
next
  case (objective_revised i row v updates key act pl e)
  show ?thesis unfolding objective_revised(1)
    by (rule evolves_objectives [OF _ _ _ p objective_revised(2)], simp, simp, simp)
      (use objective_revised(3, 4) find_ids(1) [OF objective_revised(2)] event_version [OF objective_revised(6)] in
        \<open>auto simp: objective_final_def\<close>)
next
  case task_created
  then show ?thesis by (simp add: evolves_def rows_evolve_refl rows_evolve_append)
next
  case (task_moved i row v st rs cl cf key act pl e now)
  show ?thesis unfolding task_moved(1)
    by (rule evolves_tasks [OF _ _ _ p task_moved(2)], simp, simp, simp)
      (use task_moved(3) find_task_id [OF task_moved(2)] task_move_open [OF task_moved(4)] in simp_all)
next
  case (task_revised i row v updates previous run revision now review_id fnd task_sha max_n key act pl e)
  show ?thesis unfolding task_revised(1)
    by (rule evolves_tasks [OF _ _ _ p task_revised(2)], simp, simp, simp)
      (use task_revised(3, 4) find_task_id [OF task_revised(2)] event_version [OF task_revised(11)] in
        \<open>simp_all add: task_final_def\<close>)
next
  case (task_leased i row v revision agent mv msha fence draft digest key act pl e run_id now expires_at owner)
  show ?thesis unfolding task_leased(1)
    by (rule evolves_tasks [OF _ _ _ p task_leased(2)], simp, simp, simp)
      (use task_leased(3, 4) find_task_id [OF task_leased(2)] event_version [OF task_leased(9)] in
        \<open>auto simp: task_final_def\<close>)
next
  case (result_quarantined i row run_id run res sha key act pl e now)
  show ?thesis unfolding result_quarantined(1)
    by (rule evolves_tasks [OF _ _ _ p result_quarantined(2)], simp, simp, simp)
      (use result_quarantined(3) find_task_id [OF result_quarantined(2)] event_version [OF result_quarantined(9)] in
        \<open>simp_all add: task_final_def\<close>)
next
  case (result_recorded i row v run_id run res sha st completed rst pl key act e now)
  show ?thesis unfolding result_recorded(1)
    by (rule evolves_tasks [OF _ _ _ p result_recorded(2)], simp, simp, simp)
      (use result_recorded(3, 4) find_task_id [OF result_recorded(2)] event_version [OF result_recorded(13)] in
        \<open>simp_all add: task_final_def\<close>)
next
  case action_prepared
  then show ?thesis by (simp add: evolves_def rows_evolve_refl rows_evolve_append)
next
  case (action_moved i row v st details rcd now h prov key act pl e)
  show ?thesis unfolding action_moved(1)
    by (rule evolves_actions [OF _ _ _ p action_moved(2)], simp, simp, simp)
      (use action_moved(3) find_ids(2) [OF action_moved(2)] action_move_open [OF action_moved(4)]
        event_version [OF action_moved(8)] in simp_all)
next
  case (task_escalated a tid row key act pl e now)
  show ?thesis unfolding task_escalated(1)
    by (rule evolves_tasks [OF _ _ _ p task_escalated(4)], simp, simp, simp)
      (use task_escalated(5) find_task_id [OF task_escalated(4)] in \<open>simp_all add: task_final_def task_terminal_def\<close>)
qed

interpretation evolution: service_order E projections_ok evolves for E
proof
  show "evolves d d" for d by (simp add: evolves_def rows_evolve_refl)
  show "evolves d d1 \<Longrightarrow> evolves d1 d2 \<Longrightarrow> evolves d d2" for d d1 d2
    unfolding evolves_def using rows_evolve_trans by metis
qed (simp_all add: evolves_step, simp add: evolves_def)

end
