(* ===== verification/Sample.thy ===== *)
theory Sample
  imports Reach
begin

text \<open>
  A store at work: the requests that create an objective and a task, make the task ready, lease it and start
  its run, evaluated one after the other. The theorems about reachable
  stores are applied to the databases of this run.
\<close>

section \<open>The environment\<close>

definition noon :: datetime where
  "noon = \<lparr>dt_year = 2026, dt_month = 1, dt_day = 1, dt_hour = 12, dt_minute = 0, dt_second = 0, dt_micro = 0\<rparr>"

definition evening :: datetime where
  "evening = noon\<lparr>dt_hour := 18\<rparr>"

definition noon_text :: string where
  "noon_text = format_time noon"

definition evening_text :: string where
  "evening_text = format_time evening"

definition serial :: "nat \<Rightarrow> string" where
  "serial k = uuid7 (push_bit 44 k, 0, 0)"

text \<open>The \<open>k\<close>-th request is served at noon, with entropy of its own; what it reads late it reads from the entropy of the next.\<close>

definition at_step :: "nat \<Rightarrow> env" where
  "at_step k = sample_env\<lparr>clock := (\<lambda>n. noon), entropy := (\<lambda>n. (push_bit 44 (if n < 7 then k else Suc k), 0, 0))\<rparr>"

lemma uuid7_first:
  assumes "k < 16"
  shows "hd (uuid7 (push_bit 44 k, 0, 0)) = hex_char k"
proof -
  have "drop_bit 124 (uuid7_int (push_bit 44 k) 0 0) = drop_bit 44 (take_bit 48 (push_bit 44 k))"
    by (simp add: uuid7_int_def drop_bit_push_bit)
  also have "\<dots> = take_bit 4 k" by (simp add: take_bit_push_bit drop_bit_push_bit drop_bit_take_bit)
  finally have "uuid7_int (push_bit 44 k) 0 0 div 16 ^ 31 = k"
    using assms by (simp add: drop_bit_eq_div take_bit_eq_mod)
  then have "hex_pad 32 (uuid7_int (push_bit 44 k) 0 0) ! 0 = hex_char k"
    using assms by (subst hex_pad_nth) simp_all
  moreover have "hex_pad 32 n \<noteq> []" for n by (metis length_hex_pad list.size(3) zero_neq_numeral)
  ultimately show ?thesis by (simp add: uuid7_def uuid_text_def Let_def hd_conv_nth nth_append)
qed

lemma serial_inj: "k < 16 \<Longrightarrow> j < 16 \<Longrightarrow> serial k = serial j \<longleftrightarrow> k = j"
proof -
  assume k: "k < 16" "j < 16"
  have "hex_char k = hex_char j \<Longrightarrow> k = j"
    using k hex_char_values by (auto simp: hex_char_def nth_eq_iff_index_eq split: if_splits)
  then show ?thesis using uuid7_first [of k] uuid7_first [of j] k unfolding serial_def by metis
qed

lemma at_step_simps [simp]:
  "fault_hook (at_step k) n b = False" "sha256 (at_step k) v = zero_sha256" "writer_id (at_step k) = ''w''"
  "uuid7 (entropy (at_step k) n) = serial (if n < 7 then k else Suc k)" "fence_token (at_step k) n = ''fence''"
  "format_time (clock (at_step k) n) = noon_text" "verify_pragmas (at_step k) = Inr ()"
  by (simp_all add: at_step_def sample_env_def verify_pragmas_def noon_text_def serial_def)

lemma at_step_valid [simp]:
  assumes "name \<in> set (map fst (documents sample_env))"
  shows "validate_named (stack_depth (at_step k)) (documents (at_step k)) v name = Inr ()"
  using sample_validate [OF assms] by (simp add: at_step_def)

lemma times [simp]: "parse_time noon_text = Inr noon" "parse_time evening_text = Inr evening" "dt_le evening noon = False"
  by (simp_all add: noon_text_def evening_text_def parse_format_time noon_def evening_def valid_datetime_def days_in_month_def leap_year_def
      dt_le_def dt_key_def)

lemma length_zero [simp]: "length zero_sha256 = 64"
  by (simp add: zero_sha256_def)

section \<open>Rows of the run\<close>

definition sample_row :: "nat \<Rightarrow> string \<Rightarrow> string \<Rightarrow> string \<Rightarrow> string \<Rightarrow> int \<Rightarrow> string dict \<Rightarrow> string \<Rightarrow> event_row" where
  "sample_row n key kind i ty v p sens = \<lparr>ev_database_sequence = int n, ev_event_id = ''evt_'' @ serial n,
     ev_aggregate_type = kind, ev_aggregate_id = i, ev_event_type = ty, ev_aggregate_version = v, ev_aggregate_sequence = v,
     ev_writer_id = ''w'', ev_writer_sequence = int n, ev_actor = ''a'', ev_occurred_at = noon_text, ev_recorded_at = noon_text,
     ev_idempotency_key = key, ev_prior_event_sha256 = zero_sha256, ev_payload_sha256 = zero_sha256,
     ev_payload = norm (JObj p), ev_event_sha256 = zero_sha256, ev_sensitivity = sens\<rparr>"

definition log_row :: "event_row \<Rightarrow> db \<Rightarrow> db" where
  "log_row e d = d\<lparr>global_sequence := ev_database_sequence e, writer_sequences := [(''w'', ev_database_sequence e)],
     events := events d @ [e]\<rparr>"

definition record_call :: "string \<Rightarrow> json \<Rightarrow> db \<Rightarrow> db" where
  "record_call key res d = d\<lparr>command_dedup := command_dedup d @ [\<lparr>dd_key = key, dd_command_sha256 = zero_sha256,
       dd_result = norm res, dd_committed_at = noon_text\<rparr>]\<rparr>"

text \<open>The log of a database after \<open>n\<close> requests: the rows are numbered, and the latest row of an aggregate has its version.\<close>

definition numbered :: "nat \<Rightarrow> db \<Rightarrow> bool" where
  "numbered n d \<longleftrightarrow> writer_sequences d = [(''w'', int n)] \<and> global_sequence d = int n \<and>
     (\<forall>q \<in> set (events d). (\<exists>j. 1 \<le> j \<and> j \<le> n \<and> ev_database_sequence q = int j \<and> ev_writer_sequence q = int j \<and>
         ev_event_id q = ''evt_'' @ serial j) \<and>
       ev_aggregate_sequence q = ev_aggregate_version q \<and> 1 \<le> ev_aggregate_version q \<and> ev_event_sha256 q = zero_sha256)"

lemma sample_row_simps [simp]:
  "ev_database_sequence (sample_row n key kind i ty v p sens) = int n" "ev_aggregate_id (sample_row n key kind i ty v p sens) = i"
  "ev_aggregate_version (sample_row n key kind i ty v p sens) = v" "ev_aggregate_sequence (sample_row n key kind i ty v p sens) = v"
  "ev_idempotency_key (sample_row n key kind i ty v p sens) = key"
  by (simp_all add: sample_row_def)

lemma marker_of_sample: "marker_of (sample_row n key kind i ty v p sens) =
    \<lparr>mk_event_id = ''evt_'' @ serial n, mk_event_sha256 = zero_sha256, mk_database_sequence = int n, mk_aggregate_version = v\<rparr>"
  by (simp add: marker_of_def sample_row_def)

text \<open>What \<open>append_event\<close> does in the run.\<close>

lemma append_sample_row:
  fixes key :: string and k :: nat
  assumes num: "numbered n (tx_db s)" and n: "Suc n < 16" "Suc n = (if tick s < 6 then k else Suc k)" and a: "payload a = JObj p" "plain (JObj p)"
      "occurred_at a = None" "sensitivity a \<in> {''internal'', ''confidential''}"
    and v: "aggregate_version a = (case latest_event (tx_db s) (aggregate_id a) of None \<Rightarrow> 0 | Some q \<Rightarrow> ev_aggregate_version q) + 1"
      "aggregate_version a \<le> 99"
  defines "e \<equiv> sample_row (Suc n) key (aggregate_type a) (aggregate_id a) (event_type a) (aggregate_version a) p (sensitivity a)
    \<lparr>ev_actor := actor a\<rparr>"
  shows "append_event (at_step k) key a s = Inr (marker_of e, \<lparr>tx_db = log_row e (tx_db s), tick = tick s + 3\<rparr>)"
proof -
  have q: "ev_aggregate_sequence q = ev_aggregate_version q" "ev_event_sha256 q = zero_sha256" "1 \<le> ev_aggregate_version q"
    if "latest_event (tx_db s) i = Some q" for i q
    using num max_row_Some [OF that [unfolded latest_event_def]] by (auto simp: numbered_def)
  have pos: "1 \<le> aggregate_version a" using v(1) by (auto split: option.splits dest!: q(3))
  moreover have free: "ev_database_sequence q \<noteq> 1 + int n \<and> ev_event_id q \<noteq> ''evt_'' @ serial (Suc n) \<and> ev_writer_sequence q \<noteq> 1 + int n"
    if "q \<in> set (events (tx_db s))" for q
    using num that n(1) serial_inj by (fastforce simp: numbered_def)
  moreover have "\<not> (ev_aggregate_id q = aggregate_id a \<and> ev_aggregate_version q = aggregate_version a)"
    if "q \<in> set (events (tx_db s))" for q
  proof
    assume i: "ev_aggregate_id q = aggregate_id a \<and> ev_aggregate_version q = aggregate_version a"
    then have "latest_event (tx_db s) (aggregate_id a) \<noteq> None"
      using that by (auto simp: latest_event_def filter_empty_conv)
    then obtain l where l: "latest_event (tx_db s) (aggregate_id a) = Some l" by blast
    then have "ev_aggregate_sequence q \<le> ev_aggregate_sequence l"
      using that i max_row_Some [OF l [unfolded latest_event_def]] by auto
    moreover have "ev_aggregate_sequence q = ev_aggregate_version q" using num that by (auto simp: numbered_def)
    ultimately show False using i v(1) q(1) [OF l] l by simp
  qed
  moreover have "ev_aggregate_sequence q = ev_aggregate_version q" if "q \<in> set (events (tx_db s))" for q
    using num that by (auto simp: numbered_def)
  moreover have "build_event (at_step k) key a (latest_event (tx_db s) (aggregate_id a)) (1 + int n) (1 + int n) noon_text (''evt_'' @ serial (Suc n)) = Inr e"
    using a v q num n(1) pos unfolding e_def
    by (auto simp: build_event_def sha256_json_plain canonical_plain Let_def store_error_def event_from_row_def sample_row_def
      split: option.splits)
  ultimately show ?thesis
    using num n(2) a(4) v(1) pos
    by (auto simp: append_event_def tbind_def mint_def new_id_def id_prefixes_def execute_def insert_event_def sql_def fault_def
      numbered_def e_def sample_row_def log_row_def set_writer_sequence_def add.commute)
qed

lemma sample_row_actor [simp]: "(sample_row n key kind i ty v p sens)\<lparr>ev_actor := ''a''\<rparr> = sample_row n key kind i ty v p sens"
  by (simp add: sample_row_def)

lemma append_sample:
  assumes "numbered ((if tick s < 6 then k else Suc k) - 1) (tx_db s)" and "0 < k" "k < 15"
    and a: "payload a = JObj (dict_of (payload a))" "plain (payload a)" "actor a = ''a''"
      "occurred_at a = None" "sensitivity a \<in> {''internal'', ''confidential''}"
    and v: "aggregate_version a = (case latest_event (tx_db s) (aggregate_id a) of None \<Rightarrow> 0 | Some q \<Rightarrow> ev_aggregate_version q) + 1"
      "aggregate_version a \<le> 99"
  shows "append_event (at_step k) key a s = (let e = sample_row (if tick s < 6 then k else Suc k) key (aggregate_type a) (aggregate_id a) (event_type a)
      (aggregate_version a) (dict_of (payload a)) (sensitivity a)
    in Inr (marker_of e, \<lparr>tx_db = log_row e (tx_db s), tick = tick s + 3\<rparr>))"
  using assms append_sample_row [of "(if tick s < 6 then k else Suc k) - 1" s k a "dict_of (payload a)"] by (simp add: Let_def)

lemma texts_not_empty [simp]: "noon_text \<noteq> []" "evening_text \<noteq> []"
  by (simp_all add: noon_text_def evening_text_def format_time_def)

lemma numbered_start: "numbered 0 (initial_db shas version database_id ''w'')"
  by (simp add: numbered_def initial_db_def)

lemma numbered_log:
  assumes "numbered n d" and "m = Suc n" and "1 \<le> v"
  shows "numbered m (log_row (sample_row m key kind i ty v p sens) d)"
  using assms by (fastforce simp: numbered_def log_row_def sample_row_def)

lemma latest_log:
  assumes "numbered n d" and "\<forall>q. latest_event d i = Some q \<longrightarrow> ev_aggregate_version q < v"
  shows "latest_event (log_row (sample_row m key kind i ty v p sens) d) j =
    (if j = i then Some (sample_row m key kind i ty v p sens) else latest_event d j)"
proof -
  let ?own = "filter (\<lambda>r. ev_aggregate_id r = i) (events d)"
  have "ev_aggregate_sequence q < v" if "q \<in> set ?own" for q
  proof -
    have "?own \<noteq> []" using that by (metis list.set(1) empty_iff)
    then obtain l where l: "latest_event d i = Some l" by (cases "latest_event d i") (simp_all add: latest_event_def)
    have "ev_aggregate_sequence l = ev_aggregate_version l"
      using max_row_Some [OF l [unfolded latest_event_def]] assms(1) by (auto simp: numbered_def)
    then show ?thesis using max_row_Some [OF l [unfolded latest_event_def]] that assms(2) l by fastforce
  qed
  then have "max_row ev_aggregate_sequence (?own @ [sample_row m key kind i ty v p sens]) = Some (sample_row m key kind i ty v p sens)"
    by (intro max_row_snoc) simp
  then show ?thesis by (auto simp: latest_event_def log_row_def)
qed

text \<open>What a call does in the run, given what its transaction does.\<close>

definition unused :: "string \<Rightarrow> db \<Rightarrow> bool" where
  "unused key d \<longleftrightarrow> (\<forall>r \<in> set (command_dedup d). dd_key r \<noteq> key)"

lemma served_call:
  assumes op: "\<exists>n. op \<lparr>tx_db = d, tick = 2\<rparr> = Inr (res, \<lparr>tx_db = d1, tick = n\<rparr>)" and "unused key d"
    and "command_dedup d1 = command_dedup d" and "plain cmd" and "canonical res = Inr (norm res)"
  shows "run_command (at_step k) key cmd op d = (Inr res, record_call key res d1)"
proof -
  have "List.find (\<lambda>r. dd_key r = key) (command_dedup d) = None"
    using assms(2) by (simp add: unused_def find_None_iff_all)
  moreover have "\<forall>q \<in> set (command_dedup d1). dd_key q \<noteq> key" using assms(2, 3) by (simp add: unused_def)
  ultimately show ?thesis using op assms(4, 5)
    by (auto simp: run_command_def command_def sha256_json_plain command_body_def tbind_def fault_def execute_def insert_dedup_def
      sql_def record_call_def numeral_2_eq_2)
qed

lemma record_call_simps [simp]:
  "numbered n (record_call key res d) = numbered n d" "latest_event (record_call key res d) i = latest_event d i"
  "unused j (record_call key res d) \<longleftrightarrow> unused j d \<and> j \<noteq> key"
  "tasks (record_call key res d) = tasks d" "runs (record_call key res d) = runs d" "actions (record_call key res d) = actions d"
  "objectives (record_call key res d) = objectives d" "task_revisions (record_call key res d) = task_revisions d"
  "objective_revisions (record_call key res d) = objective_revisions d" "events (record_call key res d) = events d"
  "migrations (record_call key res d) = migrations d"
  by (auto simp: record_call_def numbered_def latest_event_def unused_def)

lemma table_update_simps [simp]:
  "numbered n (d\<lparr>tasks := x\<rparr>) = numbered n d" "latest_event (d\<lparr>tasks := x\<rparr>) i = latest_event d i"
  "numbered n (d\<lparr>runs := x2\<rparr>) = numbered n d" "latest_event (d\<lparr>runs := x2\<rparr>) i = latest_event d i"
  "numbered n (d\<lparr>actions := x3\<rparr>) = numbered n d" "latest_event (d\<lparr>actions := x3\<rparr>) i = latest_event d i"
  "numbered n (d\<lparr>objectives := x4\<rparr>) = numbered n d" "latest_event (d\<lparr>objectives := x4\<rparr>) i = latest_event d i"
  "numbered n (d\<lparr>task_revisions := x5\<rparr>) = numbered n d" "latest_event (d\<lparr>task_revisions := x5\<rparr>) i = latest_event d i"
  "numbered n (d\<lparr>objective_revisions := x6\<rparr>) = numbered n d"
  "latest_event (d\<lparr>objective_revisions := x6\<rparr>) i = latest_event d i"
  "unused j (d\<lparr>tasks := x\<rparr>) = unused j d" "unused j (d\<lparr>runs := x2\<rparr>) = unused j d"
  "unused j (d\<lparr>actions := x3\<rparr>) = unused j d" "unused j (d\<lparr>objectives := x4\<rparr>) = unused j d"
  "unused j (d\<lparr>task_revisions := x5\<rparr>) = unused j d" "unused j (d\<lparr>objective_revisions := x6\<rparr>) = unused j d"
  by (simp_all add: numbered_def latest_event_def unused_def)

lemma log_row_simps [simp]:
  "unused j (log_row e d) = unused j d" "command_dedup (log_row e d) = command_dedup d"
  "tasks (log_row e d) = tasks d" "runs (log_row e d) = runs d" "actions (log_row e d) = actions d"
  "objectives (log_row e d) = objectives d" "task_revisions (log_row e d) = task_revisions d"
  "objective_revisions (log_row e d) = objective_revisions d" "events (log_row e d) = events d @ [e]"
  "migrations (log_row e d) = migrations d"
  by (simp_all add: log_row_def unused_def)

lemma map_of_dict_norm [simp]: "map_of (dict_of (norm (JObj d))) k = map_option norm (map_of d k)"
  using get_norm [of d k] by (cases "norm (JObj d)") (simp_all add: get_def dict_of_def norm_JObj)

lemmas step_simps = tbind_def mint_def new_id_def id_prefixes_def sha256_json_plain canonical_plain Let_def execute_def sql_def fault_def
  projection_updated_def append_sample
  validate_def expect_version_def current_version_def aggregate_versions_def
  required_def dict_has_def get_or_def pick_def dict_item_def get_default_def truthy_def
  digest_profile_def dict_without_def bind_text_def bind_int_def lossless_int_def key_text_def found_def
  insert_objective_revision_def objective_revision_check_def insert_objective_def objective_check_def
  insert_task_revision_def task_revision_check_def insert_task_def task_check_def update_task_def
  insert_run_def run_check_def update_run_def insert_action_def action_check_def update_action_def
  marker_check_def marker_of_sample
  find_objective_def find_task_def find_run_def find_action_def find_task_revision_def
  objective_row_def task_row_def run_row_def action_row_def task_revision_def

text \<open>The record of a task of the run, whose revision names no review.\<close>

definition sample_task :: "task_row \<Rightarrow> string dict" where
  "sample_task t = task_record t []"

section \<open>The run\<close>

definition db0 :: db where
  "db0 = initial_db [''1'', ''2'', ''3'', ''4''] ''v'' ''d'' ''w''"

lemma db0_simps [simp]: "numbered 0 db0" "latest_event db0 i = None" "unused j db0"
  "tasks db0 = []" "runs db0 = []" "actions db0 = []" "objectives db0 = []" "task_revisions db0 = []" "objective_revisions db0 = []"
  "events db0 = []"
  by (simp_all add: db0_def numbered_start) (simp_all add: initial_db_def unused_def latest_event_def)

definition request1 :: request where
  "request1 = CreateObjective ((''objective_id'', JStr ''o'') # map (\<lambda>k. (k, JNull)) create_objective_required) ''a'' ''k1''"

definition objective1 :: "string dict" where
  "objective1 = [(''schema_version'', JStr ''city2.objective/v1''), (''objective_id'', JStr ''o''),
     (''aggregate_version'', JInt 1), (''objective_revision'', JInt 1), (''objective_sha256'', JStr zero_sha256),
     (''title'', JNull), (''intent'', JNull), (''created_by'', JStr ''a''), (''accountable_owner'', JNull),
     (''created_at'', JStr noon_text), (''review_at'', JNull), (''measurable_outcomes'', JNull), (''stop_conditions'', JNull),
     (''authority_ceiling'', JNull), (''budget'', JNull), (''status'', JStr ''proposed'')]"

definition event1 :: event_row where
  "event1 = sample_row 1 ''k1'' ''objective'' ''o'' ''objective.created'' 1 [(''objective'', JObj objective1)] ''internal''"

lemma event1_simps [simp]: "ev_aggregate_version event1 = 1" "ev_aggregate_id event1 = ''o''"
  "marker_of event1 = \<lparr>mk_event_id = ''evt_'' @ serial 1, mk_event_sha256 = zero_sha256, mk_database_sequence = 1,
     mk_aggregate_version = 1\<rparr>"
  by (simp_all add: event1_def marker_of_sample)

definition served1 :: db where
  "served1 = (log_row event1 db0)
     \<lparr>objective_revisions := [\<lparr>or_objective_id = ''o'', or_revision = 1, or_sha256 = zero_sha256,
        or_record = norm (JObj objective1), or_created_at = noon_text\<rparr>],
      objectives := [\<lparr>o_objective_id = ''o'', o_marker = marker_of event1, o_revision = 1, o_sha256 = zero_sha256,
        o_status = Proposed, o_record = norm (JObj objective1), o_updated_at = noon_text\<rparr>]\<rparr>"

definition db1 :: db where
  "db1 = record_call ''k1'' (JObj objective1) served1"

lemma run1: "perform (at_step 1) request1 db0 = (Inr (JObj objective1), db1)"
proof -
  have op: "\<exists>n. create_objective_op (at_step 1) ''k1'' ((''objective_id'', JStr ''o'') # map (\<lambda>k. (k, JNull)) create_objective_required) ''a''
      \<lparr>tx_db = db0, tick = 2\<rparr> = Inr (JObj objective1, \<lparr>tx_db = served1, tick = n\<rparr>)"
    by (simp add: step_simps create_objective_op_def create_objective_required_def objective_record_def objective_profile_excluded_def objective1_def event1_def served1_def)
  have "canonical (JObj objective1) = Inr (norm (JObj objective1))"
    by (rule canonical_plain) (simp add: objective1_def)
  then show ?thesis unfolding db1_def request1_def perform.simps
    using served_call [where op = "create_objective_op (at_step 1) ''k1'' ((''objective_id'', JStr ''o'') # map (\<lambda>k. (k, JNull)) create_objective_required) ''a''", OF op] by (simp add: served1_def checked_def create_objective_def required_def create_objective_required_def dict_has_def sha256_json_plain)
qed

lemma db1_simps [simp]:
  "numbered (Suc 0) db1"
  "latest_event db1 i = (if i = ''o'' then Some event1 else None)"
  "unused j db1 \<longleftrightarrow> j \<noteq> ''k1''"
  "tasks db1 = []"
  "runs db1 = []"
  "actions db1 = []"
  "objective_revisions db1 = [\<lparr>or_objective_id = ''o'', or_revision = 1, or_sha256 = zero_sha256,
     or_record = norm (JObj objective1), or_created_at = noon_text\<rparr>]"
  "objectives db1 = [\<lparr>o_objective_id = ''o'', o_marker = marker_of event1, o_revision = 1, o_sha256 = zero_sha256,
     o_status = Proposed, o_record = norm (JObj objective1), o_updated_at = noon_text\<rparr>]"
  "task_revisions db1 = []"
  "events db1 = [event1]" "migrations db1 = migrations db0"
  by (auto simp: db1_def served1_def event1_def numbered_log [of "0"] latest_log [of "0"])



definition request2 :: request where
  "request2 = CreateTask ([(''objective_id'', JStr ''o''), (''task_id'', JStr ''t''), (''max_attempts'', JInt 2)] @
     map (\<lambda>k. (k, JNull)) (filter (\<lambda>k. k \<notin> {''objective_id'', ''max_attempts''}) create_task_required)) ''a'' ''k2''"

definition revision2 :: "string dict" where
  "revision2 = [(''task_id'', JStr ''t''), (''task_revision'', JInt 1), (''objective_id'', JStr ''o''),
     (''objective_revision'', JInt 1), (''objective_sha256'', JStr zero_sha256), (''task_type'', JNull), (''title'', JNull),
     (''intent'', JNull), (''created_by'', JStr ''a''), (''requested_role'', JNull), (''authority_class'', JNull),
     (''inputs'', JNull), (''constraints'', JNull), (''acceptance_criteria'', JNull), (''memory_scopes'', JNull),
     (''time_budget_seconds'', JNull), (''max_attempts'', JInt 2), (''task_dedupe_key'', JNull), (''created_at'', JStr noon_text)]"

definition event2 :: event_row where
  "event2 = sample_row 2 ''k2'' ''task'' ''t'' ''task.created'' 1
     [(''task_revision'', JObj revision2), (''state'', JStr ''proposed'')] ''internal''"

definition task2 :: task_row where
  "task2 = \<lparr>t_task_id = ''t'', t_marker = marker_of event2, t_revision = 1, t_sha256 = zero_sha256,
     t_objective_id = ''o'', t_objective_revision = 1, t_objective_sha256 = zero_sha256, t_state = TProposed,
     t_attempt_count = 0, t_max_attempts = 2, t_current_run_id = None, t_lease_owner = None,
     t_lease_fencing_token = None, t_lease_expires_at = None, t_created_at = noon_text, t_updated_at = noon_text\<rparr>"

definition result2 :: "string dict" where
  "result2 = [(''schema_version'', JStr ''city2.task-record/v1''), (''task_id'', JStr ''t''), (''task_revision'', JInt 1),
     (''task_envelope_sha256'', JStr zero_sha256), (''objective_id'', JStr ''o''), (''objective_revision'', JInt 1),
     (''objective_sha256'', JStr zero_sha256), (''aggregate_version'', JInt 1), (''state'', JStr ''proposed''),
     (''attempt_count'', JInt 0), (''max_attempts'', JInt 2), (''created_at'', JStr noon_text), (''updated_at'', JStr noon_text)]"

lemma event2_simps [simp]: "ev_aggregate_version event2 = 1" "ev_aggregate_id event2 = ''t''"
  "marker_of event2 = \<lparr>mk_event_id = ''evt_'' @ serial 2, mk_event_sha256 = zero_sha256, mk_database_sequence = 2,
     mk_aggregate_version = 1\<rparr>"
  by (simp_all add: event2_def marker_of_sample)

definition served2 :: db where
  "served2 = (log_row event2 db1)
     \<lparr>task_revisions := [\<lparr>tr_task_id = ''t'', tr_revision = 1, tr_sha256 = zero_sha256, tr_record = norm (JObj revision2),
        tr_created_at = noon_text\<rparr>],
      tasks := [task2]\<rparr>"

definition db2 :: db where
  "db2 = record_call ''k2'' (JObj result2) served2"

lemma run2: "perform (at_step 2) request2 db1 = (Inr (JObj result2), db2)"
proof -
  have op: "\<exists>n. create_task_op (at_step 2) ''k2'' ([(''objective_id'', JStr ''o''), (''task_id'', JStr ''t''), (''max_attempts'', JInt 2)] @
     map (\<lambda>k. (k, JNull)) (filter (\<lambda>k. k \<notin> {''objective_id'', ''max_attempts''}) create_task_required)) ''a''
      \<lparr>tx_db = db1, tick = 2\<rparr> = Inr (JObj result2, \<lparr>tx_db = served2, tick = n\<rparr>)"
    by (simp add: step_simps create_task_op_def create_task_required_def task_revision_record_def new_task_record_def revision2_def result2_def task2_def event2_def served2_def)
  have "canonical (JObj result2) = Inr (norm (JObj result2))"
    by (rule canonical_plain) (simp add: result2_def)
  then show ?thesis unfolding db2_def request2_def perform.simps
    using served_call [where op = "create_task_op (at_step 2) ''k2'' ([(''objective_id'', JStr ''o''), (''task_id'', JStr ''t''), (''max_attempts'', JInt 2)] @
     map (\<lambda>k. (k, JNull)) (filter (\<lambda>k. k \<notin> {''objective_id'', ''max_attempts''}) create_task_required)) ''a''", OF op] by (simp add: served2_def checked_def create_task_def required_def create_task_required_def dict_has_def sha256_json_plain)
qed

lemma db2_simps [simp]:
  "numbered 2 db2"
  "latest_event db2 i = (if i = ''t'' then Some event2 else if i = ''o'' then Some event1 else None)"
  "unused j db2 \<longleftrightarrow> j \<noteq> ''k1'' \<and> j \<noteq> ''k2''"
  "tasks db2 = [task2]"
  "runs db2 = []"
  "actions db2 = []"
  "objective_revisions db2 = [\<lparr>or_objective_id = ''o'', or_revision = 1, or_sha256 = zero_sha256,
     or_record = norm (JObj objective1), or_created_at = noon_text\<rparr>]"
  "objectives db2 = [\<lparr>o_objective_id = ''o'', o_marker = marker_of event1, o_revision = 1, o_sha256 = zero_sha256,
     o_status = Proposed, o_record = norm (JObj objective1), o_updated_at = noon_text\<rparr>]"
  "task_revisions db2 = [\<lparr>tr_task_id = ''t'', tr_revision = 1, tr_sha256 = zero_sha256, tr_record = norm (JObj revision2),
     tr_created_at = noon_text\<rparr>]"
  "events db2 = [event1, event2]" "migrations db2 = migrations db0"
  by (auto simp: db2_def served2_def event2_def numbered_log [of "Suc 0"] latest_log [of "Suc 0"])



definition request3 :: request where
  "request3 = SetTaskReady ''t'' 1 ''a'' ''k3''"

definition event3 :: event_row where
  "event3 = sample_row 3 ''k3'' ''task'' ''t'' ''task.ready'' 2 [(''from'', JStr ''proposed''), (''to'', JStr ''ready'')] ''internal''"

definition task3 :: task_row where
  "task3 = task2\<lparr>t_marker := marker_of event3, t_state := TReady\<rparr>"

lemma event3_simps [simp]: "ev_aggregate_version event3 = 2" "ev_aggregate_id event3 = ''t''"
  "marker_of event3 = \<lparr>mk_event_id = ''evt_'' @ serial 3, mk_event_sha256 = zero_sha256, mk_database_sequence = 3,
     mk_aggregate_version = 2\<rparr>"
  by (simp_all add: event3_def marker_of_sample)

definition served3 :: db where
  "served3 = (log_row event3 db2)\<lparr>tasks := [task3]\<rparr>"

definition db3 :: db where
  "db3 = record_call ''k3'' (JObj (sample_task task3)) served3"

lemma run3: "perform (at_step 3) request3 db2 = (Inr (JObj (sample_task task3)), db3)"
proof -
  have op: "\<exists>n. simple_task_transition_op (at_step 3) ''k3'' ''t'' TReady {TProposed, TAwaitingApproval, TExpired} 1 ''a''
      \<lparr>tx_db = db2, tick = 2\<rparr> = Inr (JObj (sample_task task3), \<lparr>tx_db = served3, tick = n\<rparr>)"
    by (simp add: step_simps simple_task_transition_op_def transition_in_tx_def move_task_def get_task_def revision2_def task3_def task2_def sample_task_def task_record_def text_set_def text_of_def event3_def served3_def)
  have "canonical (JObj (sample_task task3)) = Inr (norm (JObj (sample_task task3)))"
    by (rule canonical_plain) (simp add: sample_task_def task_record_def task3_def task2_def event3_def marker_of_sample text_set_def text_of_def)
  then show ?thesis unfolding db3_def request3_def perform.simps
    using served_call [where op = "simple_task_transition_op (at_step 3) ''k3'' ''t'' TReady {TProposed, TAwaitingApproval, TExpired} 1 ''a''", OF op] by (simp add: served3_def checked_def set_task_ready_def simple_task_transition_def sha256_json_plain)
qed

lemma db3_simps [simp]:
  "numbered 3 db3"
  "latest_event db3 i = (if i = ''t'' then Some event3 else if i = ''o'' then Some event1 else None)"
  "unused j db3 \<longleftrightarrow> j \<noteq> ''k1'' \<and> j \<noteq> ''k2'' \<and> j \<noteq> ''k3''"
  "tasks db3 = [task3]"
  "runs db3 = []"
  "actions db3 = []"
  "objective_revisions db3 = [\<lparr>or_objective_id = ''o'', or_revision = 1, or_sha256 = zero_sha256,
     or_record = norm (JObj objective1), or_created_at = noon_text\<rparr>]"
  "objectives db3 = [\<lparr>o_objective_id = ''o'', o_marker = marker_of event1, o_revision = 1, o_sha256 = zero_sha256,
     o_status = Proposed, o_record = norm (JObj objective1), o_updated_at = noon_text\<rparr>]"
  "task_revisions db3 = [\<lparr>tr_task_id = ''t'', tr_revision = 1, tr_sha256 = zero_sha256, tr_record = norm (JObj revision2),
     tr_created_at = noon_text\<rparr>]"
  "events db3 = [event1, event2, event3]" "migrations db3 = migrations db0"
  by (auto simp: db3_def served3_def event3_def numbered_log [of "2"] latest_log [of "2"])



definition run_id :: string where
  "run_id = ''run_'' @ serial 4"

definition request4 :: request where
  "request4 = LeaseTask ''t'' 2 ''worker'' evening_text ''agent'' 1 zero_sha256 ''a'' ''k4''"

definition envelope4 :: "string dict" where
  "envelope4 = [(''schema_version'', JStr ''city2.task/v1''), (''task_id'', JStr ''t''), (''task_revision'', JInt 1),
     (''task_envelope_sha256'', JStr zero_sha256), (''objective_id'', JStr ''o''), (''objective_revision'', JInt 1),
     (''objective_sha256'', JStr zero_sha256), (''task_type'', JNull), (''title'', JNull), (''intent'', JNull),
     (''created_by'', JStr ''a''), (''requested_role'', JNull), (''resolved_agent_id'', JStr ''agent''),
     (''resolved_manifest_version'', JInt 1), (''resolved_manifest_sha256'', JStr zero_sha256), (''attempt_number'', JInt 1),
     (''expected_task_version'', JInt 3), (''lease_fencing_token'', JStr ''fence''), (''authority_class'', JNull),
     (''inputs'', JNull), (''constraints'', JNull), (''acceptance_criteria'', JNull), (''memory_scopes'', JNull),
     (''time_budget_seconds'', JNull), (''max_attempts'', JInt 2), (''task_dedupe_key'', JNull)]"

definition event4 :: event_row where
  "event4 = sample_row 4 ''k4'' ''task'' ''t'' ''task.leased'' 3
     [(''run_id'', JStr run_id), (''owner'', JStr ''worker''), (''fencing_token_sha256'', JStr zero_sha256),
      (''expires_at'', JStr evening_text), (''attempt_number'', JInt 1), (''task_envelope_sha256'', JStr zero_sha256)] ''confidential''"

definition task4 :: task_row where
  "task4 = task3\<lparr>t_marker := marker_of event4, t_state := TLeased, t_attempt_count := 1, t_current_run_id := Some run_id,
     t_lease_owner := Some ''worker'', t_lease_fencing_token := Some ''fence'', t_lease_expires_at := Some evening_text\<rparr>"

definition run4 :: run_row where
  "run4 = \<lparr>r_run_id = run_id, r_task_id = ''t'', r_task_revision = 1, r_attempt_number = 1, r_status = RLeased,
     r_envelope = norm (JObj envelope4), r_envelope_sha256 = zero_sha256, r_result = None, r_result_sha256 = None,
     r_created_at = noon_text, r_updated_at = noon_text\<rparr>"

lemma event4_simps [simp]: "ev_aggregate_version event4 = 3" "ev_aggregate_id event4 = ''t''"
  "marker_of event4 = \<lparr>mk_event_id = ''evt_'' @ serial 4, mk_event_sha256 = zero_sha256, mk_database_sequence = 4,
     mk_aggregate_version = 3\<rparr>"
  by (simp_all add: event4_def marker_of_sample)

definition served4 :: db where
  "served4 = (log_row event4 db3)\<lparr>tasks := [task4], runs := [run4]\<rparr>"

definition db4 :: db where
  "db4 = record_call ''k4'' (JObj [(''run_id'', JStr run_id), (''task'', JObj (sample_task task4)), (''task_envelope'', JObj envelope4)]) served4"

lemma run4: "perform (at_step 4) request4 db3 = (Inr (JObj [(''run_id'', JStr run_id), (''task'', JObj (sample_task task4)), (''task_envelope'', JObj envelope4)]), db4)"
proof -
  have op: "\<exists>n. lease_task_op (at_step 4) ''k4'' ''t'' 2 ''worker'' evening_text ''agent'' 1 zero_sha256 ''a''
      \<lparr>tx_db = db3, tick = 2\<rparr> = Inr (JObj [(''run_id'', JStr run_id), (''task'', JObj (sample_task task4)), (''task_envelope'', JObj envelope4)], \<lparr>tx_db = served4, tick = n\<rparr>)"
    by (simp add: step_simps lease_task_op_def task_envelope_def get_task_def revision2_def envelope4_def run4_def run_id_def task4_def task3_def task2_def sample_task_def task_record_def text_set_def text_of_def event4_def served4_def)
  have "canonical (JObj [(''run_id'', JStr run_id), (''task'', JObj (sample_task task4)), (''task_envelope'', JObj envelope4)]) = Inr (norm (JObj [(''run_id'', JStr run_id), (''task'', JObj (sample_task task4)), (''task_envelope'', JObj envelope4)]))"
    by (rule canonical_plain) (simp add: sample_task_def task_record_def task4_def task3_def task2_def event4_def marker_of_sample text_set_def text_of_def envelope4_def)
  then show ?thesis unfolding db4_def request4_def perform.simps
    using served_call [where op = "lease_task_op (at_step 4) ''k4'' ''t'' 2 ''worker'' evening_text ''agent'' 1 zero_sha256 ''a''", OF op] by (simp add: served4_def checked_def lease_task_def lease_precheck_def sha256_json_plain)
qed

lemma db4_simps [simp]:
  "numbered 4 db4"
  "latest_event db4 i = (if i = ''t'' then Some event4 else if i = ''o'' then Some event1 else None)"
  "unused j db4 \<longleftrightarrow> j \<noteq> ''k1'' \<and> j \<noteq> ''k2'' \<and> j \<noteq> ''k3'' \<and> j \<noteq> ''k4''"
  "tasks db4 = [task4]"
  "runs db4 = [run4]"
  "actions db4 = []"
  "objective_revisions db4 = [\<lparr>or_objective_id = ''o'', or_revision = 1, or_sha256 = zero_sha256,
     or_record = norm (JObj objective1), or_created_at = noon_text\<rparr>]"
  "objectives db4 = [\<lparr>o_objective_id = ''o'', o_marker = marker_of event1, o_revision = 1, o_sha256 = zero_sha256,
     o_status = Proposed, o_record = norm (JObj objective1), o_updated_at = noon_text\<rparr>]"
  "task_revisions db4 = [\<lparr>tr_task_id = ''t'', tr_revision = 1, tr_sha256 = zero_sha256, tr_record = norm (JObj revision2),
     tr_created_at = noon_text\<rparr>]"
  "events db4 = [event1, event2, event3, event4]" "migrations db4 = migrations db0"
  by (auto simp: db4_def served4_def event4_def numbered_log [of "3"] latest_log [of "3"])



definition request5 :: request where
  "request5 = StartRun ''t'' run_id ''fence'' 3 ''a'' ''k5''"

definition event5 :: event_row where
  "event5 = sample_row 5 ''k5'' ''task'' ''t'' ''task.running'' 4
     [(''from'', JStr ''leased''), (''to'', JStr ''running''), (''run_id'', JStr run_id)] ''internal''"

definition task5 :: task_row where
  "task5 = task4\<lparr>t_marker := marker_of event5, t_state := TRunning\<rparr>"

lemma event5_simps [simp]: "ev_aggregate_version event5 = 4" "ev_aggregate_id event5 = ''t''"
  "marker_of event5 = \<lparr>mk_event_id = ''evt_'' @ serial 5, mk_event_sha256 = zero_sha256, mk_database_sequence = 5,
     mk_aggregate_version = 4\<rparr>"
  by (simp_all add: event5_def marker_of_sample)

definition served5 :: db where
  "served5 = (log_row event5 db4)\<lparr>tasks := [task5], runs := [run4\<lparr>r_status := RRunning\<rparr>]\<rparr>"

definition db5 :: db where
  "db5 = record_call ''k5'' (JObj (sample_task task5)) served5"

lemma run5: "perform (at_step 5) request5 db4 = (Inr (JObj (sample_task task5)), db5)"
proof -
  have op: "\<exists>n. start_run_op (at_step 5) ''k5'' ''t'' run_id ''fence'' 3 ''a''
      \<lparr>tx_db = db4, tick = 2\<rparr> = Inr (JObj (sample_task task5), \<lparr>tx_db = served5, tick = n\<rparr>)"
    by (simp add: step_simps start_run_op_def require_current_lease_def transition_in_tx_def move_task_def get_task_def revision2_def run4_def run_id_def task5_def task4_def task3_def task2_def sample_task_def task_record_def text_set_def text_of_def event5_def served5_def)
  have "canonical (JObj (sample_task task5)) = Inr (norm (JObj (sample_task task5)))"
    by (rule canonical_plain) (simp add: sample_task_def task_record_def task5_def task4_def task3_def task2_def event5_def marker_of_sample text_set_def text_of_def)
  then show ?thesis unfolding db5_def request5_def perform.simps
    using served_call [where op = "start_run_op (at_step 5) ''k5'' ''t'' run_id ''fence'' 3 ''a''", OF op] by (simp add: served5_def checked_def start_run_def sha256_json_plain)
qed

lemma db5_simps [simp]:
  "numbered 5 db5"
  "latest_event db5 i = (if i = ''t'' then Some event5 else if i = ''o'' then Some event1 else None)"
  "unused j db5 \<longleftrightarrow> j \<noteq> ''k1'' \<and> j \<noteq> ''k2'' \<and> j \<noteq> ''k3'' \<and> j \<noteq> ''k4'' \<and> j \<noteq> ''k5''"
  "tasks db5 = [task5]"
  "runs db5 = [run4\<lparr>r_status := RRunning\<rparr>]"
  "actions db5 = []"
  "objective_revisions db5 = [\<lparr>or_objective_id = ''o'', or_revision = 1, or_sha256 = zero_sha256,
     or_record = norm (JObj objective1), or_created_at = noon_text\<rparr>]"
  "objectives db5 = [\<lparr>o_objective_id = ''o'', o_marker = marker_of event1, o_revision = 1, o_sha256 = zero_sha256,
     o_status = Proposed, o_record = norm (JObj objective1), o_updated_at = noon_text\<rparr>]"
  "task_revisions db5 = [\<lparr>tr_task_id = ''t'', tr_revision = 1, tr_sha256 = zero_sha256, tr_record = norm (JObj revision2),
     tr_created_at = noon_text\<rparr>]"
  "events db5 = [event1, event2, event3, event4, event5]" "migrations db5 = migrations db0"
  by (auto simp: db5_def served5_def event5_def numbered_log [of "4"] latest_log [of "4"])

end
