(* ===== verification/SampleActions.thy ===== *)
theory SampleActions
  imports Sample
begin

text \<open>
  The run of \<open>Sample\<close> continued: the running task prepares an action, dispatches it, learns that it was
  confirmed, and compensates it. Every database of the run is reachable.
\<close>

section \<open>The action\<close>

definition fields6 :: "string dict" where
  "fields6 = [(''task_id'', JStr ''t''), (''run_id'', JStr run_id), (''capability'', JNull), (''target'', JNull),
     (''provider'', JNull), (''canonical_parameters'', JNull), (''approval_id'', JNull), (''approval_sha256'', JNull),
     (''operation_idempotency_key'', JStr ''op''), (''action_id'', JStr ''x'')]"

lemma fields6_names:
  "\<forall>k \<in> set (map fst fields6). re_search secret_key_pattern k = Inr False"
  unfolding fields6_def list.map fst_conv list.set ball_simps
  by (intro conjI TrueI; code_simp)

lemma plain_fields: "\<forall>kv \<in> set d. re_search secret_key_pattern (fst kv) = Inr False \<and> reject_secret_keys (snd kv) = Inr () \<Longrightarrow>
    reject_secret_keys (JObj d) = Inr ()"
  unfolding reject_secret_keys.simps by (induction d) auto

lemma fields6_checked:
  "bindE (required fields6 prepare_required) (\<lambda>_. reject_secret_keys (JObj fields6)) = Inr ()"
proof -
  have "\<forall>kv \<in> set fields6. reject_secret_keys (snd kv) = Inr ()" by (simp add: fields6_def)
  then have "reject_secret_keys (JObj fields6) = Inr ()" using fields6_names by (intro plain_fields) auto
  then show ?thesis by (simp add: required_def prepare_required_def dict_has_def fields6_def del: reject_secret_keys.simps)
qed

definition request6 :: request where
  "request6 = PrepareAction fields6 ''fence'' ''a'' ''k6''"

definition action6 :: "string dict" where
  "action6 = [(''schema_version'', JStr ''city2.action/v1''), (''action_id'', JStr ''x''), (''aggregate_version'', JInt 1),
     (''task_id'', JStr ''t''), (''task_revision'', JInt 1), (''run_id'', JStr run_id), (''capability'', JNull),
     (''target'', JNull), (''provider'', JNull), (''canonical_parameters'', JNull), (''parameters_sha256'', JStr zero_sha256),
     (''approval_id'', JNull), (''approval_sha256'', JNull), (''operation_idempotency_key'', JStr ''op''),
     (''state'', JStr ''prepared''), (''prepared_at'', JStr noon_text), (''updated_at'', JStr noon_text)]"

definition event6 :: event_row where
  "event6 = sample_row 6 ''k6'' ''action'' ''x'' ''action.prepared'' 1 [(''action'', JObj action6)] ''confidential''"

definition row6 :: action_row where
  "row6 = \<lparr>a_action_id = ''x'', a_marker = marker_of event6, a_task_id = ''t'', a_task_revision = 1, a_run_id = run_id,
     a_operation_key = ''op'', a_state = APrepared, a_record = norm (JObj action6), a_provider_operation_id = None,
     a_provider_evidence_sha256 = None, a_created_at = noon_text, a_updated_at = noon_text\<rparr>"

lemma event6_simps [simp]: "ev_aggregate_version event6 = 1" "ev_aggregate_id event6 = ''x''"
  "marker_of event6 = \<lparr>mk_event_id = ''evt_'' @ serial 6, mk_event_sha256 = zero_sha256, mk_database_sequence = 6,
     mk_aggregate_version = 1\<rparr>"
  by (simp_all add: event6_def marker_of_sample)

definition served6 :: db where
  "served6 = (log_row event6 db5)\<lparr>actions := [row6]\<rparr>"

definition db6 :: db where
  "db6 = record_call ''k6'' (JObj action6) served6"

lemma run6: "perform (at_step 6) request6 db5 = (Inr (JObj action6), db6)"
proof -
  have op: "\<exists>n. prepare_action_op (at_step 6) ''k6'' fields6 ''fence'' ''a''
      \<lparr>tx_db = db5, tick = 2\<rparr> = Inr (JObj action6, \<lparr>tx_db = served6, tick = n\<rparr>)"
    by (simp add: step_simps prepare_action_op_def require_current_lease_def action_record_def with_compensation_def fields6_def action6_def row6_def run_id_def task5_def task4_def task3_def task2_def run4_def event6_def served6_def)
  have "canonical (JObj action6) = Inr (norm (JObj action6))"
    by (rule canonical_plain) (simp add: action6_def)
  then show ?thesis unfolding db6_def request6_def perform.simps prepare_action_def fields6_checked checked_def sum.case
    using served_call [where op = "prepare_action_op (at_step 6) ''k6'' fields6 ''fence'' ''a''", OF op] by (simp add: served6_def checked_def fields6_def sha256_json_plain)
qed

lemma db6_simps [simp]:
  "numbered 6 db6"
  "latest_event db6 i = (if i = ''x'' then Some event6 else if i = ''t'' then Some event5 else if i = ''o'' then Some event1 else None)"
  "unused j db6 \<longleftrightarrow> j \<noteq> ''k1'' \<and> j \<noteq> ''k2'' \<and> j \<noteq> ''k3'' \<and> j \<noteq> ''k4'' \<and> j \<noteq> ''k5'' \<and> j \<noteq> ''k6''"
  "tasks db6 = [task5]" "runs db6 = [run4\<lparr>r_status := RRunning\<rparr>]" "actions db6 = [row6]"
  "objective_revisions db6 = objective_revisions db1" "objectives db6 = objectives db1" "task_revisions db6 = task_revisions db2"
  "events db6 = [event1, event2, event3, event4, event5, event6]" "migrations db6 = migrations db0"
  by (auto simp: db6_def served6_def event6_def numbered_log [of 5] latest_log [of 5])

lemma plain_dict_set: "plain v \<Longrightarrow> plain (JObj d) \<Longrightarrow> plain (JObj (dict_set k v d))"
  by (induction d) auto

lemma plain_dict_merge: "plain (JObj d) \<Longrightarrow> plain (JObj e) \<Longrightarrow> plain (JObj (dict_merge d e))"
  by (induction d e rule: dict_merge.induct) (simp_all add: plain_dict_set [unfolded plain.simps])

lemma plain_dict_of: "plain v \<Longrightarrow> plain (JObj (dict_of v))"
  by (cases v) (simp_all add: dict_of_def)

lemma plain_advance_record:
  "plain (JObj d) \<Longrightarrow> plain (JObj details) \<Longrightarrow> \<bar>n\<bar> \<le> 9007199254740991 \<Longrightarrow> plain (JObj (advance_record d n st time details))"
  unfolding advance_record_def by (intro plain_dict_merge) auto

lemma canonical_norm_plain: "plain v \<Longrightarrow> canonical (norm v) = Inr (norm v)"
  by (simp add: canonical_plain plain_norm)

lemma plain6: "plain (JObj action6)"
  by (simp add: action6_def)

definition request7 :: request where
  "request7 = BeginActionDispatch ''x'' 1 ''a'' ''k7''"

definition action7 :: "string dict" where
  "action7 = advance_record (dict_of (norm (JObj action6))) 2 ADispatched noon_text []"

definition event7 :: event_row where
  "event7 = sample_row 7 ''k7'' ''action'' ''x'' ''action.dispatched'' 2
     [(''from'', JStr ''prepared''), (''to'', JStr ''dispatched'')] ''confidential''"

definition row7 :: action_row where
  "row7 = row6\<lparr>a_marker := marker_of event7, a_state := ADispatched, a_record := norm (JObj action7)\<rparr>"

lemma plain7: "plain (JObj action7)"
  unfolding action7_def by (intro plain_advance_record plain_dict_of plain_norm plain6) simp_all

lemma event7_simps [simp]: "ev_aggregate_version event7 = 2" "ev_aggregate_id event7 = ''x''"
  "marker_of event7 = \<lparr>mk_event_id = ''evt_'' @ serial 7, mk_event_sha256 = zero_sha256, mk_database_sequence = 7,
     mk_aggregate_version = 2\<rparr>"
  by (simp_all add: event7_def marker_of_sample)

definition served7 :: db where
  "served7 = (log_row event7 db6)\<lparr>actions := [row7]\<rparr>"

definition db7 :: db where
  "db7 = record_call ''k7'' (norm (JObj action7)) served7"

lemma run7: "perform (at_step 7) request7 db6 = (Inr (norm (JObj action7)), db7)"
proof -
  have op: "\<exists>n. action_transition_op (at_step 7) ''k7'' ''x'' 1 {APrepared} ADispatched ''a'' [] ''after_dispatch_recorded'' False
      \<lparr>tx_db = db6, tick = 2\<rparr> = Inr (norm (JObj action7), \<lparr>tx_db = served7, tick = n\<rparr>)"
    by (simp add: step_simps action_transition_op_def evidence_digest_def detail_text_def plain7 canonical_plain [OF plain7] action7_def [symmetric] row7_def row6_def run_id_def task5_def task4_def task3_def task2_def run4_def event7_def served7_def)
  have "canonical (norm (JObj action7)) = Inr (norm (norm (JObj action7)))"
    using canonical_norm_plain [OF plain7] by simp
  then show ?thesis unfolding db7_def request7_def perform.simps 
    using served_call [where op = "action_transition_op (at_step 7) ''k7'' ''x'' 1 {APrepared} ADispatched ''a'' [] ''after_dispatch_recorded'' False", OF op] by (simp add: served7_def checked_def begin_action_dispatch_def action_transition_def sha256_json_plain)
qed

lemma db7_simps [simp]:
  "numbered 7 db7"
  "latest_event db7 i = (if i = ''x'' then Some event7 else if i = ''t'' then Some event5 else if i = ''o'' then Some event1 else None)"
  "unused j db7 \<longleftrightarrow> j \<noteq> ''k1'' \<and> j \<noteq> ''k2'' \<and> j \<noteq> ''k3'' \<and> j \<noteq> ''k4'' \<and> j \<noteq> ''k5'' \<and> j \<noteq> ''k6'' \<and> j \<noteq> ''k7''"
  "tasks db7 = [task5]" "runs db7 = [run4\<lparr>r_status := RRunning\<rparr>]" "actions db7 = [row7]"
  "objective_revisions db7 = objective_revisions db1" "objectives db7 = objectives db1" "task_revisions db7 = task_revisions db2"
  "events db7 = [event1, event2, event3, event4, event5, event6, event7]" "migrations db7 = migrations db0"
  by (auto simp: db7_def served7_def event7_def numbered_log [of 6] latest_log [of 6])

definition receipt :: "string dict" where
  "receipt = [(''receipt'', JStr ''r'')]"

lemma plain_receipt: "list_all (\<lambda>p. plain (snd p)) receipt"
  by (simp add: receipt_def)

lemma receipt_not_empty [simp]: "receipt \<noteq> []"
  by (simp add: receipt_def)

definition request8 :: request where
  "request8 = ReconcileAction ''x'' ''confirmed'' 2 ''a'' (Some ''p'') (Some receipt) ''k8''"

definition action8 :: "string dict" where
  "action8 = advance_record (dict_of (norm (JObj action7))) 3 AConfirmed noon_text
     [(''provider_operation_id'', JStr ''p''), (''provider_evidence'', JObj receipt)]"

definition event8 :: event_row where
  "event8 = sample_row 8 ''k8'' ''action'' ''x'' ''action.confirmed'' 3
     [(''from'', JStr ''dispatched''), (''to'', JStr ''confirmed''), (''provider_operation_id'', JStr ''p''),
      (''provider_evidence'', JObj receipt)] ''confidential''"

definition row8 :: action_row where
  "row8 = row7\<lparr>a_marker := marker_of event8, a_state := AConfirmed, a_record := norm (JObj action8),
     a_provider_operation_id := Some ''p'', a_provider_evidence_sha256 := Some zero_sha256\<rparr>"

lemma plain8: "plain (JObj action8)"
  unfolding action8_def by (intro plain_advance_record plain_dict_of plain_norm plain7) (simp_all add: receipt_def)

lemma event8_simps [simp]: "ev_aggregate_version event8 = 3" "ev_aggregate_id event8 = ''x''"
  "marker_of event8 = \<lparr>mk_event_id = ''evt_'' @ serial 8, mk_event_sha256 = zero_sha256, mk_database_sequence = 8,
     mk_aggregate_version = 3\<rparr>"
  by (simp_all add: event8_def marker_of_sample)

definition served8 :: db where
  "served8 = (log_row event8 db7)\<lparr>actions := [row8]\<rparr>"

definition db8 :: db where
  "db8 = record_call ''k8'' (norm (JObj action8)) served8"

lemma run8: "perform (at_step 8) request8 db7 = (Inr (norm (JObj action8)), db8)"
proof -
  have op: "\<exists>n. action_transition_op (at_step 8) ''k8'' ''x'' 2 {ADispatched, AUnknown} AConfirmed ''a'' [(''provider_operation_id'', JStr ''p''), (''provider_evidence'', JObj receipt)] ''after_action_acknowledgement'' False
      \<lparr>tx_db = db7, tick = 2\<rparr> = Inr (norm (JObj action8), \<lparr>tx_db = served8, tick = n\<rparr>)"
    by (simp add: step_simps action_transition_op_def evidence_digest_def detail_text_def plain8 canonical_plain [OF plain8] action8_def [symmetric] plain_receipt row8_def row7_def row6_def run_id_def task5_def task4_def task3_def task2_def run4_def event8_def served8_def)
  have "canonical (norm (JObj action8)) = Inr (norm (norm (JObj action8)))"
    using canonical_norm_plain [OF plain8] by simp
  then show ?thesis unfolding db8_def request8_def perform.simps 
    using served_call [where op = "action_transition_op (at_step 8) ''k8'' ''x'' 2 {ADispatched, AUnknown} AConfirmed ''a'' [(''provider_operation_id'', JStr ''p''), (''provider_evidence'', JObj receipt)] ''after_action_acknowledgement'' False", OF op] by (simp add: served8_def checked_def reconcile_action_def reconcile_outcome_def reconcile_details_def found_def text_set_def text_of_def receipt_not_empty plain_receipt action_transition_def sha256_json_plain)
qed

lemma db8_simps [simp]:
  "numbered 8 db8"
  "latest_event db8 i = (if i = ''x'' then Some event8 else if i = ''t'' then Some event5 else if i = ''o'' then Some event1 else None)"
  "unused j db8 \<longleftrightarrow> j \<noteq> ''k1'' \<and> j \<noteq> ''k2'' \<and> j \<noteq> ''k3'' \<and> j \<noteq> ''k4'' \<and> j \<noteq> ''k5'' \<and> j \<noteq> ''k6'' \<and> j \<noteq> ''k7'' \<and> j \<noteq> ''k8''"
  "tasks db8 = [task5]" "runs db8 = [run4\<lparr>r_status := RRunning\<rparr>]" "actions db8 = [row8]"
  "objective_revisions db8 = objective_revisions db1" "objectives db8 = objectives db1" "task_revisions db8 = task_revisions db2"
  "events db8 = [event1, event2, event3, event4, event5, event6, event7, event8]" "migrations db8 = migrations db0"
  by (auto simp: db8_def served8_def event8_def numbered_log [of 7] latest_log [of 7])

definition request9 :: request where
  "request9 = ReconcileAction ''x'' ''compensated'' 3 ''a'' None None ''k9''"

definition action9 :: "string dict" where
  "action9 = advance_record (dict_of (norm (JObj action8))) 4 ACompensated noon_text []"

definition event9 :: event_row where
  "event9 = sample_row 9 ''k9'' ''action'' ''x'' ''action.compensated'' 4
     [(''from'', JStr ''confirmed''), (''to'', JStr ''compensated'')] ''confidential''"

definition row9 :: action_row where
  "row9 = row8\<lparr>a_marker := marker_of event9, a_state := ACompensated, a_record := norm (JObj action9),
     a_provider_operation_id := None, a_provider_evidence_sha256 := None\<rparr>"

lemma plain9: "plain (JObj action9)"
  unfolding action9_def by (intro plain_advance_record plain_dict_of plain_norm plain8) simp_all

lemma event9_simps [simp]: "ev_aggregate_version event9 = 4" "ev_aggregate_id event9 = ''x''"
  "marker_of event9 = \<lparr>mk_event_id = ''evt_'' @ serial 9, mk_event_sha256 = zero_sha256, mk_database_sequence = 9,
     mk_aggregate_version = 4\<rparr>"
  by (simp_all add: event9_def marker_of_sample)

definition served9 :: db where
  "served9 = (log_row event9 db8)\<lparr>actions := [row9]\<rparr>"

definition db9 :: db where
  "db9 = record_call ''k9'' (norm (JObj action9)) served9"

lemma run9: "perform (at_step 9) request9 db8 = (Inr (norm (JObj action9)), db9)"
proof -
  have op: "\<exists>n. action_transition_op (at_step 9) ''k9'' ''x'' 3 {AConfirmed} ACompensated ''a'' [] ''after_action_acknowledgement'' False
      \<lparr>tx_db = db8, tick = 2\<rparr> = Inr (norm (JObj action9), \<lparr>tx_db = served9, tick = n\<rparr>)"
    by (simp add: step_simps action_transition_op_def evidence_digest_def detail_text_def plain9 canonical_plain [OF plain9] action9_def [symmetric] row9_def row8_def row7_def row6_def run_id_def task5_def task4_def task3_def task2_def run4_def event9_def served9_def)
  have "canonical (norm (JObj action9)) = Inr (norm (norm (JObj action9)))"
    using canonical_norm_plain [OF plain9] by simp
  then show ?thesis unfolding db9_def request9_def perform.simps 
    using served_call [where op = "action_transition_op (at_step 9) ''k9'' ''x'' 3 {AConfirmed} ACompensated ''a'' [] ''after_action_acknowledgement'' False", OF op] by (simp add: served9_def checked_def reconcile_action_def reconcile_outcome_def reconcile_details_def found_def text_set_def action_transition_def sha256_json_plain)
qed

lemma db9_simps [simp]:
  "numbered 9 db9"
  "latest_event db9 i = (if i = ''x'' then Some event9 else if i = ''t'' then Some event5 else if i = ''o'' then Some event1 else None)"
  "unused j db9 \<longleftrightarrow> j \<noteq> ''k1'' \<and> j \<noteq> ''k2'' \<and> j \<noteq> ''k3'' \<and> j \<noteq> ''k4'' \<and> j \<noteq> ''k5'' \<and> j \<noteq> ''k6'' \<and> j \<noteq> ''k7'' \<and> j \<noteq> ''k8'' \<and> j \<noteq> ''k9''"
  "tasks db9 = [task5]" "runs db9 = [run4\<lparr>r_status := RRunning\<rparr>]" "actions db9 = [row9]"
  "objective_revisions db9 = objective_revisions db1" "objectives db9 = objectives db1" "task_revisions db9 = task_revisions db2"
  "events db9 = [event1, event2, event3, event4, event5, event6, event7, event8, event9]" "migrations db9 = migrations db0"
  by (auto simp: db9_def served9_def event9_def numbered_log [of 8] latest_log [of 8])

section \<open>The outcome is unknown\<close>

definition request8u :: request where
  "request8u = ReconcileAction ''x'' ''unknown'' 2 ''a'' None None ''k8''"

definition action8u :: "string dict" where
  "action8u = advance_record (dict_of (norm (JObj action7))) 3 AUnknown noon_text []"

lemma plain8u: "plain (JObj action8u)"
  unfolding action8u_def by (intro plain_advance_record plain_dict_of plain_norm plain7) simp_all

lemma branch_unknown: "\<exists>d'. reconcile_action (at_step 8) ''x'' ''unknown'' 2 ''a'' None None ''k8'' db7 = (Inr (norm (JObj action8u)), d')"
proof -
  have op: "\<exists>d1 n. command_dedup d1 = command_dedup db7 \<and>
      action_transition_op (at_step 8) ''k8'' ''x'' 2 {ADispatched} AUnknown ''a'' [] ''after_action_acknowledgement'' True
        \<lparr>tx_db = db7, tick = 2\<rparr> = Inr (norm (JObj action8u), \<lparr>tx_db = d1, tick = n\<rparr>)"
    by (simp add: step_simps action_transition_op_def evidence_digest_def detail_text_def plain8u canonical_plain [OF plain8u]
      action8u_def [symmetric] row7_def row6_def run_id_def run4_def escalate_task_def task_terminal_def numbered_log [of 7] latest_log [of 7] task5_def task4_def task3_def task2_def)
  have "canonical (norm (JObj action8u)) = Inr (norm (norm (JObj action8u)))"
    using canonical_norm_plain [OF plain8u] by simp
  then show ?thesis using op served_call [where op = "action_transition_op (at_step 8) ''k8'' ''x'' 2 {ADispatched} AUnknown ''a'' [] ''after_action_acknowledgement'' True"]
    by (auto simp: checked_def reconcile_action_def reconcile_outcome_def reconcile_details_def found_def text_set_def action_transition_def sha256_json_plain)
qed

section \<open>The databases of the run are reachable\<close>

lemma at_step_service: "same_service sample_env (at_step k)"
  by (simp add: same_service_def at_step_def sample_env_def)

lemma reachable_sample:
  "reachable sample_env db0" "reachable sample_env db1" "reachable sample_env db2" "reachable sample_env db3"
  "reachable sample_env db4" "reachable sample_env db5" "reachable sample_env db6" "reachable sample_env db7"
  "reachable sample_env db8" "reachable sample_env db9"
proof -
  have more: "reachable sample_env d'" if "reachable sample_env d" "perform (at_step k) r d = (out, d')" for k r d out d'
    by (rule reachable.request [OF that(1) at_step_service that(2)])
  show 0: "reachable sample_env db0"
    using reachable.start [of sample_env "[''1'', ''2'', ''3'', ''4'']" "''v''" "''d''"] by (simp add: db0_def sample_env_def)
  show 1: "reachable sample_env db1" by (rule more [OF 0 run1])
  show 2: "reachable sample_env db2" by (rule more [OF 1 run2])
  show 3: "reachable sample_env db3" by (rule more [OF 2 run3])
  show 4: "reachable sample_env db4" by (rule more [OF 3 run4])
  show 5: "reachable sample_env db5" by (rule more [OF 4 run5])
  show 6: "reachable sample_env db6" by (rule more [OF 5 run6])
  show 7: "reachable sample_env db7" by (rule more [OF 6 run7])
  show 8: "reachable sample_env db8" by (rule more [OF 7 run8])
  show "reachable sample_env db9" by (rule more [OF 8 run9])
qed

end
