(* ===== verification/Guarantees.thy ===== *)
theory Guarantees
  imports Evolution SampleActions
begin

text \<open>
  What holds in every store that requests can reach: it opens again, its rows follow the state machines, an action
  is dispatched at most once and confirmed only on evidence, the lease belongs to the newest run, and what is
  final or recorded stays.
\<close>

section \<open>Evidence\<close>

definition on_evidence :: "action_row \<Rightarrow> bool" where
  "on_evidence a \<longleftrightarrow> (\<exists>s e. entry (a_record a) ''provider_operation_id'' = Some (JStr s) \<and> s \<noteq> [] \<and>
     entry (a_record a) ''provider_evidence'' = Some (JObj e) \<and> e \<noteq> [])"

definition took_place :: "action_state \<Rightarrow> bool" where
  "took_place st \<longleftrightarrow> st \<in> {AConfirmed, ACompensated}"

definition confirmations_ok :: "db \<Rightarrow> bool" where
  "confirmations_ok d \<longleftrightarrow> (\<forall>a \<in> set (actions d). took_place (a_state a) \<longrightarrow> on_evidence a)"

lemma details_entry:
  assumes "action_move row st details" and "k = ''provider_operation_id'' \<or> k = ''provider_evidence''"
  shows "map_of (advance_record rcd v st time details) k = (case map_of details k of None \<Rightarrow> map_of rcd k | x \<Rightarrow> x)"
proof -
  have "distinct (map fst details)"
    using assms(1) by (auto elim!: action_move.cases simp: reconcile_details_def split: option.splits if_splits)
  then show ?thesis using assms(2)
    by (auto simp: advance_record_def map_of_dict_merge map_add_def split: option.splits)
qed

lemma norm_JObj_ex: "e \<noteq> [] \<Longrightarrow> \<exists>e'. norm (JObj e) = JObj e' \<and> e' \<noteq> []"
proof -
  assume e: "e \<noteq> []"
  let ?s = "sort_key (\<lambda>p. utf16be (ucs (fst p))) (map (\<lambda>p. (fst p, norm (snd p))) e)"
  have "length ?s = length e" by simp
  with e have "?s \<noteq> []" by (metis length_greater_0_conv)
  then show ?thesis by (simp add: norm_JObj)
qed

lemma evidence_moved:
  assumes m: "action_move row st details" and "took_place (a_state row) \<longrightarrow> on_evidence row"
    and st: "took_place st"
    and rcd: "a_record r = norm (JObj (advance_record (dict_of (a_record row)) v st time details))"
  shows "on_evidence r"
proof -
  note e = details_entry [OF m, where rcd = "dict_of (a_record row)" and v = v and time = time, unfolded entry_dict_of]
  have new: "map_of details ''provider_operation_id'' = Some w \<Longrightarrow> \<exists>s. w = JStr s \<and> s \<noteq> []"
    "map_of details ''provider_evidence'' = Some w \<Longrightarrow> \<exists>x. w = JObj x \<and> x \<noteq> []" for w
    using m by (auto elim!: action_move.cases simp: reconcile_details_def text_set_def text_of_def split: option.splits if_splits)
  have known: "map_of details ''provider_operation_id'' \<noteq> None \<and> map_of details ''provider_evidence'' \<noteq> None \<or> on_evidence row"
    using m st assms(2) unfolding took_place_def by (auto elim!: action_move.cases simp: reconcile_details_def split: option.splits)
  have "\<exists>s. entry (a_record r) ''provider_operation_id'' = Some (JStr s) \<and> s \<noteq> []"
    using known new(1) unfolding rcd entry_norm by (auto simp: e on_evidence_def split: option.splits)
  moreover have "\<exists>x. entry (a_record r) ''provider_evidence'' = Some (JObj x) \<and> x \<noteq> []"
    using known new(2) norm_JObj_ex unfolding rcd entry_norm by (fastforce simp: e on_evidence_def split: option.splits)
  ultimately show ?thesis by (auto simp: on_evidence_def)
qed

lemma confirmations_step:
  assumes "db_step E d d'" and c: "confirmations_ok d"
  shows "confirmations_ok d'"
  using assms(1)
proof cases
  case (action_moved i row v st details rcd time h prov key act pl e)
  have "took_place (a_state row) \<longrightarrow> on_evidence row"
    using c find_ids(2) [OF action_moved(2)] by (simp add: confirmations_ok_def)
  note new = evidence_moved [OF action_moved(4) this]
  have "on_evidence (q\<lparr>a_marker := marker_of e, a_state := st, a_record := norm (JObj rcd),
      a_provider_operation_id := prov, a_provider_evidence_sha256 := h, a_updated_at := time\<rparr>)" if "took_place st" for q
    by (rule new [OF that, where v = "v + 1" and time = time]) (simp add: action_moved(5))
  then show ?thesis unfolding action_moved(1) confirmations_ok_def
    using c by (auto simp: confirmations_ok_def set_update_where)
qed (use c in \<open>auto simp: confirmations_ok_def took_place_def\<close>)

interpretation confirmations: service_invariant E confirmations_ok for E
  by (unfold_locales; (rule confirmations_step; assumption)?; simp add: confirmations_ok_def)

section \<open>Dispatch\<close>

text \<open>The states of an action are passed in this order, each at most once.\<close>

fun stage :: "action_state \<Rightarrow> nat" where
  "stage APrepared = 0"
| "stage ADispatched = 1"
| "stage AUnknown = 2"
| "stage AConfirmed = 3"
| "stage AFailed = 3"
| "stage ACompensated = 4"

lemma action_edge_stage: "action_edge a b \<Longrightarrow> stage a < stage b"
  by (cases a) (auto simp: action_edge_def)

lemma action_path_distinct:
  assumes "successively action_edge sts"
  shows "distinct sts"
proof -
  have "successively (\<lambda>a b. stage a < stage b) sts"
    by (rule successively_mono [OF assms]) (simp add: action_edge_stage)
  then have "sorted_wrt (\<lambda>a b. stage a < stage b) sts"
    by (subst (asm) successively_iff_sorted_wrt_strong) auto
  then show ?thesis by (induction sts) auto
qed

lemma action_state_text_inj: "action_state_text a = action_state_text b \<longleftrightarrow> a = b"
  by (cases a; cases b) simp_all

lemma announced_count:
  "list_all2 action_announces es sts \<Longrightarrow>
    length (filter (\<lambda>e. ev_event_type e = ''action.'' @ action_state_text s) es) = count_list sts s"
  by (induction rule: list_all2_induct) (auto simp: action_announces_def action_state_text_inj)

lemma distinct_count_list: "distinct xs \<Longrightarrow> count_list xs x \<le> 1"
  by (induction xs) auto

section \<open>The store opens\<close>

lemma encodable_plain: "plain v \<Longrightarrow> encodable (norm v)"
  by (simp add: encodable_def canonical_norm_plain)


lemma plain_run: "plain (JObj objective1)" "plain (JObj revision2)" "plain (JObj envelope4)"
  by (simp_all add: objective1_def revision2_def envelope4_def)

lemma sample_payload: "plain (JObj p) \<Longrightarrow> encodable (ev_payload (sample_row n key kind i ty v p sens))"
  using encodable_plain by (simp add: sample_row_def)

lemma sample_events:
  "encodable (ev_payload event1)" "encodable (ev_payload event2)" "encodable (ev_payload event3)" "encodable (ev_payload event4)"
  "encodable (ev_payload event5)" "encodable (ev_payload event6)" "encodable (ev_payload event7)" "encodable (ev_payload event8)"
  "encodable (ev_payload event9)"
  using plain_run plain6 plain7 plain8
  by (simp_all add: sample_payload event1_def event2_def event3_def event4_def event5_def event6_def event7_def event8_def
    event9_def receipt_def)

lemma sample_stored_encodable: "stored_encodable db8" "stored_encodable db9"
  using sample_events encodable_plain [OF plain_run(1)] encodable_plain [OF plain_run(2)] encodable_plain [OF plain_run(3)]
    encodable_plain [OF plain8] encodable_plain [OF plain9]
  by (simp_all add: stored_encodable_def run4_def row8_def row9_def)

lemma sample_checks:
  "verify_pragmas sample_env = Inr ()"
  "verify_migrations [''1'', ''2'', ''3'', ''4''] db8 = Inr ()" "verify_migrations [''1'', ''2'', ''3'', ''4''] db9 = Inr ()"
  by (simp add: verify_pragmas_def sample_env_def)
    (auto simp: forE_Inr_iff verify_migrations_def db0_def initial_db_def)

lemma sample_columns_match: "columns_match sample_env row8"
proof -
  have "norm (JObj receipt) = JObj receipt" by (simp add: receipt_def norm_JObj)
  then show ?thesis
    by (simp add: columns_match_def row8_def row7_def row6_def entry_norm action8_def advance_record_def same_nullable_def
      receipt_def [symmetric], simp add: receipt_def truthy_def)
qed


section \<open>Actions\<close>

text \<open>
  C4. An external action is dispatched at most once: the log of a reachable store holds at most one
  dispatch event for it, and its events tell a path of the state machine of actions from prepared to the state of its row.
\<close>

theorem dispatched_at_most_once:
  assumes "reachable E d" and "a \<in> set (actions d)"
  shows "length (filter (\<lambda>e. ev_event_type e = ''action.dispatched'') (events_of d (a_action_id a))) \<le> 1 \<and>
    (\<exists>sts. path_of action_announces action_edge APrepared (events_of d (a_action_id a)) sts \<and> last sts = a_state a)"
proof -
  from machines.both.always [OF assms(1)] assms(2) obtain sts
    where p: "path_of action_announces action_edge APrepared (events_of d (a_action_id a)) sts" "last sts = a_state a"
    by (auto simp: machines_inv_def traced_def)
  have c: "list_all2 action_announces (events_of d (a_action_id a)) sts" using p(1) by (simp add: path_of_def)
  have "count_list sts ADispatched \<le> 1"
    by (rule distinct_count_list [OF action_path_distinct]) (use p(1) in \<open>simp add: path_of_def\<close>)
  then show ?thesis using announced_count [OF c, of ADispatched] p by auto
qed

theorem dispatched_at_most_once_witness:
  "length (filter (\<lambda>e. ev_event_type e = ''action.dispatched'') (events_of db9 ''x'')) \<le> 1"
  using dispatched_at_most_once [OF reachable_sample(10), of row9]
  by (simp add: row9_def row8_def row7_def row6_def)

text \<open>
  C8. A confirmed action rests on evidence: whenever a reachable store has an action as confirmed or compensated,
  its record names the provider's operation and holds non-empty provider evidence.
\<close>

theorem confirmed_on_evidence:
  assumes "reachable E d" and "a \<in> set (actions d)" and "a_state a \<in> {AConfirmed, ACompensated}"
  shows "\<exists>s e. entry (a_record a) ''provider_operation_id'' = Some (JStr s) \<and> s \<noteq> [] \<and>
     entry (a_record a) ''provider_evidence'' = Some (JObj e) \<and> e \<noteq> []"
  using confirmations.always [OF assms(1)] assms(2, 3) by (auto simp: confirmations_ok_def took_place_def on_evidence_def)

theorem confirmed_on_evidence_witness:
  "\<exists>s e. entry (a_record row9) ''provider_operation_id'' = Some (JStr s) \<and> s \<noteq> [] \<and>
     entry (a_record row9) ''provider_evidence'' = Some (JObj e) \<and> e \<noteq> []"
  by (rule confirmed_on_evidence [OF reachable_sample(10)]) (simp_all add: row9_def)

text \<open>
  C34. Compensating a confirmed action locks the store: \<open>reconcile_action\<close> to \<open>compensated\<close> without repeating the
  provider's operation and evidence clears the two columns of the row while its record keeps both, so a reachable store
  that has recorded such a call cannot be opened any more.
\<close>

theorem compensation_locks_store:
  assumes "reachable E d" and "same_service E F"
    and "perform F (ReconcileAction i ''compensated'' v act None None key) d = (Inr res, d')"
    and "\<forall>r \<in> set (command_dedup d). dd_key r \<noteq> key"
    and "stored_encodable d'" and "verify_pragmas E = Inr ()" and "verify_migrations files d' = Inr ()"
  shows "open_store E True ''ok'' files normal True d' \<noteq> Inr ()"
proof -
  have r: "reachable E d'" by (rule reachable.request [OF assms(1-3)])
  have out: "reconcile_outcome ''compensated'' = Some ACompensated" by (simp add: reconcile_outcome_def)
  from assms(3) have "action_transition F i v {AConfirmed} ACompensated act [] ''after_action_acknowledgement'' False key d = (Inr res, d')"
    by (auto simp: reconcile_action_def checked_returns out found_def bindE_Inr_iff reconcile_details_def text_set_def)
  then obtain s s' q where s: "tx_db s = d" and d': "d' = tx_db s'\<lparr>command_dedup := command_dedup (tx_db s') @ [q]\<rparr>"
    and op: "action_transition_op F key i v {AConfirmed} ACompensated act [] ''after_action_acknowledgement'' False s = Inr (res, s')"
    unfolding action_transition_def by (rule run_command_returns [OF _ assms(4)])
  from action_transition_effect [OF op] obtain row time rcd e where
    row: "find_action d i = Some row" "a_state row = AConfirmed"
    and rcd: "rcd = advance_record (dict_of (a_record row)) (v + 1) ACompensated time []"
    and acts: "actions d' = update_where (\<lambda>q. a_action_id q = i)
         (\<lambda>r. r\<lparr>a_marker := marker_of e, a_state := ACompensated, a_record := norm (JObj rcd), a_provider_operation_id := None,
           a_provider_evidence_sha256 := None, a_updated_at := time\<rparr>) (actions d)"
    by (auto simp: s d' evidence_digest_def detail_text_def)
  let ?a = "row\<lparr>a_marker := marker_of e, a_state := ACompensated, a_record := norm (JObj rcd), a_provider_operation_id := None,
           a_provider_evidence_sha256 := None, a_updated_at := time\<rparr>"
  have a: "?a \<in> set (actions d')" using find_ids(2) [OF row(1)] by (auto simp: acts set_update_where)
  obtain p where p: "entry (a_record row) ''provider_operation_id'' = Some (JStr p)"
    using confirmations.always [OF assms(1)] find_ids(2) [OF row(1)] row(2)
    by (auto simp: confirmations_ok_def took_place_def on_evidence_def)
  have "entry (norm (JObj rcd)) ''provider_operation_id'' = Some (JStr p)"
    using p by (simp add: entry_norm rcd advance_record_def entry_dict_of)
  then have "\<not> columns_match E ?a" by (simp add: columns_match_def same_nullable_def)
  with a show ?thesis using store_opens_iff [OF r assms(5-7)] by blast
qed

theorem compensation_locks_store_witness:
  "open_store sample_env True ''ok'' [''1'', ''2'', ''3'', ''4''] (\<lambda>s. s) True db9 \<noteq> Inr ()"
proof -
  have fresh: "\<forall>r \<in> set (command_dedup db8). dd_key r \<noteq> ''k9''"
    using db8_simps(3) [of "''k9''"] by (simp add: unused_def)
  show ?thesis
    by (rule compensation_locks_store [OF reachable_sample(9) at_step_service run9 [unfolded request9_def] fresh
          sample_stored_encodable(2) sample_checks(1, 3)])
qed

section \<open>Tasks\<close>

text \<open>
  C12. The state of a task is the end of a path of the state machine of tasks that starts in
  \<open>proposed\<close> and that its events announce one by one; in particular no task is ever \<open>expired\<close>.
\<close>

theorem task_lifecycle:
  assumes "reachable E d" and "t \<in> set (tasks d)"
  shows "\<exists>sts. path_of task_announces task_edge TProposed (events_of d (t_task_id t)) sts \<and> last sts = t_state t \<and>
    TExpired \<notin> set sts"
proof -
  from machines.both.always [OF assms(1)] assms(2) obtain sts
    where p: "path_of task_announces task_edge TProposed (events_of d (t_task_id t)) sts" "last sts = t_state t"
    by (auto simp: machines_inv_def traced_def)
  have "a \<noteq> TExpired \<Longrightarrow> successively task_edge (a # as) \<Longrightarrow> TExpired \<notin> set (a # as)" for a as
  proof (induction as arbitrary: a)
    case (Cons b as)
    then have "b \<noteq> TExpired" by (cases a) (auto simp: task_edge_def)
    with Cons show ?case by auto
  qed auto
  from this [of "hd sts" "tl sts"] p have "TExpired \<notin> set sts" by (cases sts) (simp_all add: path_of_def)
  with p show ?thesis by blast
qed

theorem task_lifecycle_witness:
  "\<exists>sts. path_of task_announces task_edge TProposed (events_of db5 ''t'') sts \<and> last sts = TRunning \<and> TExpired \<notin> set sts"
  using task_lifecycle [OF reachable_sample(6), of task5]
  by (simp add: task5_def task4_def task3_def task2_def)

text \<open>
  C29. Attempts are counted exactly: the runs of a task carry the attempt numbers 1, 2, ... up to the
  attempt count of its row, which is the number of leases in its log.
\<close>

theorem attempts_are_numbered:
  assumes "reachable E d" and "t \<in> set (tasks d)"
  shows "map r_attempt_number (filter (\<lambda>r. r_task_id r = t_task_id t) (runs d)) = [1..t_attempt_count t] \<and>
    t_attempt_count t = int (lease_count d (t_task_id t))"
proof -
  from histories.both.always [OF assms(1)] assms(2) have "counted (history d (t_task_id t)) t"
    by (simp add: tasks_inv_def task_fits_def)
  moreover have "map r_attempt_number (filter P (map run_core rs)) = map r_attempt_number (filter (\<lambda>r. P (run_core r)) rs)" for P rs
    by (induction rs) simp_all
  ultimately show ?thesis by (simp add: counted_def history_def)
qed

theorem attempts_are_numbered_witness:
  "map r_attempt_number (filter (\<lambda>r. r_task_id r = ''t'') (runs db5)) = [1..1] \<and> int (lease_count db5 ''t'') = 1"
  using attempts_are_numbered [OF reachable_sample(6), of task5]
  by (simp add: task5_def task4_def task3_def task2_def)

text \<open>
  C5. One lease at a time: a leased or running task names as its current run the run of its own, with the highest attempt
  number among those of its revision, whose envelope holds the fencing token of the row; in every other
  state the row has no lease owner, fencing token or expiry.
\<close>

theorem lease_is_of_newest_run:
  assumes "reachable E d" and "t \<in> set (tasks d)"
  shows "if t_state t \<in> {TLeased, TRunning}
    then \<exists>r \<in> set (runs d). t_current_run_id t = Some (r_run_id r) \<and> r_task_id r = t_task_id t \<and>
      r_task_revision r = t_revision t \<and>
      (\<forall>q \<in> set (runs d). r_task_id q = t_task_id t \<and> r_task_revision q = t_revision t \<longrightarrow>
         r_attempt_number q \<le> r_attempt_number r) \<and>
      (\<exists>fence. t_lease_fencing_token t = Some fence \<and> entry (r_envelope r) ''lease_fencing_token'' = Some (JStr fence))
    else t_lease_owner t = None \<and> t_lease_fencing_token t = None \<and> t_lease_expires_at t = None"
proof -
  from histories.both.always [OF assms(1)] assms(2) have f: "lease_fits (history d (t_task_id t)) t"
    by (simp add: tasks_inv_def task_fits_def)
  show ?thesis
  proof (cases "t_state t \<in> {TLeased, TRunning}")
    case True
    with f obtain r fence where n: "newest_run (history d (t_task_id t)) (t_revision t) = Some r"
      and c: "t_current_run_id t = Some (r_run_id r)" "t_lease_fencing_token t = Some fence"
        "entry (r_envelope r) ''lease_fencing_token'' = Some (JStr fence)"
      by (auto simp: lease_fits_def lease_held_def)
    from max_row_Some [OF n [unfolded newest_run_def]] obtain q where q: "q \<in> set (runs d)" "r = run_core q"
        "r_task_id q = t_task_id t" "r_task_revision q = t_revision t"
      and max: "\<forall>p \<in> set (runs d). r_task_id p = t_task_id t \<and> r_task_revision p = t_revision t \<longrightarrow>
        r_attempt_number p \<le> r_attempt_number q"
      by (fastforce simp: history_def)
    with c show ?thesis using True by auto
  next
    case False
    then have "lease_columns t = [None, None, None]" using f unfolding lease_fits_def by (simp only: if_False)
    with False show ?thesis unfolding lease_columns_def by simp
  qed
qed

theorem lease_is_of_newest_run_witness:
  "\<exists>r \<in> set (runs db5). r_run_id r = run_id \<and> entry (r_envelope r) ''lease_fencing_token'' = Some (JStr ''fence'')"
proof -
  have t: "task5 \<in> set (tasks db5)" by simp
  have "t_state task5 = TRunning" "t_current_run_id task5 = Some run_id" "t_lease_fencing_token task5 = Some ''fence''"
    by (simp_all add: task5_def task4_def)
  then show ?thesis using lease_is_of_newest_run [OF reachable_sample(6) t] by (auto intro!: bexI)
qed

text \<open>
  C30. References hold that no foreign key declares: revisions and runs belong to tasks, the current run of a task and the
  run of an action are runs of that very task, objectives and tasks name a revision of their objective together with
  its digest, run identifiers are distinct, and no two actions share an operation key.
\<close>

theorem references_hold:
  assumes "reachable E d"
  shows "(\<forall>q \<in> set (task_revisions d). \<exists>t \<in> set (tasks d). t_task_id t = tr_task_id q) \<and>
    (\<forall>r \<in> set (runs d). \<exists>t \<in> set (tasks d). t_task_id t = r_task_id r) \<and>
    (\<forall>t \<in> set (tasks d). \<forall>i. t_current_run_id t = Some i \<longrightarrow> (\<exists>r \<in> set (runs d). r_run_id r = i \<and> r_task_id r = t_task_id t)) \<and>
    (\<forall>a \<in> set (actions d). \<exists>r \<in> set (runs d). r_run_id r = a_run_id a \<and> r_task_id r = a_task_id a) \<and>
    (\<forall>t \<in> set (tasks d). \<exists>q \<in> set (objective_revisions d). or_objective_id q = t_objective_id t \<and>
       or_revision q = t_objective_revision t \<and> or_sha256 q = t_objective_sha256 t) \<and>
    (\<forall>o' \<in> set (objectives d). \<exists>q \<in> set (objective_revisions d). or_objective_id q = o_objective_id o' \<and>
       or_revision q = o_revision o' \<and> or_sha256 q = o_sha256 o') \<and>
    distinct (map r_run_id (runs d)) \<and> distinct (map a_operation_key (actions d))"
proof -
  have l: "links_ok d" using links.always [OF assms] .
  have runs: "(i, j) \<in> run_keys d \<longleftrightarrow> (\<exists>r \<in> set (runs d). r_run_id r = i \<and> r_task_id r = j)" for i j
    by (auto simp: run_keys_def)
  have revs: "(i, n, h) \<in> revision_keys d \<longleftrightarrow>
      (\<exists>q \<in> set (objective_revisions d). or_objective_id q = i \<and> or_revision q = n \<and> or_sha256 q = h)" for i n h
    by (auto simp: revision_keys_def)
  show ?thesis using l unfolding links_ok_def task_links_def runs revs task_ids_def by fastforce
qed

theorem references_hold_witness:
  "\<exists>r \<in> set (runs db9). r_run_id r = run_id \<and> r_task_id r = ''t''"
  using references_hold [OF reachable_sample(10)]
  by (simp add: row9_def row8_def row7_def row6_def)

section \<open>Time\<close>

text \<open>
  C20. History is append-only: whatever a service does, the log, the revisions and the
  runs of a later database extend those of the earlier one, and of an existing run only the status, the result and
  the time of the last change can differ.
\<close>

theorem history_is_append_only:
  assumes "later E d d'"
  shows "prefix (events d) (events d') \<and> prefix (objective_revisions d) (objective_revisions d') \<and>
    prefix (task_revisions d) (task_revisions d') \<and> prefix (map run_core (runs d)) (map run_core (runs d'))"
  using growth.along [OF assms] by (simp add: grows_def)

lemma later_sample: "later sample_env db4 db5" "later sample_env db9 (snd (perform (at_step 10) r db9))"
proof -
  have one: "later sample_env d (snd (perform (at_step k) r d))" for k r d
    unfolding later_def serves_def by (intro r_into_rtranclp exI conjI, rule at_step_service, rule surjective_pairing)
  show "later sample_env db4 db5" using one [of db4 5 request5] run5 by simp
  show "later sample_env db9 (snd (perform (at_step 10) r db9))" by (rule one)
qed

theorem history_is_append_only_witness: "\<forall>r. prefix (events db9) (events (snd (perform (at_step 10) r db9)))"
proof (rule allI)
  fix r
  show "prefix (events db9) (events (snd (perform (at_step 10) r db9)))"
    using history_is_append_only [OF later_sample(2)] by simp
qed

text \<open>
  C16. What is final stays: a row of a reachable store whose objective is completed, cancelled or superseded, whose task is
  accepted, rejected, cancelled or terminally failed, or whose action failed or was compensated, is found
  unchanged in every later database.
\<close>

lemma evolved:
  assumes "reachable E d" and "later E d d'"
  shows "evolves d d'" and "distinct (map o_objective_id (objectives d'))" and "distinct (map t_task_id (tasks d'))"
    and "distinct (map a_action_id (actions d'))"
  using evolution.along [OF assms(2) projections.always [OF assms(1)]]
    projections.always [OF reachable_later [OF assms(2, 1)]]
  by (simp_all add: projections_ok_def tracks_def)

theorem final_rows_stay:
  assumes "reachable E d" and "later E d d'"
  shows "(\<forall>r \<in> set (objectives d). objective_final r \<longrightarrow> find_objective d' (o_objective_id r) = Some r) \<and>
    (\<forall>r \<in> set (tasks d). task_final r \<longrightarrow> find_task d' (t_task_id r) = Some r) \<and>
    (\<forall>r \<in> set (actions d). action_final r \<longrightarrow> find_action d' (a_action_id r) = Some r)"
  using evolved(1) [OF assms] evolved(2-) [OF assms] unfolding evolves_def find_objective_def find_task_def find_action_def
  by (auto intro: rows_evolve_final)

theorem final_rows_stay_witness: "\<forall>r. find_action (snd (perform (at_step 10) r db9)) ''x'' = Some row9"
proof (rule allI)
  fix r
  show "find_action (snd (perform (at_step 10) r db9)) ''x'' = Some row9"
    using final_rows_stay [OF reachable_sample(10) later_sample(2)]
    by (simp add: action_final_def row9_def row8_def row7_def row6_def)
qed

text \<open>
  C19. The version of a row identifies it: versions of tasks, objectives and actions never go down, and a row that is found
  under the same version in an earlier and a later database is the same row. So a caller whose expected version is
  accepted acts on exactly the row that it has read.
\<close>

theorem version_identifies_row:
  assumes "reachable E d" and "later E d d'"
  shows "(\<forall>i r r'. find_objective d i = Some r \<and> find_objective d' i = Some r' \<longrightarrow>
      mk_aggregate_version (o_marker r) \<le> mk_aggregate_version (o_marker r') \<and>
      (mk_aggregate_version (o_marker r) = mk_aggregate_version (o_marker r') \<longrightarrow> r' = r)) \<and>
    (\<forall>i r r'. find_task d i = Some r \<and> find_task d' i = Some r' \<longrightarrow>
      mk_aggregate_version (t_marker r) \<le> mk_aggregate_version (t_marker r') \<and>
      (mk_aggregate_version (t_marker r) = mk_aggregate_version (t_marker r') \<longrightarrow> r' = r)) \<and>
    (\<forall>i r r'. find_action d i = Some r \<and> find_action d' i = Some r' \<longrightarrow>
      mk_aggregate_version (a_marker r) \<le> mk_aggregate_version (a_marker r') \<and>
      (mk_aggregate_version (a_marker r) = mk_aggregate_version (a_marker r') \<longrightarrow> r' = r))"
proof -
  note e = evolved(1) [OF assms, unfolded evolves_def] and k = evolved(2-) [OF assms]
  show ?thesis
    unfolding find_objective_def find_task_def find_action_def
  proof (intro conjI allI impI; elim conjE)
  qed (rule rows_evolve_same [OF conjunct1 [OF e] k(1), THEN conjunct1] rows_evolve_same [OF conjunct1 [OF e] k(1), THEN conjunct2, THEN mp]
      rows_evolve_same [OF conjunct1 [OF conjunct2 [OF e]] k(2), THEN conjunct1]
      rows_evolve_same [OF conjunct1 [OF conjunct2 [OF e]] k(2), THEN conjunct2, THEN mp]
      rows_evolve_same [OF conjunct2 [OF conjunct2 [OF e]] k(3), THEN conjunct1]
      rows_evolve_same [OF conjunct2 [OF conjunct2 [OF e]] k(3), THEN conjunct2, THEN mp]; assumption)+
qed

theorem version_identifies_row_witness:
  "mk_aggregate_version (t_marker task4) \<le> mk_aggregate_version (t_marker task5)"
proof -
  have "find_task db4 ''t'' = Some task4" "find_task db5 ''t'' = Some task5"
    by (simp_all add: find_task_def task5_def task4_def task3_def task2_def)
  then show ?thesis
    using version_identifies_row [OF reachable_sample(5) later_sample(1)] by blast
qed

end
