(* ===== verification/SampleBranches.thy ===== *)
theory SampleBranches
  imports Sample
begin

text \<open>
  Other ways to go on from the running task of \<open>Sample\<close>: its lease expires, its cancellation is requested and
  confirmed, or its result is submitted, in time or too late, and reviewed.
\<close>

section \<open>The lease expires\<close>

definition next_day :: string where
  "next_day = format_time (evening\<lparr>dt_day := 2\<rparr>)"

lemma next_day [simp]: "parse_time next_day = Inr (evening\<lparr>dt_day := 2\<rparr>)" "dt_le evening (evening\<lparr>dt_day := 2\<rparr>)" "next_day \<noteq> []"
proof -
  show p: "parse_time next_day = Inr (evening\<lparr>dt_day := 2\<rparr>)"
    by (simp add: next_day_def parse_format_time noon_def evening_def valid_datetime_def days_in_month_def leap_year_def)
  show "dt_le evening (evening\<lparr>dt_day := 2\<rparr>)" by (simp add: noon_def evening_def dt_le_def dt_key_def)
  show "next_day \<noteq> []" by (simp add: next_day_def format_time_def)
qed

lemma branch_expires: "\<exists>res d'. expire_lease (at_step 6) ''t'' 4 True ''a'' ''k6'' (Some next_day) db5 = (Inr res, d')"
proof -
  have op: "\<exists>res d1. command_dedup d1 = command_dedup db5 \<and> plain res \<and>
      (\<exists>n. expire_lease_op (at_step 6) ''k6'' ''t'' 4 True ''a'' (Some next_day) \<lparr>tx_db = db5, tick = 2\<rparr> = Inr (res, \<lparr>tx_db = d1, tick = n\<rparr>))"
    by (simp add: step_simps expire_lease_op_def expire_next_state_def task_actions_in_def transition_in_tx_def move_task_def get_task_def sample_task_def task_record_def text_set_def text_of_def task5_def task4_def task3_def task2_def run4_def run_id_def revision2_def)
  then show ?thesis
    using served_call [where op = "expire_lease_op (at_step 6) ''k6'' ''t'' 4 True ''a'' (Some next_day)"]
    by (auto simp: canonical_plain checked_def expire_lease_def sha256_json_plain)
qed

section \<open>The task is cancelled\<close>

definition request6c :: request where
  "request6c = RequestCancellation ''t'' 4 ''a'' ''k6''"

definition event6c :: event_row where
  "event6c = sample_row 6 ''k6'' ''task'' ''t'' ''task.cancellation_requested'' 5
     [(''from'', JStr ''running''), (''to'', JStr ''cancellation_requested''), (''fenced_run_id'', JStr run_id)] ''internal''"

definition task6c :: task_row where
  "task6c = task5\<lparr>t_marker := marker_of event6c, t_state := TCancellationRequested, t_lease_owner := None,
     t_lease_fencing_token := None, t_lease_expires_at := None\<rparr>"

lemma event6c_simps [simp]: "ev_aggregate_version event6c = 5" "ev_aggregate_id event6c = ''t''"
  "marker_of event6c = \<lparr>mk_event_id = ''evt_'' @ serial 6, mk_event_sha256 = zero_sha256, mk_database_sequence = 6,
     mk_aggregate_version = 5\<rparr>"
  by (simp_all add: event6c_def marker_of_sample)

definition served6c :: db where
  "served6c = (log_row event6c db5)\<lparr>tasks := [task6c]\<rparr>"

definition db6c :: db where
  "db6c = record_call ''k6'' (JObj (sample_task task6c)) served6c"

lemma run6c: "perform (at_step 6) request6c db5 = (Inr (JObj (sample_task task6c)), db6c)"
proof -
  have op: "\<exists>n. request_cancellation_op (at_step 6) ''k6'' ''t'' 4 ''a''
      \<lparr>tx_db = db5, tick = 2\<rparr> = Inr (JObj (sample_task task6c), \<lparr>tx_db = served6c, tick = n\<rparr>)"
    by (simp add: step_simps request_cancellation_op_def transition_in_tx_def move_task_def get_task_def sample_task_def task_record_def text_set_def text_of_def task6c_def task5_def task4_def task3_def task2_def run4_def run_id_def revision2_def event6c_def served6c_def)
  have "canonical (JObj (sample_task task6c)) = Inr (norm (JObj (sample_task task6c)))"
    by (rule canonical_plain) (simp add: sample_task_def task_record_def task6c_def task5_def task4_def task3_def task2_def text_set_def text_of_def)
  then show ?thesis unfolding db6c_def request6c_def perform.simps 
    using served_call [where op = "request_cancellation_op (at_step 6) ''k6'' ''t'' 4 ''a''", OF op] by (simp add: served6c_def checked_def request_cancellation_def sha256_json_plain)
qed

lemma db6c_simps [simp]:
  "numbered 6 db6c"
  "latest_event db6c i = (if i = ''t'' then Some event6c else if i = ''o'' then Some event1 else None)"
  "unused j db6c \<longleftrightarrow> j \<noteq> ''k1'' \<and> j \<noteq> ''k2'' \<and> j \<noteq> ''k3'' \<and> j \<noteq> ''k4'' \<and> j \<noteq> ''k5'' \<and> j \<noteq> ''k6''"
  "tasks db6c = [task6c]" "runs db6c = [run4\<lparr>r_status := RRunning\<rparr>]" "actions db6c = []"
  "objective_revisions db6c = objective_revisions db1" "objectives db6c = objectives db1" "task_revisions db6c = task_revisions db2"
  "events db6c = [event1, event2, event3, event4, event5, event6c]" "migrations db6c = migrations db0"
  by (auto simp: db6c_def served6c_def event6c_def numbered_log [of 5] latest_log [of 5])

lemma branch_confirmed: "\<exists>res d'. confirm_cancellation (at_step 7) ''t'' 5 ''a'' ''k7'' db6c = (Inr res, d')"
proof -
  have op: "\<exists>res d1. command_dedup d1 = command_dedup db6c \<and> plain res \<and>
      (\<exists>n. confirm_cancellation_op (at_step 7) ''k7'' ''t'' 5 ''a'' \<lparr>tx_db = db6c, tick = 2\<rparr> = Inr (res, \<lparr>tx_db = d1, tick = n\<rparr>))"
    by (simp add: step_simps confirm_cancellation_op_def task_actions_in_def transition_in_tx_def move_task_def get_task_def sample_task_def task_record_def text_set_def text_of_def task6c_def task5_def task4_def task3_def task2_def run4_def run_id_def revision2_def)
  then show ?thesis
    using served_call [where op = "confirm_cancellation_op (at_step 7) ''k7'' ''t'' 5 ''a''"]
    by (auto simp: canonical_plain checked_def confirm_cancellation_def sha256_json_plain)
qed

section \<open>The result is submitted\<close>

definition result_fields :: "string dict" where
  "result_fields = [(''task_id'', JStr ''t''), (''run_id'', JStr run_id), (''expected_task_version'', JInt 4),
     (''lease_fencing_token'', JStr ''fence''), (''run_status'', JStr ''completed'')]"

lemma item_norm: "map_of d k = Some v \<Longrightarrow> item (norm (JObj d)) k = Inr (norm v)"
  by (simp add: item_Inr_iff get_norm)

lemma log_row_runs: "log_row e (d\<lparr>runs := x\<rparr>) = (log_row e d)\<lparr>runs := x\<rparr>"
  by (simp add: log_row_def)

lemma result_fields_checked:
  "required result_fields submit_required = Inr ()" "plain (JObj result_fields)"
  "dict_item result_fields ''task_id'' = Inr (JStr ''t'')"
  "bindE (dict_item result_fields ''expected_task_version'') py_int = Inr 4"
  by (simp_all add: required_def submit_required_def dict_has_def result_fields_def dict_item_def py_int_def)

lemma branch_late_result: "\<exists>res d'. submit_result (at_step 7) result_fields ''a'' ''k7'' db6c = (Inr res, d')"
proof -
  have op: "\<exists>res d1. command_dedup d1 = command_dedup db6c \<and> plain res \<and>
      (\<exists>n. submit_result_op (at_step 7) ''k7'' result_fields (JStr ''t'') 4 ''a'' \<lparr>tx_db = db6c, tick = 2\<rparr> = Inr (res, \<lparr>tx_db = d1, tick = n\<rparr>))"
    by (simp add: step_simps submit_result_op_def quarantine_result_def result_fields_def item_norm transition_in_tx_def move_task_def get_task_def sample_task_def task_record_def text_set_def text_of_def task6c_def envelope4_def task5_def task4_def task3_def task2_def run4_def run_id_def revision2_def)
  then show ?thesis
    using served_call [where op = "submit_result_op (at_step 7) ''k7'' result_fields (JStr ''t'') 4 ''a''"]
    by (auto simp: canonical_plain checked_def submit_result_def validate_def result_fields_checked result_fields_checked(2) [unfolded plain.simps] sha256_json_plain)
qed

definition request6r :: request where
  "request6r = SubmitResult result_fields ''a'' ''k6''"

definition event6r :: event_row where
  "event6r = sample_row 6 ''k6'' ''task'' ''t'' ''task.result_recorded'' 5
     [(''run_id'', JStr run_id), (''result_sha256'', JStr zero_sha256), (''run_status'', JStr ''completed''),
      (''next_state'', JStr ''review'')] ''internal''"

definition task6r :: task_row where
  "task6r = task5\<lparr>t_marker := marker_of event6r, t_state := TReview, t_current_run_id := None, t_lease_owner := None,
     t_lease_fencing_token := None, t_lease_expires_at := None\<rparr>"

lemma event6r_simps [simp]: "ev_aggregate_version event6r = 5" "ev_aggregate_id event6r = ''t''"
  "marker_of event6r = \<lparr>mk_event_id = ''evt_'' @ serial 6, mk_event_sha256 = zero_sha256, mk_database_sequence = 6,
     mk_aggregate_version = 5\<rparr>"
  by (simp_all add: event6r_def marker_of_sample)

definition served6r :: db where
  "served6r = (log_row event6r db5)
     \<lparr>tasks := [task6r], runs := [run4\<lparr>r_status := RCompleted, r_result := Some (norm (JObj result_fields)),
        r_result_sha256 := Some zero_sha256\<rparr>]\<rparr>"

definition db6r :: db where
  "db6r = record_call ''k6'' (JObj [(''task'', JObj (sample_task task6r)), (''result_sha256'', JStr zero_sha256)]) served6r"

lemma run6r: "perform (at_step 6) request6r db5 = (Inr (JObj [(''task'', JObj (sample_task task6r)), (''result_sha256'', JStr zero_sha256)]), db6r)"
proof -
  have op: "\<exists>n. submit_result_op (at_step 6) ''k6'' result_fields (JStr ''t'') 4 ''a''
      \<lparr>tx_db = db5, tick = 2\<rparr> = Inr (JObj [(''task'', JObj (sample_task task6r)), (''result_sha256'', JStr zero_sha256)], \<lparr>tx_db = served6r, tick = n\<rparr>)"
    by (simp add: step_simps submit_result_op_def record_result_def result_next_state_def run_actions_in_def log_row_runs result_fields_def item_norm transition_in_tx_def move_task_def get_task_def sample_task_def task_record_def text_set_def text_of_def task6r_def envelope4_def task5_def task4_def task3_def task2_def run4_def run_id_def revision2_def event6r_def served6r_def)
  have "canonical (JObj [(''task'', JObj (sample_task task6r)), (''result_sha256'', JStr zero_sha256)]) = Inr (norm (JObj [(''task'', JObj (sample_task task6r)), (''result_sha256'', JStr zero_sha256)]))"
    by (rule canonical_plain) (simp add: sample_task_def task_record_def task6r_def task5_def task4_def task3_def task2_def text_set_def text_of_def)
  then show ?thesis unfolding db6r_def request6r_def perform.simps 
    using served_call [where op = "submit_result_op (at_step 6) ''k6'' result_fields (JStr ''t'') 4 ''a''", OF op] by (simp add: served6r_def checked_def submit_result_def validate_def result_fields_checked result_fields_checked(2) [unfolded plain.simps] sha256_json_plain)
qed

lemma db6r_simps [simp]:
  "numbered 6 db6r"
  "latest_event db6r i = (if i = ''t'' then Some event6r else if i = ''o'' then Some event1 else None)"
  "unused j db6r \<longleftrightarrow> j \<noteq> ''k1'' \<and> j \<noteq> ''k2'' \<and> j \<noteq> ''k3'' \<and> j \<noteq> ''k4'' \<and> j \<noteq> ''k5'' \<and> j \<noteq> ''k6''"
  "tasks db6r = [task6r]" "runs db6r = [run4\<lparr>r_status := RCompleted, r_result := Some (norm (JObj result_fields)),
     r_result_sha256 := Some zero_sha256\<rparr>]" "actions db6r = []"
  "objective_revisions db6r = objective_revisions db1" "objectives db6r = objectives db1" "task_revisions db6r = task_revisions db2"
  "events db6r = [event1, event2, event3, event4, event5, event6r]" "migrations db6r = migrations db0"
  by (auto simp: db6r_def served6r_def event6r_def numbered_log [of 5] latest_log [of 5])

lemma branch_accepted: "\<exists>res d'. review_task (at_step 7) ''t'' ''accepted'' 5 ''r'' [] None ''a'' ''k7'' db6r = (Inr res, d')"
proof -
  have op: "\<exists>res d1. command_dedup d1 = command_dedup db6r \<and> plain res \<and>
      (\<exists>n. review_task_op (at_step 7) ''k7'' ''t'' TAccepted 5 ''r'' [] [] ''a'' \<lparr>tx_db = db6r, tick = 2\<rparr> = Inr (res, \<lparr>tx_db = d1, tick = n\<rparr>))"
    by (simp add: step_simps review_task_op_def text_elements_def iterate_def text_list_def text_dict_def transition_in_tx_def move_task_def get_task_def sample_task_def task_record_def text_set_def text_of_def task6r_def task5_def task4_def task3_def task2_def run4_def run_id_def revision2_def)
  then show ?thesis
    using served_call [where op = "review_task_op (at_step 7) ''k7'' ''t'' TAccepted 5 ''r'' [] [] ''a''"]
    by (auto simp: canonical_plain checked_def review_task_def review_decision_def found_def text_list_def text_dict_def Let_def sha256_json_plain)
qed

end
