(* ===== verification/Outcomes.thy ===== *)
theory Outcomes
  imports Guarantees SampleBranches
begin

text \<open>
  What a single request achieves when it returns: acting needs the current lease, a late result cannot advance a
  cancelled task, cancellation waits for every action, an unknown outcome stops the task, and acceptance settles every
  open finding. Requests are called with a fresh idempotency key.
\<close>

section \<open>Calls with a fresh key\<close>

definition fresh_key :: "string \<Rightarrow> db \<Rightarrow> bool" where
  "fresh_key key d \<longleftrightarrow> (\<forall>r \<in> set (command_dedup d). dd_key r \<noteq> key)"

lemma fresh_returns:
  assumes "run_command E key cmd op d = (Inr v, d')" and "fresh_key key d"
  obtains s s' where "tx_db s = d" and "tick s = 2" and "op s = Inr (v, s')" and "tasks d' = tasks (tx_db s')"
    and "runs d' = runs (tx_db s')" and "actions d' = actions (tx_db s')" and "events d' = events (tx_db s')"
proof -
  from run_command_returns [OF assms(1)] assms(2) obtain s s' r where "tx_db s = d" "tick s = 2" "op s = Inr (v, s')"
    "d' = tx_db s'\<lparr>command_dedup := command_dedup (tx_db s') @ [r]\<rparr>"
    unfolding fresh_key_def by metis
  with that show ?thesis by simp
qed

lemma find_moved_task:
  assumes "find_task d i = Some row" and "tasks d' = update_where (\<lambda>q. t_task_id q = i) g (tasks d)" and "\<And>r. t_task_id (g r) = t_task_id r"
  shows "find_task d' i = Some (g row)"
  using assms(1) find_update_where_same [of "\<lambda>q. t_task_id q = i" g "tasks d"] assms(3)
  by (simp add: find_task_def assms(2))

lemma moved_task:
  assumes "transition_in_tx E key row st v act details rs cl cf s = Inr (res, s')"
    and row: "find_task (tx_db s) i = Some row" and "tasks d' = tasks (tx_db s')" and "runs d' = runs (tx_db s')"
  obtains m now where "find_task d' i = Some (move_task m (v + 1) st now cl cf row)"
    and "runs d' = mark_run row rs now (runs (tx_db s))"
proof -
  from transition_effect [OF assms(1)] obtain e now where
    d: "tasks (tx_db s') = update_where (\<lambda>q. t_task_id q = t_task_id row) (move_task (marker_of e) (v + 1) st now cl cf) (tasks (tx_db s))"
      "runs (tx_db s') = mark_run row rs now (runs (tx_db s))"
    by auto
  have "find_task d' i = Some (move_task (marker_of e) (v + 1) st now cl cf row)"
    using find_task_id [OF row] by (intro find_moved_task [OF row]) (simp_all add: assms(3) d(1))
  with that d(2) assms(4) show ?thesis by simp
qed

lemma sample_found: "find_task db4 ''t'' = Some task4" "find_task db5 ''t'' = Some task5"
  by (simp_all add: find_task_def task5_def task4_def task3_def task2_def)

lemma fresh_unused: "fresh_key key d \<longleftrightarrow> unused key d"
  by (simp add: fresh_key_def unused_def)

lemma sample_fresh: "fresh_key ''k4'' db3" "fresh_key ''k5'' db4" "fresh_key ''k6'' db5" "fresh_key ''k7'' db6c" "fresh_key ''k7'' db6r"
  "fresh_key ''k8'' db7"
  by (simp_all add: fresh_unused)

section \<open>Acting under a lease\<close>

text \<open>
  C23. Starting a run needs the current lease: when \<open>start_run\<close> returns, the task was leased, at the expected version, to
  this very run under this very token, and the lease had not expired when the transaction read the clock; now it is running,
  one version up, under the same lease.
\<close>

theorem start_run_needs_lease:
  assumes "start_run E i run_id fence v act key d = (Inr res, d')" and "fresh_key key d"
  shows "\<exists>row row'. find_task d i = Some row \<and> mk_aggregate_version (t_marker row) = v \<and> t_state row = TLeased \<and>
    lease_current E row run_id fence 2 \<and> find_task d' i = Some row' \<and> t_state row' = TRunning \<and>
    mk_aggregate_version (t_marker row') = v + 1 \<and> t_current_run_id row' = Some run_id \<and>
    lease_columns row' = lease_columns row"
proof -
  from assms(1) obtain h cmd where "run_command E key cmd (start_run_op E key i run_id fence v act) d = (Inr res, d')"
    by (auto simp: start_run_def checked_returns)
  from fresh_returns [OF this assms(2)] obtain s s' where s: "tx_db s = d" "tick s = 2"
    "start_run_op E key i run_id fence v act s = Inr (res, s')" "tasks d' = tasks (tx_db s')" "runs d' = runs (tx_db s')"
    by metis
  from start_run_effect [OF s(3)] obtain row where row: "find_task d i = Some row" "mk_aggregate_version (t_marker row) = v"
      "t_state row = TLeased" "lease_current E row run_id fence 2"
    and t: "transition_in_tx E key row TRunning v act [(''run_id'', JStr run_id)] (Some RRunning) False False
      (s\<lparr>tick := Suc (tick s)\<rparr>) = Inr (res, s')"
    using s(1, 2) by auto
  have "find_task (tx_db (s\<lparr>tick := Suc (tick s)\<rparr>)) i = Some row" using row(1) s(1) by simp
  from moved_task [OF t this s(4, 5)] obtain m now where
    "find_task d' i = Some (move_task m (v + 1) TRunning now False False row)" by metis
  with row show ?thesis by (auto simp: lease_current_def)
qed

theorem start_run_needs_lease_witness: "lease_current (at_step 5) task4 run_id ''fence'' 2"
  using start_run_needs_lease [OF run5 [unfolded request5_def perform.simps] sample_fresh(2)] by (auto simp: sample_found)

text \<open>
  C24. A stale or foreign token is refused: if the current run and token of the task are not the ones given, \<open>start_run\<close>
  raises \<open>ConflictError\<close> and changes nothing.
\<close>

theorem start_run_refuses_stale_fence:
  assumes "find_task d i = Some row" and "mk_aggregate_version (t_marker row) = v"
    and "t_current_run_id row \<noteq> Some run_id \<or> t_lease_fencing_token row \<noteq> Some fence"
    and "fresh_key key d" and "verify_pragmas E = Inr ()" and "\<not> fault_hook E 1 ''after_begin''"
    and "plain (JInt v)"
  shows "start_run E i run_id fence v act key d = (Inl (ConflictError ''stale or foreign lease fencing token''), d)"
proof -
  have none: "List.find (\<lambda>r. dd_key r = key) (command_dedup d) = None"
    using assms(4) by (simp add: fresh_key_def find_None_iff_all)
  have v: "v = (case map_of (map (\<lambda>r. (t_task_id r, mk_aggregate_version (t_marker r))) (tasks d)) i of None \<Rightarrow> 0 | Some v \<Rightarrow> v)"
    using expect_version_find(2) [OF assms(1)] assms(2) by simp
  have "start_run_op E key i run_id fence v act s = Inl (ConflictError ''stale or foreign lease fencing token'')"
    if "tx_db s = d" for s
  proof -
    have "expect_version ''tasks'' i v s = Inr (v, s)" using v that by (simp add: expect_version_Inr)
    moreover have "task_row i s = Inr (row, s)" using assms(1) that by (simp add: row_Inr)
    ultimately show ?thesis using assms(3)
      by (auto simp: start_run_op_def tbind_def require_current_lease_def tguard_def)
  qed
  then show ?thesis using assms(5-7) none
    by (simp add: start_run_def checked_def sha256_json_plain run_command_def command_def command_body_def tbind_def fault_def)
qed

theorem start_run_refuses_stale_fence_witness:
  "start_run (at_step 5) ''t'' run_id ''other'' 3 ''a'' ''k5'' db4 =
     (Inl (ConflictError ''stale or foreign lease fencing token''), db4)"
  by (rule start_run_refuses_stale_fence [OF sample_found(1)])
    (simp_all add: sample_fresh task4_def event4_def sample_row_def marker_of_def)

text \<open>
  C25. Preparing an action needs the current lease of a running task and a new operation key: when \<open>prepare_action\<close>
  returns, the run and token given were the current ones and unexpired, the task was running, no action had the operation key,
  and the new action is prepared for that task and run, with no effect on any other action.
\<close>

theorem prepare_action_needs_lease:
  assumes "prepare_action E fs fence act key d = (Inr res, d')" and "fresh_key key d"
  shows "\<exists>row run_id op_key a. map_of fs ''task_id'' = Some (JStr (t_task_id row)) \<and> find_task d (t_task_id row) = Some row \<and>
    t_state row = TRunning \<and> map_of fs ''run_id'' = Some (JStr run_id) \<and> lease_current E row run_id fence 2 \<and>
    map_of fs ''operation_idempotency_key'' = Some (JStr op_key) \<and> (\<forall>q \<in> set (actions d). a_operation_key q \<noteq> op_key) \<and>
    actions d' = actions d @ [a] \<and> a_state a = APrepared \<and> a_task_id a = t_task_id row \<and> a_run_id a = run_id \<and>
    a_operation_key a = op_key \<and> a_task_revision a = t_revision row \<and> tasks d' = tasks d"
proof -
  from assms(1) obtain cmd where "run_command E key cmd (prepare_action_op E key fs fence act) d = (Inr res, d')"
    by (auto simp: prepare_action_def checked_returns)
  from fresh_returns [OF this assms(2)] obtain s s' where s: "tx_db s = d" "tick s = 2"
    "prepare_action_op E key fs fence act s = Inr (res, s')" "tasks d' = tasks (tx_db s')" "actions d' = actions (tx_db s')"
    by metis
  from prepare_action_effect [OF s(3)] obtain tid row run_id op_key aid time rcd e where
    p: "map_of fs ''task_id'' = Some (JStr tid)" "find_task d tid = Some row" "map_of fs ''run_id'' = Some (JStr run_id)"
      "lease_current E row run_id fence 2" "t_state row = TRunning" "map_of fs ''operation_idempotency_key'' = Some (JStr op_key)"
      "\<forall>q \<in> set (actions d). a_action_id q \<noteq> aid \<and> a_operation_key q \<noteq> op_key"
    and d': "tx_db s' = (push_event e d)
      \<lparr>actions := actions d @
         [\<lparr>a_action_id = aid, a_marker = marker_of e, a_task_id = tid, a_task_revision = t_revision row, a_run_id = run_id,
           a_operation_key = op_key, a_state = APrepared, a_record = norm (JObj rcd),
           a_provider_operation_id = None, a_provider_evidence_sha256 = None, a_created_at = time, a_updated_at = time\<rparr>]\<rparr>"
    unfolding s(1, 2) by metis
  have "t_task_id row = tid" using find_task_id [OF p(2)] by simp
  with p d' s(4, 5) show ?thesis by auto
qed

theorem prepare_action_needs_lease_witness: "lease_current (at_step 6) task5 run_id ''fence'' 2"
proof -
  have t: "map_of fields6 ''task_id'' = Some (JStr ''t'')" "map_of fields6 ''run_id'' = Some (JStr run_id)"
    by (simp_all add: fields6_def)
  show ?thesis
    using prepare_action_needs_lease [OF run6 [unfolded request6_def perform.simps] sample_fresh(3)]
    by (auto simp: t) (metis sample_found(2) option.inject)
qed

section \<open>Expiry\<close>

text \<open>
  C27. Expiring a lease decides the task: when \<open>expire_lease\<close> returns, the task was leased or running and its lease had expired; it now
  has no lease and needs reconciliation if the caller cannot replay it or an action of the task is dispatched or unknown, has
  failed terminally if no attempt is left, and is ready otherwise; the run it had is expired.
\<close>

theorem expire_lease_outcome:
  assumes "expire_lease E i v replay_safe act key now_arg d = (Inr res, d')" and "fresh_key key d"
  shows "\<exists>row row'. find_task d i = Some row \<and> t_state row \<in> {TLeased, TRunning} \<and> lease_expired E row now_arg 2 \<and>
    find_task d' i = Some row' \<and> lease_columns row' = [None, None, None] \<and> t_current_run_id row' = None \<and>
    t_state row' = (if \<not> replay_safe \<or> (\<exists>a \<in> set (actions d). a_task_id a = i \<and> a_state a \<in> {ADispatched, AUnknown})
      then TNeedsReconciliation else if t_max_attempts row \<le> t_attempt_count row then TFailedTerminal else TReady) \<and>
    (\<forall>q \<in> set (runs d'). t_current_run_id row = Some (r_run_id q) \<and> r_run_id q \<noteq> [] \<longrightarrow>
       r_status q \<in> {RExpired, RCompletedAfterCancel})"
proof -
  from assms(1) obtain cmd where "run_command E key cmd (expire_lease_op E key i v replay_safe act now_arg) d = (Inr res, d')"
    by (auto simp: expire_lease_def)
  from fresh_returns [OF this assms(2)] obtain s s' where s: "tx_db s = d" "tick s = 2"
    "expire_lease_op E key i v replay_safe act now_arg s = Inr (res, s')" "tasks d' = tasks (tx_db s')" "runs d' = runs (tx_db s')"
    by metis
  from expire_lease_effect [OF s(3)] obtain row s1 details where
    row: "find_task d i = Some row" "t_state row \<in> {TLeased, TRunning}" "lease_expired E row now_arg 2" "tx_db s1 = d"
    and t: "transition_in_tx E key row
      (expire_next_state (task_actions_in i {ADispatched, AUnknown} d) replay_safe row) v act details
      (Some RExpired) True False s1 = Inr (res, s')"
    unfolding s(1, 2) by metis
  have "find_task (tx_db s1) i = Some row" using row by simp
  from moved_task [OF t this s(4, 5)] obtain m time where
    f: "find_task d' i = Some (move_task m (v + 1) (expire_next_state (task_actions_in i {ADispatched, AUnknown} d) replay_safe row) time True False row)"
    and r: "runs d' = mark_run row (Some RExpired) time (runs d)"
    using row(4) by metis
  have n: "task_actions_in i {ADispatched, AUnknown} d = 0 \<longleftrightarrow>
      (\<forall>a \<in> set (actions d). \<not> (a_task_id a = i \<and> a_state a \<in> {ADispatched, AUnknown}))"
    by (auto simp: task_actions_in_def count_where_def filter_empty_conv)
  let ?row' = "move_task m (v + 1) (expire_next_state (task_actions_in i {ADispatched, AUnknown} d) replay_safe row) time True False row"
  have st: "t_state ?row' = (if \<not> replay_safe \<or> (\<exists>a \<in> set (actions d). a_task_id a = i \<and> a_state a \<in> {ADispatched, AUnknown})
      then TNeedsReconciliation else if t_max_attempts row \<le> t_attempt_count row then TFailedTerminal else TReady)"
    using n by (auto simp: expire_next_state_def)
  have rs: "\<forall>q \<in> set (runs d'). t_current_run_id row = Some (r_run_id q) \<and> r_run_id q \<noteq> [] \<longrightarrow>
       r_status q \<in> {RExpired, RCompletedAfterCancel}"
  proof (intro ballI impI, elim conjE)
    fix q assume q: "q \<in> set (runs d')" and c: "t_current_run_id row = Some (r_run_id q)" "r_run_id q \<noteq> []"
    then have "q \<in> set (update_where (\<lambda>p. Some (r_run_id p) = t_current_run_id row \<and> r_status p \<noteq> RCompletedAfterCancel)
        (\<lambda>p. p\<lparr>r_status := RExpired, r_updated_at := time\<rparr>) (runs d))"
      by (simp add: r mark_run_def text_set_def)
    then have "(\<exists>p. q = p\<lparr>r_status := RExpired, r_updated_at := time\<rparr>) \<or>
        \<not> (Some (r_run_id q) = t_current_run_id row \<and> r_status q \<noteq> RCompletedAfterCancel)"
      unfolding set_update_where by blast
    then show "r_status q \<in> {RExpired, RCompletedAfterCancel}"
      by (elim disjE exE) (simp, simp only: c(1) HOL.simp_thms insert_iff)
  qed
  show ?thesis
    by (rule exI [of _ row], rule exI [of _ ?row'], intro conjI) (rule row(1-3) f st rs | simp)+
qed

theorem expire_lease_outcome_witness:
  "\<exists>res d' row. expire_lease (at_step 6) ''t'' 4 True ''a'' ''k6'' (Some next_day) db5 = (Inr res, d') \<and>
    find_task d' ''t'' = Some row \<and> t_state row = TReady"
proof -
  obtain res d' where r: "expire_lease (at_step 6) ''t'' 4 True ''a'' ''k6'' (Some next_day) db5 = (Inr res, d')"
    using branch_expires by metis
  have "t_attempt_count task5 = 1" "t_max_attempts task5 = 2" by (simp_all add: task5_def task4_def task3_def task2_def)
  with expire_lease_outcome [OF r sample_fresh(3)] r sample_found(2) show ?thesis by auto
qed

section \<open>Cancellation\<close>

text \<open>
  C14. Cancellation waits for the world: when \<open>confirm_cancellation\<close> returns, cancellation had been requested and no action of the
  task was prepared, dispatched or unknown; the task is now cancelled and holds no lease.
\<close>

theorem confirm_cancellation_outcome:
  assumes "confirm_cancellation E i v act key d = (Inr res, d')" and "fresh_key key d"
  shows "\<exists>row row'. find_task d i = Some row \<and> t_state row = TCancellationRequested \<and>
    (\<forall>a \<in> set (actions d). a_task_id a = i \<longrightarrow> a_state a \<in> {AConfirmed, AFailed, ACompensated}) \<and>
    find_task d' i = Some row' \<and> t_state row' = TCancelled \<and> t_current_run_id row' = None \<and>
    lease_columns row' = [None, None, None]"
proof -
  from assms(1) obtain cmd where "run_command E key cmd (confirm_cancellation_op E key i v act) d = (Inr res, d')"
    by (auto simp: confirm_cancellation_def)
  from fresh_returns [OF this assms(2)] obtain s s' where s: "tx_db s = d" "tick s = 2"
    "confirm_cancellation_op E key i v act s = Inr (res, s')" "tasks d' = tasks (tx_db s')" "runs d' = runs (tx_db s')"
    by metis
  from confirm_cancellation_effect [OF s(3)] obtain row where
    row: "find_task (tx_db s) i = Some row" "t_state row = TCancellationRequested"
      "task_actions_in i {APrepared, ADispatched, AUnknown} d = 0"
    and t: "transition_in_tx E key row TCancelled v act [] (Some RCancelled) True False s = Inr (res, s')"
    unfolding s(1) by metis
  have "a_state a \<in> {AConfirmed, AFailed, ACompensated}" if "a \<in> set (actions d)" "a_task_id a = i" for a
    using row(3) that by (cases "a_state a") (auto simp: task_actions_in_def count_where_def filter_empty_conv)
  moreover from moved_task [OF t row(1) s(4, 5)] obtain m time where
    "find_task d' i = Some (move_task m (v + 1) TCancelled time True False row)" by metis
  ultimately show ?thesis using row(1, 2) s(1) by auto
qed

theorem confirm_cancellation_outcome_witness:
  "\<exists>res d' row. confirm_cancellation (at_step 7) ''t'' 5 ''a'' ''k7'' db6c = (Inr res, d') \<and>
    find_task d' ''t'' = Some row \<and> t_state row = TCancelled"
proof -
  obtain res d' where r: "confirm_cancellation (at_step 7) ''t'' 5 ''a'' ''k7'' db6c = (Inr res, d')"
    using branch_confirmed by metis
  from confirm_cancellation_outcome [OF this sample_fresh(4)] r show ?thesis by auto
qed

section \<open>Results\<close>

text \<open>
  C13. A result counts once and only for the run that holds the task: when \<open>submit_result\<close> returns, the run named is the current run of the
  task and the token given is the one of the run's envelope. The result of a running task ends the lease and sends the task to
  reconciliation if an action of the run is dispatched or unknown, to review if the run completed, and otherwise back
  to ready or, with no attempt left, to failure. The result of a task whose cancellation was requested is only filed with the run.
\<close>

theorem submit_result_outcome:
  assumes "submit_result E res act key d = (Inr out, d')" and "fresh_key key d"
  shows "\<exists>i row run_id run row'. map_of res ''task_id'' = Some (JStr i) \<and> find_task d i = Some row \<and>
    map_of res ''run_id'' = Some (JStr run_id) \<and> t_current_run_id row = Some run_id \<and>
    find_run d run_id = Some run \<and> r_task_id run = i \<and>
    get (r_envelope run) ''lease_fencing_token'' = map_of res ''lease_fencing_token'' \<and> find_task d' i = Some row' \<and>
    (t_state row = TRunning \<and> lease_columns row' = [None, None, None] \<and> t_current_run_id row' = None \<and>
       t_state row' = (if \<exists>a \<in> set (actions d). a_run_id a = run_id \<and> a_state a \<in> {ADispatched, AUnknown} then TNeedsReconciliation
         else if map_of res ''run_status'' = Some (JStr ''completed'') then TReview
         else if t_attempt_count row < t_max_attempts row then TReady else TFailedTerminal) \<or>
     t_state row = TCancellationRequested \<and> t_state row' = TCancellationRequested \<and> lease_columns row' = lease_columns row \<and>
       (\<exists>run'. find_run d' run_id = Some run' \<and> r_status run' = RCompletedAfterCancel \<and> r_result run' = Some (norm (JObj res))))"
proof -
  from assms(1) obtain cmd tid v where t: "map_of res ''task_id'' = Some tid"
    and "run_command E key cmd (submit_result_op E key res tid v act) d = (Inr out, d')"
    by (auto simp: submit_result_def checked_returns bindE_Inr_iff dict_item_def split: option.splits)
  from fresh_returns [OF this(2) assms(2)] obtain s s' where s: "tx_db s = d"
    "submit_result_op E key res tid v act s = Inr (out, s')" "tasks d' = tasks (tx_db s')" "runs d' = runs (tx_db s')"
    by metis
  from submit_result_effect [OF s(2)] obtain i row run_id run fence n time sha where
    r: "tid = JStr i" "find_task d i = Some row" "map_of res ''run_id'' = Some (JStr run_id)" "find_run d run_id = Some run"
      "r_task_id run = i" "t_current_run_id row = Some run_id"
      "get (r_envelope run) ''lease_fencing_token'' = Some fence" "map_of res ''lease_fencing_token'' = Some fence"
    and c: "(t_state row = TRunning \<and>
        record_result E key res i v row run_id time sha act (s\<lparr>tick := n\<rparr>) = Inr (out, s')) \<or>
      (t_state row = TCancellationRequested \<and>
        quarantine_result E key res i row run_id time sha act (s\<lparr>tick := n\<rparr>) = Inr (out, s'))"
    unfolding s(1) by metis
  have ids: "\<And>q. t_task_id (q\<lparr>t_marker := m, t_updated_at := u\<rparr>) = t_task_id q" for m u by simp
  from c show ?thesis
  proof (elim disjE conjE)
    assume a: "t_state row = TRunning" "record_result E key res i v row run_id time sha act (s\<lparr>tick := n\<rparr>) = Inr (out, s')"
    from record_result_effect [OF a(2)] obtain outcome st e where o: "map_of res ''run_status'' = Some outcome"
        "st = result_next_state (run_actions_in run_id {ADispatched, AUnknown} d) (outcome = JStr ''completed'') row"
      and d: "tasks (tx_db s') = update_where (\<lambda>q. t_task_id q = i)
         (\<lambda>r. r\<lparr>t_marker := marker_of e, t_state := st, t_current_run_id := None, t_lease_owner := None,
                t_lease_fencing_token := None, t_lease_expires_at := None, t_updated_at := time\<rparr>) (tasks d)"
      using s(1) by auto
    let ?row' = "row\<lparr>t_marker := marker_of e, t_state := st, t_current_run_id := None, t_lease_owner := None,
                t_lease_fencing_token := None, t_lease_expires_at := None, t_updated_at := time\<rparr>"
    have f: "find_task d' i = Some ?row'" by (rule find_moved_task [OF r(2) trans [OF s(3) d]]) simp
    have z: "run_actions_in run_id {ADispatched, AUnknown} d = 0 \<longleftrightarrow>
        (\<forall>a \<in> set (actions d). \<not> (a_run_id a = run_id \<and> a_state a \<in> {ADispatched, AUnknown}))"
      by (auto simp: run_actions_in_def count_where_def filter_empty_conv)
    have st: "t_state ?row' = (if \<exists>a \<in> set (actions d). a_run_id a = run_id \<and> a_state a \<in> {ADispatched, AUnknown} then TNeedsReconciliation
         else if map_of res ''run_status'' = Some (JStr ''completed'') then TReview
         else if t_attempt_count row < t_max_attempts row then TReady else TFailedTerminal)"
      using z by (auto simp: o result_next_state_def)
    show ?thesis
      by (intro exI conjI, rule t [unfolded r(1)], rule r, rule r, rule r, rule r, rule r, simp only: r, rule f, rule disjI1, intro conjI, rule a, simp add: lease_columns_def, simp, rule st)
  next
    assume a: "t_state row = TCancellationRequested" "quarantine_result E key res i row run_id time sha act (s\<lparr>tick := n\<rparr>) = Inr (out, s')"
    from quarantine_effect [OF a(2)] obtain e where
      d: "tasks (tx_db s') = update_where (\<lambda>q. t_task_id q = i) (\<lambda>r. r\<lparr>t_marker := marker_of e, t_updated_at := time\<rparr>) (tasks d)"
      and rn: "runs (tx_db s') = update_where (\<lambda>q. r_run_id q = run_id)
        (\<lambda>q. q\<lparr>r_status := RCompletedAfterCancel, r_result := Some (norm (JObj res)), r_result_sha256 := Some sha,
                r_updated_at := time\<rparr>) (runs d)"
      using s(1) by auto
    have f: "find_task d' i = Some (row\<lparr>t_marker := marker_of e, t_updated_at := time\<rparr>)"
      by (rule find_moved_task [OF r(2) trans [OF s(3) d]]) simp
    have g: "find_run d' run_id = Some (run\<lparr>r_status := RCompletedAfterCancel, r_result := Some (norm (JObj res)),
        r_result_sha256 := Some sha, r_updated_at := time\<rparr>)"
      using r(4) unfolding find_run_def s(4) rn by (subst find_update_where_same) auto
    show ?thesis
      by (intro exI conjI, rule t [unfolded r(1)], rule r, rule r, rule r, rule r, rule r, simp only: r, rule f, rule disjI2, intro conjI, rule a, simp add: a(1), simp add: lease_columns_def, rule exI, intro conjI, rule g, simp, simp)
  qed
qed

theorem submit_result_outcome_witness:
  "\<exists>res d' row. submit_result (at_step 7) result_fields ''a'' ''k7'' db6c = (Inr res, d') \<and>
    find_task d' ''t'' = Some row \<and> t_state row = TCancellationRequested"
proof -
  obtain res d' where r: "submit_result (at_step 7) result_fields ''a'' ''k7'' db6c = (Inr res, d')"
    using branch_late_result by metis
  have t: "map_of result_fields ''task_id'' = Some (JStr ''t'')" by (simp add: result_fields_def)
  have "find_task db6c ''t'' = Some task6c" by (simp add: find_task_def task6c_def task5_def task4_def task3_def task2_def)
  moreover have "t_state task6c = TCancellationRequested" by (simp add: task6c_def)
  ultimately show ?thesis using submit_result_outcome [OF r sample_fresh(4)] r t by auto
qed

section \<open>Leases\<close>

text \<open>
  C26. A lease is granted under the ceiling: when \<open>lease_task\<close> returns, the task was ready (or expired) with an attempt left, and the
  lease expires after the clock read before the call; the task is now leased to the owner, and one run with a new
  identifier was added, the current run of the task, with the next attempt number.
\<close>

theorem lease_task_outcome:
  assumes "lease_task E i v owner expires_at agent mv msha act key d = (Inr out, d')" and "fresh_key key d"
  shows "\<exists>row row' run expires time. find_task d i = Some row \<and> mk_aggregate_version (t_marker row) = v \<and>
    t_state row \<in> {TReady, TExpired} \<and> t_attempt_count row < t_max_attempts row \<and>
    parse_time expires_at = Inr expires \<and> parse_time (format_time (clock E 0)) = Inr time \<and> \<not> dt_le expires time \<and>
    find_task d' i = Some row' \<and> t_state row' = TLeased \<and> t_attempt_count row' = t_attempt_count row + 1 \<and>
    t_current_run_id row' = Some (r_run_id run) \<and> t_lease_owner row' = Some owner \<and> t_lease_expires_at row' = Some expires_at \<and>
    runs d' = runs d @ [run] \<and> r_run_id run \<notin> r_run_id ` set (runs d) \<and> r_task_id run = i \<and> r_status run = RLeased \<and>
    r_attempt_number run = t_attempt_count row + 1"
proof -
  from assms(1) obtain cmd expires time where t: "parse_time expires_at = Inr expires" "parse_time (format_time (clock E 0)) = Inr time"
      "\<not> dt_le expires time"
    and "run_command E key cmd (lease_task_op E key i v owner expires_at agent mv msha act) d = (Inr out, d')"
    by (auto simp: lease_task_def checked_returns lease_precheck_def bindE_Inr_iff)
  from fresh_returns [OF this(4) assms(2)] obtain s s' where s: "tx_db s = d"
    "lease_task_op E key i v owner expires_at agent mv msha act s = Inr (out, s')" "tasks d' = tasks (tx_db s')" "runs d' = runs (tx_db s')"
    by metis
  from lease_task_effect [OF s(2)] obtain row run_id fence draft digest u e where
    r: "find_task d i = Some row" "mk_aggregate_version (t_marker row) = v"
      "t_state row \<in> {TReady, TExpired}" "t_attempt_count row + 1 \<le> t_max_attempts row" "\<forall>q \<in> set (runs d). r_run_id q \<noteq> run_id"
    and d: "tasks (tx_db s') = update_where (\<lambda>q. t_task_id q = i)
         (\<lambda>r. r\<lparr>t_marker := marker_of e, t_state := TLeased,
                t_attempt_count := t_attempt_count row + 1, t_sha256 := digest, t_current_run_id := Some run_id,
                t_lease_owner := Some owner, t_lease_fencing_token := Some fence,
                t_lease_expires_at := Some expires_at, t_updated_at := u\<rparr>) (tasks d)"
      "runs (tx_db s') = runs d @
         [\<lparr>r_run_id = run_id, r_task_id = i, r_task_revision = t_revision row, r_attempt_number = t_attempt_count row + 1,
           r_status = RLeased, r_envelope = norm (JObj (dict_set ''task_envelope_sha256'' (JStr digest) draft)),
           r_envelope_sha256 = digest, r_result = None, r_result_sha256 = None, r_created_at = u, r_updated_at = u\<rparr>]"
    unfolding s(1) by (elim exE conjE) (rule that, (assumption | simp)+)
  have f: "find_task d' i = Some (row\<lparr>t_marker := marker_of e, t_state := TLeased,
                t_attempt_count := t_attempt_count row + 1, t_sha256 := digest, t_current_run_id := Some run_id,
                t_lease_owner := Some owner, t_lease_fencing_token := Some fence,
                t_lease_expires_at := Some expires_at, t_updated_at := u\<rparr>)"
    by (rule find_moved_task [OF r(1) trans [OF s(3) d(1)]]) simp
  have n: "t_attempt_count row < t_max_attempts row" using r(4) by simp
  let ?run = "\<lparr>r_run_id = run_id, r_task_id = i, r_task_revision = t_revision row, r_attempt_number = t_attempt_count row + 1,
           r_status = RLeased, r_envelope = norm (JObj (dict_set ''task_envelope_sha256'' (JStr digest) draft)),
           r_envelope_sha256 = digest, r_result = None, r_result_sha256 = None, r_created_at = u, r_updated_at = u\<rparr>"
  have rs: "runs d' = runs d @ [?run]" by (rule trans [OF s(4) d(2)])
  have new: "run_id \<notin> r_run_id ` set (runs d)" using r(5) by auto
  show ?thesis
    by (rule exI [of _ row], rule exI, rule exI [of _ ?run], rule exI [of _ expires], rule exI [of _ time])
      (intro conjI, rule r, rule r, rule r, rule n, rule t, rule t, rule t, rule f, simp_all add: rs new)
qed

theorem lease_task_outcome_witness:
  "\<exists>run. runs db4 = runs db3 @ [run] \<and> r_status run = RLeased \<and> r_attempt_number run = 1"
  using lease_task_outcome [OF run4 [unfolded request4_def perform.simps] sample_fresh(1)] by (auto simp: run4_def)

section \<open>Unknown outcomes\<close>

text \<open>
  C15. An unknown outcome stops the task, whoever holds it: when \<open>reconcile_action\<close> records a dispatched action as unknown, the task of
  the action, unless it is final or already waiting for reconciliation, now needs reconciliation and has lost its lease;
  this also drops a requested cancellation.
\<close>

theorem unknown_outcome_stops_task:
  assumes "reconcile_action E x ''unknown'' v act prov ev key d = (Inr out, d')" and "fresh_key key d"
  shows "\<exists>a row row'. find_action d x = Some a \<and> a_state a = ADispatched \<and> find_task d (a_task_id a) = Some row \<and>
    find_task d' (a_task_id a) = Some row' \<and>
    (if task_final row \<or> t_state row = TNeedsReconciliation then row' = row
     else t_state row' = TNeedsReconciliation \<and> lease_columns row' = [None, None, None])"
proof -
  have st: "reconcile_outcome ''unknown'' = Some AUnknown" by (simp add: reconcile_outcome_def)
  from assms(1) obtain cmd where "run_command E key cmd (action_transition_op E key x v {ADispatched} AUnknown act
      (reconcile_details prov ev) ''after_action_acknowledgement'' True) d = (Inr out, d')"
    by (auto simp: reconcile_action_def checked_returns st found_def bindE_Inr_iff action_transition_def)
  from fresh_returns [OF this assms(2)] obtain s s' where s: "tx_db s = d"
    "action_transition_op E key x v {ADispatched} AUnknown act (reconcile_details prov ev) ''after_action_acknowledgement'' True s = Inr (out, s')"
    "tasks d' = tasks (tx_db s')"
    by metis
  from action_transition_effect [OF s(2)] obtain a d1 where
    a: "find_action d x = Some a" "a_state a = ADispatched" and d1: "tasks d1 = tasks d"
    and e: "escalated E key (a_task_id a) act d1 (tx_db s')"
    unfolding s(1) if_True by (elim exE conjE) (rule that, assumption, simp_all)
  from e obtain row where row: "find_task d1 (a_task_id a) = Some row"
    and step: "if t_state row \<in> insert TNeedsReconciliation task_terminal then tx_db s' = d1
      else \<exists>m time. tasks (tx_db s') = update_where (\<lambda>q. t_task_id q = a_task_id a)
          (\<lambda>r. r\<lparr>t_marker := m\<lparr>mk_aggregate_version := mk_aggregate_version (t_marker r) + 1\<rparr>,
             t_state := TNeedsReconciliation, t_lease_owner := None, t_lease_fencing_token := None,
             t_lease_expires_at := None, t_updated_at := time\<rparr>) (tasks d1)"
    unfolding escalated_def by (fastforce split: if_splits)
  have row': "find_task d (a_task_id a) = Some row" using row d1 by (simp add: find_task_def)
  show ?thesis
  proof (cases "t_state row \<in> insert TNeedsReconciliation task_terminal")
    case True
    then have "find_task d' (a_task_id a) = Some row" using step s(3) d1 row' by (simp add: find_task_def)
    moreover have "task_final row \<or> t_state row = TNeedsReconciliation" using True by (auto simp: task_final_def task_terminal_def)
    ultimately show ?thesis using a row' by auto
  next
    case False
    then obtain m time where t: "tasks d' = update_where (\<lambda>q. t_task_id q = a_task_id a)
          (\<lambda>r. r\<lparr>t_marker := m\<lparr>mk_aggregate_version := mk_aggregate_version (t_marker r) + 1\<rparr>,
             t_state := TNeedsReconciliation, t_lease_owner := None, t_lease_fencing_token := None,
             t_lease_expires_at := None, t_updated_at := time\<rparr>) (tasks d)"
      using step s(3) d1 by auto
    have f: "find_task d' (a_task_id a) = Some (row\<lparr>t_marker := m\<lparr>mk_aggregate_version := mk_aggregate_version (t_marker row) + 1\<rparr>,
             t_state := TNeedsReconciliation, t_lease_owner := None, t_lease_fencing_token := None,
             t_lease_expires_at := None, t_updated_at := time\<rparr>)"
      by (rule find_moved_task [OF row' t]) simp
    have open_task: "\<not> (task_final row \<or> t_state row = TNeedsReconciliation)" using False by (auto simp: task_final_def task_terminal_def)
    show ?thesis
      by (rule exI [of _ a], rule exI [of _ row], rule exI)
        (intro conjI, rule a, rule a, rule row', rule f, use open_task in \<open>simp add: lease_columns_def\<close>)
  qed
qed

theorem unknown_outcome_stops_task_witness:
  "\<exists>res d' row. reconcile_action (at_step 8) ''x'' ''unknown'' 2 ''a'' None None ''k8'' db7 = (Inr res, d') \<and>
    find_task d' ''t'' = Some row \<and> t_state row = TNeedsReconciliation"
proof -
  obtain res d' where r: "reconcile_action (at_step 8) ''x'' ''unknown'' 2 ''a'' None None ''k8'' db7 = (Inr res, d')"
    using branch_unknown by metis
  have "find_action db7 ''x'' = Some row7" "a_task_id row7 = ''t''" by (simp_all add: find_action_def row7_def row6_def)
  moreover have "find_task db7 ''t'' = Some task5" by (simp add: find_task_def task5_def task4_def task3_def task2_def)
  moreover have "t_state task5 = TRunning" by (simp add: task5_def)
  ultimately show ?thesis using unknown_outcome_stops_task [OF r sample_fresh(6)] r by (auto simp: task_final_def)
qed

section \<open>Review\<close>

text \<open>
  C28. Acceptance settles every finding: when \<open>review_task\<close> returns with \<open>accepted\<close>, the task was under review, every unresolved finding of
  its current revision has a disposition in the request, and the task is now accepted.
\<close>

theorem acceptance_settles_findings:
  assumes "review_task E i ''accepted'' v review_id finding_ids dispositions act key d = (Inr out, d')" and "fresh_key key d"
  shows "\<exists>row row' q open_findings. find_task d i = Some row \<and> t_state row = TReview \<and>
    find_task_revision d i (t_revision row) = Some q \<and>
    text_elements (get_default (dict_of (tr_record q)) ''unresolved_finding_ids'' (JList [])) = Inr open_findings \<and>
    set open_findings \<subseteq> fst ` set (case dispositions of None \<Rightarrow> [] | Some m \<Rightarrow> m) \<and>
    find_task d' i = Some row' \<and> t_state row' = TAccepted"
proof -
  have st: "review_decision ''accepted'' = Some TAccepted" by (simp add: review_decision_def)
  let ?disp = "case dispositions of None \<Rightarrow> [] | Some m \<Rightarrow> m"
  from assms(1) obtain cmd where "run_command E key cmd (review_task_op E key i TAccepted v review_id finding_ids ?disp act) d = (Inr out, d')"
    by (auto simp: review_task_def checked_returns st found_def bindE_Inr_iff Let_def)
  from fresh_returns [OF this assms(2)] obtain s s' where s: "tx_db s = d"
    "review_task_op E key i TAccepted v review_id finding_ids ?disp act s = Inr (out, s')" "tasks d' = tasks (tx_db s')" "runs d' = runs (tx_db s')"
    by metis
  from review_task_effect [OF s(2)] obtain row q open_findings details where
    r: "find_task (tx_db s) i = Some row" "t_state row = TReview" "find_task_revision (tx_db s) i (t_revision row) = Some q"
      "text_elements (get_default (dict_of (tr_record q)) ''unresolved_finding_ids'' (JList [])) = Inr open_findings"
      "set open_findings \<subseteq> set (map fst ?disp)"
    and t: "transition_in_tx E key row TAccepted v act details None False False s = Inr (out, s')"
    by blast
  from moved_task [OF t r(1) s(3, 4)] obtain m time where
    "find_task d' i = Some (move_task m (v + 1) TAccepted time False False row)" by metis
  moreover have "fst ` set ?disp = set (map fst ?disp)" by simp
  ultimately show ?thesis using r s(1) move_task_simps(3) by metis
qed

theorem acceptance_settles_findings_witness:
  "\<exists>res d' row. review_task (at_step 7) ''t'' ''accepted'' 5 ''r'' [] None ''a'' ''k7'' db6r = (Inr res, d') \<and>
    find_task d' ''t'' = Some row \<and> t_state row = TAccepted"
proof -
  obtain res d' where r: "review_task (at_step 7) ''t'' ''accepted'' 5 ''r'' [] None ''a'' ''k7'' db6r = (Inr res, d')"
    using branch_accepted by metis
  from acceptance_settles_findings [OF this sample_fresh(5)] r show ?thesis by auto
qed

end
