(* ===== verification/Text.thy ===== *)
theory Text
  imports CoreBase "HOL-Library.Product_Lexorder"
begin

text \<open>
  Texts and times as \<open>src/city2core/memory.py\<close> looks at them: \<open>normalize_text\<close> of
  \<open>model.py\<close>, words, counts of words in a text, the search for secrets, the user part of a URI, and the
  arithmetic of timestamps. Characters are those of the first 256 code points, for which \<open>str.isspace\<close> and
  \<open>str.isalnum\<close> are written out.

  What these functions take from large tables or from other programs is the record \<open>library\<close>: Unicode
  compatibility folding, the full-text index of SQLite, random UUIDs, the checks of \<open>urlsplit\<close> on host names and
  the SHA-256 of an encoded text.
\<close>

record library =
  nfkc_casefold :: "string \<Rightarrow> string"
  fts_match :: "fts_row list \<Rightarrow> string \<Rightarrow> string list"
  uuid4 :: "nat \<Rightarrow> string"
  netloc_valid :: "string \<Rightarrow> bool"
  utf8_sha256 :: "string \<Rightarrow> string"

section \<open>Words\<close>

definition py_space :: "char \<Rightarrow> bool" where
  "py_space c = ((of_char c :: nat) \<in> {9, 10, 11, 12, 13, 28, 29, 30, 31, 32, 133, 160})"

text \<open>The class \<open>[^\W_]\<close>: letters, digits and other numbers.\<close>

definition word_char :: "char \<Rightarrow> bool" where
  "word_char c =
     (let n = of_char c :: nat in
      (48 \<le> n \<and> n \<le> 57) \<or> (65 \<le> n \<and> n \<le> 90) \<or> (97 \<le> n \<and> n \<le> 122) \<or>
      n \<in> {170, 178, 179, 181, 185, 186, 188, 189, 190} \<or> (192 \<le> n \<and> n \<noteq> 215 \<and> n \<noteq> 247))"

text \<open>The maximal runs of characters that are no separators, \<open>acc\<close> being the run under way.\<close>

fun runs_of :: "(char \<Rightarrow> bool) \<Rightarrow> string \<Rightarrow> string \<Rightarrow> string list" where
  "runs_of sep acc [] = (if acc = [] then [] else [acc])"
| "runs_of sep acc (c # s) =
     (if sep c then (if acc = [] then [] else [acc]) @ runs_of sep [] s else runs_of sep (acc @ [c]) s)"

text \<open>\<open>value.split()\<close>, \<open>WORD.findall(value)\<close>, \<open>sep.join(parts)\<close>.\<close>

definition split_words :: "string \<Rightarrow> string list" where
  "split_words s = runs_of py_space [] s"

definition find_words :: "string \<Rightarrow> string list" where
  "find_words s = runs_of (\<lambda>c. \<not> word_char c) [] s"

fun join_with :: "string \<Rightarrow> string list \<Rightarrow> string" where
  "join_with sep [] = []"
| "join_with sep [t] = t"
| "join_with sep (t # u # ts) = t @ sep @ join_with sep (u # ts)"

definition normalize_text :: "library \<Rightarrow> string \<Rightarrow> string" where
  "normalize_text L v = join_with '' '' (split_words (nfkc_casefold L v))"

text \<open>\<open>text.count(term)\<close> of a nonempty term.\<close>

function occurrences :: "string \<Rightarrow> string \<Rightarrow> nat" where
  "occurrences t [] = 0"
| "occurrences t (c # s) =
     (if t \<noteq> [] \<and> take (length t) (c # s) = t then Suc (occurrences t (drop (length t - 1) s)) else occurrences t s)"
  by pat_completeness auto
termination
  by (relation "measure (length \<circ> snd)") auto

definition token_count :: "string \<Rightarrow> nat" where
  "token_count v = (length v + 3) div 4"

definition rstrip_space :: "string \<Rightarrow> string" where
  "rstrip_space s = rev (dropWhile py_space (rev s))"

definition strip_space :: "string \<Rightarrow> string" where
  "strip_space s = rstrip_space (dropWhile py_space s)"

lemma rstrip_space_prefix: "\<exists>r. s = rstrip_space s @ r"
proof -
  have "s = rev (takeWhile py_space (rev s) @ dropWhile py_space (rev s))" by simp
  then show ?thesis unfolding rstrip_space_def rev_append by blast
qed

lemma length_rstrip_space: "length (rstrip_space s) \<le> length s"
  by (metis rstrip_space_prefix length_append le_add1)

section \<open>Secrets\<close>

definition private_key_pattern :: string where
  "private_key_pattern = ''(?i)(-----BEGIN [A-Z ]*PRIVATE KEY-----)''"

definition secret_name_pattern :: string where
  "secret_name_pattern =
     ''(?i)^(?:api[_-]?key|access[_-]?token|password|private[_-]?key|mnemonic|recovery[_-]?phrase|seed[_-]?phrase)'' @
     [CHR 0x5C] @ ''s*[:=]''"

text \<open>The suffixes that begin at a word boundary, \<open>\b\<close>.\<close>

fun boundary_suffixes :: "bool \<Rightarrow> string \<Rightarrow> string list" where
  "boundary_suffixes in_word [] = (if in_word then [[]] else [])"
| "boundary_suffixes in_word (c # s) =
     (let w = word_char c \<or> c = CHR ''_'' in (if w \<noteq> in_word then [c # s] else []) @ boundary_suffixes w s)"

fun some_match :: "string \<Rightarrow> string list \<Rightarrow> bool result" where
  "some_match pat [] = Inr False"
| "some_match pat (s # ss) = bindE (re_search pat s) (\<lambda>b. if b then Inr True else some_match pat ss)"

text \<open>\<open>SECRET_CONTENT.search(value)\<close>.\<close>

definition secret_content :: "string \<Rightarrow> bool result" where
  "secret_content v =
     bindE (re_search private_key_pattern v) (\<lambda>b.
     if b then Inr True else some_match secret_name_pattern (boundary_suffixes False v))"

definition secret_metadata_pattern :: string where
  "secret_metadata_pattern =
     ''(?i)(^|[._-])(api[_-]?key|access[_-]?token|password|private[_-]?key|recovery[_-]?phrase|secret|seed|mnemonic)([._-]|$)''"

fun reject_secret_metadata :: "json \<Rightarrow> unit result" where
  "reject_secret_metadata (JObj d) =
     forE (\<lambda>kv. bindE (re_search secret_metadata_pattern (fst kv)) (\<lambda>found.
       if found then Inl (CoreError ''secret-shaped memory metadata denied'')
       else reject_secret_metadata (snd kv))) d"
| "reject_secret_metadata (JList xs) = forE reject_secret_metadata xs"
| "reject_secret_metadata _ = Inr ()"

section \<open>URIs\<close>

definition scheme_char :: "char \<Rightarrow> bool" where
  "scheme_char c =
     (is_digit c \<or> (CHR ''a'' \<le> c \<and> c \<le> CHR ''z'') \<or> (CHR ''A'' \<le> c \<and> c \<le> CHR ''Z'') \<or> c \<in> set ''+-.'')"

text \<open>The network location that \<open>urlsplit\<close> finds: leading blanks and control characters, tabs and line ends are
  dropped, then the scheme; none when no \<open>//\<close> follows.\<close>

definition without_scheme :: "string \<Rightarrow> string" where
  "without_scheme u =
     (let s = takeWhile (\<lambda>c. c \<noteq> CHR '':'') u in
      if s \<noteq> u \<and> s \<noteq> [] \<and> scheme_char (hd s) \<and> \<not> is_digit (hd s) \<and> hd s \<notin> set ''+-.'' \<and> list_all scheme_char s
      then drop (Suc (length s)) u else u)"

definition url_netloc :: "string \<Rightarrow> string option" where
  "url_netloc uri =
     (let u = without_scheme (filter (\<lambda>c. c \<notin> {CHR 0x09, CHR 0x0A, CHR 0x0D})
                (dropWhile (\<lambda>c. (of_char c :: nat) \<le> 32) uri))
      in if take 2 u = ''//'' then Some (takeWhile (\<lambda>c. c \<notin> set ''/?#'') (drop 2 u)) else None)"

text \<open>\<open>urlsplit\<close> may raise; then whether \<open>username\<close> or \<open>password\<close> is not \<open>None\<close>.\<close>

definition url_has_user :: "library \<Rightarrow> string \<Rightarrow> bool result" where
  "url_has_user L uri = (case url_netloc uri of
      None \<Rightarrow> Inr False
    | Some n \<Rightarrow> bindE (guardE (netloc_valid L n) (ValueError ''Invalid URL'')) (\<lambda>_. Inr (CHR ''@'' \<in> set n)))"

section \<open>Times\<close>

text \<open>Microseconds since 1970.\<close>

definition dt_ordinal :: "datetime \<Rightarrow> int" where
  "dt_ordinal t =
     (let y = dt_year t - 1 in
      int (365 * y + y div 4 + y div 400 + sum_list (map (days_in_month (dt_year t)) [1..<dt_month t]) + dt_day t) -
      int (y div 100))"

definition dt_micros :: "datetime \<Rightarrow> int" where
  "dt_micros t =
     ((((dt_ordinal t - 719163) * 24 + int (dt_hour t)) * 60 + int (dt_minute t)) * 60 + int (dt_second t)) * 1000000 +
     int (dt_micro t)"

definition time_le :: "string \<Rightarrow> string \<Rightarrow> bool result" where
  "time_le a b = bindE (parse_time a) (\<lambda>x. bindE (parse_time b) (\<lambda>y. Inr (dt_micros x \<le> dt_micros y)))"

text \<open>\<open>format(n, "016d")\<close>.\<close>

definition int_text :: "int \<Rightarrow> string" where
  "int_text i = (if i < 0 then ''-'' else []) @ map digit_char (dec_digits (nat \<bar>i\<bar>))"

definition padded_int :: "nat \<Rightarrow> int \<Rightarrow> string" where
  "padded_int w i =
     (let sign = (if i < 0 then ''-'' else []); ds = int_text \<bar>i\<bar>
      in sign @ replicate (w - length sign - length ds) (CHR ''0'') @ ds)"

text \<open>\<open>int(parsed.timestamp() * 1_000_000)\<close>: two roundings to a double, then the fraction is cut off.\<close>

definition timestamp_micros :: "datetime \<Rightarrow> int" where
  "timestamp_micros t =
     (let m = dt_micros t; s = nearest_double (nat \<bar>m\<bar>) 1000000;
          p = nearest_double (fst s * 1000000) (snd s)
      in sgn m * int (fst p div snd p))"

definition invert_timestamp :: "string \<Rightarrow> string result" where
  "invert_timestamp v =
     bindE (parse_time v) (\<lambda>t. Inr (padded_int 16 (9999999999999999 - timestamp_micros t)))"

text \<open>\<open>format(Decimal(units) / Decimal(1_000_000), ".6f")\<close>.\<close>

definition format_score :: "nat \<Rightarrow> string" where
  "format_score units = int_text (int (units div 1000000)) @ ''.'' @ pad 6 (units mod 1000000)"

end
