(* ===== verification/Memory.thy ===== *)
theory Memory
  imports Text Tasks
begin

text \<open>
  The lifecycle of memories in \<open>src/city2core/memory.py\<close>: a record is validated and stored as a
  candidate, reviewed against its evidence, becomes stale or superseded and may be revalidated. Accepted
  records, and only those, are in the full-text index.

  Records are dictionaries that \<open>memory.schema.json\<close> has accepted; reading a text where the schema allows
  another type is a \<open>TypeError\<close> here. Where the code compares tuples of texts after sorting, so does the model.
\<close>

section \<open>Constants\<close>

definition sensitivity_rank :: "string \<Rightarrow> nat option" where
  "sensitivity_rank =
     map_of [(''public'', 0), (''internal'', 1), (''confidential'', 2), (''restricted'', 3)]"

definition type_priority :: "string \<Rightarrow> int option" where
  "type_priority = map_of
     [(''decision'', 10), (''preference'', 20), (''feedback'', 30), (''procedure'', 40), (''fact'', 50),
      (''reference'', 60), (''outcome'', 70), (''hypothesis'', 80)]"

definition section_order :: "string list" where
  "section_order =
     [''constitution'', ''task_envelope'', ''role_authority'', ''project_decisions'', ''procedures'', ''knowledge'',
      ''task_working'']"

definition critical_fact_classes :: "string list" where
  "critical_fact_classes = [''credential_state'', ''production_state'', ''security_control'', ''service_health'']"

definition independence_dimensions :: "string list" where
  "independence_dimensions =
     [''different_model'', ''different_provider'', ''no_maker_private_memory'', ''no_shared_write_credential'',
      ''separate_identity'', ''separate_session'']"

section \<open>Reading a record\<close>

definition text_item :: "string dict \<Rightarrow> string \<Rightarrow> string result" where
  "text_item d k = bindE (dict_item d k) as_str"

definition texts_item :: "string dict \<Rightarrow> string \<Rightarrow> string list result" where
  "texts_item d k = bindE (dict_item d k) (\<lambda>v. bindE (as_list v) (mapE as_str))"

definition as_dict :: "json \<Rightarrow> string dict result" where
  "as_dict v = (case v of JObj d \<Rightarrow> Inr d | _ \<Rightarrow> Inl (TypeError ''expected an object''))"

text \<open>\<open>record["evidence_refs"]\<close>.\<close>

definition sources_of :: "string dict \<Rightarrow> string dict list result" where
  "sources_of record = bindE (dict_item record ''evidence_refs'') (\<lambda>v. bindE (as_list v) (mapE as_dict))"

definition text_get :: "string dict \<Rightarrow> string \<Rightarrow> string result" where
  "text_get d k = (case map_of d k of None \<Rightarrow> Inr [] | Some v \<Rightarrow> as_str v)"

definition source_parts :: "string dict \<Rightarrow> string list result" where
  "source_parts source = mapE (text_get source) [''authoritative_owner'', ''uri'', ''path'', ''source_revision'']"

definition source_text :: "library \<Rightarrow> string dict \<Rightarrow> string result" where
  "source_text L record =
     bindE (sources_of record) (\<lambda>srcs. bindE (mapE source_parts srcs) (\<lambda>ps.
     Inr (normalize_text L (join_with '' '' (concat ps)))))"

definition candidate_profile :: "string dict \<Rightarrow> string dict" where
  "candidate_profile record = dict_without [''aggregate_version'', ''created_at'', ''memory_id'', ''review_state''] record"

fun max_text :: "string \<Rightarrow> string list \<Rightarrow> string" where
  "max_text a [] = a"
| "max_text a (b # ts) = max_text (if a < b then b else a) ts"

definition max_observed :: "string dict \<Rightarrow> string result" where
  "max_observed record =
     bindE (text_item record ''created_at'') (\<lambda>created.
     bindE (bindE (sources_of record) (mapE (\<lambda>s. text_item s ''observed_at''))) (\<lambda>ts.
     Inr (case ts of [] \<Rightarrow> created | t # r \<Rightarrow> max_text t r)))"

section \<open>Validation\<close>

definition check_derivation :: "string dict \<Rightarrow> unit result" where
  "check_derivation source =
     bindE (text_item source ''relationship'') (\<lambda>r.
     guardE (r = ''derived_from'' \<longrightarrow> dict_has source ''derivation_method'' \<and> dict_has source ''derivation_version'')
       (CoreError ''derived evidence requires method and version''))"

definition check_source_uri :: "library \<Rightarrow> string dict \<Rightarrow> unit result" where
  "check_source_uri L source =
     bindE (text_item source ''uri'') (\<lambda>u. bindE (url_has_user L u) (\<lambda>b.
     guardE (\<not> b) (CoreError ''evidence URI must not contain user information'')))"

text \<open>The last check: a critical fact is due for revalidation within a day of the latest look at its
  evidence.\<close>

definition check_critical :: "string dict \<Rightarrow> unit result" where
  "check_critical record =
     bindE (text_item record ''fact_class'') (\<lambda>fact_class.
     if fact_class \<notin> set critical_fact_classes then Inr ()
     else
       bindE (bindE (text_item record ''valid_from'') parse_time) (\<lambda>valid_from.
       bindE (bindE (sources_of record) (mapE (\<lambda>s. bindE (text_item s ''revocation_checked_at'') parse_time))) (\<lambda>checked.
       bindE (bindE (text_item record ''revalidate_at'') parse_time) (\<lambda>revalidate_at.
       guardE (dt_micros revalidate_at - Max (set (map dt_micros (valid_from # checked))) \<le> 86400 * 1000000)
         (CoreError ''critical memory revalidation SLO exceeds 24 hours'')))))"

definition validate_memory :: "env \<Rightarrow> library \<Rightarrow> string dict \<Rightarrow> unit result" where
  "validate_memory E L record =
     bindE (validate E (JObj record) ''memory.schema.json'') (\<lambda>_.
     bindE (text_item record ''type'') (\<lambda>type.
     bindE (sources_of record) (\<lambda>srcs.
     bindE (guardE (type = ''hypothesis'' \<or> srcs \<noteq> []) (CoreError ''non-hypothesis memory requires evidence'')) (\<lambda>_.
     bindE (forE check_derivation srcs) (\<lambda>_.
     bindE (bindE (text_item record ''statement'') secret_content) (\<lambda>secret.
     bindE (guardE (\<not> secret) (CoreError ''secret-shaped content is prohibited from memory'')) (\<lambda>_.
     bindE (reject_secret_metadata (JObj record)) (\<lambda>_.
     bindE (forE (check_source_uri L) srcs) (\<lambda>_.
     bindE (text_item record ''revalidate_at'') (\<lambda>revalidate_at.
     bindE (parse_time revalidate_at) (\<lambda>ra.
     bindE (bindE (text_item record ''valid_from'') parse_time) (\<lambda>vf.
     bindE (guardE (dt_micros vf \<le> dt_micros ra) (CoreError ''memory revalidation cannot precede validity'')) (\<lambda>_.
     check_critical record)))))))))))))"

section \<open>Rows\<close>

definition find_memory :: "db \<Rightarrow> string \<Rightarrow> memory_row option" where
  "find_memory d i = List.find (\<lambda>r. m_memory_id r = i) (memory_records d)"

definition memory_row :: "string \<Rightarrow> (txs, memory_row) tx" where
  "memory_row i = tbind (select (\<lambda>d. find_memory d i)) (\<lambda>r. tlift (found (CoreError ''unknown memory'') r))"

definition memory_check :: "memory_row \<Rightarrow> bool" where
  "memory_check r =
     (marker_check (m_marker r) \<and> type_priority (m_type r) \<noteq> None \<and> length (m_candidate_sha256 r) = 64 \<and>
      length (m_record_sha256 r) = 64 \<and> sensitivity_rank (m_sensitivity r) \<noteq> None)"

definition insert_memory :: "memory_row \<Rightarrow> db \<Rightarrow> db result" where
  "insert_memory r d =
     bindE (sql (memory_check r \<and> (\<forall>q \<in> set (memory_records d). m_memory_id q \<noteq> m_memory_id r \<and>
         \<not> (m_scope q = m_scope r \<and> m_candidate_sha256 q = m_candidate_sha256 r))) ''memory_records'' d) (\<lambda>d.
     Inr (d\<lparr>memory_records := memory_records d @ [r]\<rparr>))"

definition update_memory :: "string \<Rightarrow> (memory_row \<Rightarrow> memory_row) \<Rightarrow> db \<Rightarrow> db result" where
  "update_memory i f d =
     bindE (sql (\<forall>q \<in> set (memory_records d). m_memory_id q = i \<longrightarrow> memory_check (f q)) ''memory_records'' d) (\<lambda>d.
     Inr (d\<lparr>memory_records := update_where (\<lambda>q. m_memory_id q = i) f (memory_records d)\<rparr>))"

definition insert_memory_review :: "memory_review_row \<Rightarrow> db \<Rightarrow> db result" where
  "insert_memory_review r d =
     bindE (sql (mr_decision r \<in> {''accepted'', ''rejected'', ''quarantined''} \<and> length (mr_source_check_sha256 r) = 64 \<and>
         (\<exists>q \<in> set (memory_records d). m_memory_id q = mr_memory_id r) \<and>
         (\<forall>q \<in> set (memory_reviews d). mr_review_id q \<noteq> mr_review_id r)) ''memory_reviews'' d) (\<lambda>d.
     Inr (d\<lparr>memory_reviews := memory_reviews d @ [r]\<rparr>))"

definition insert_memory_conflict :: "memory_conflict_row \<Rightarrow> db \<Rightarrow> db result" where
  "insert_memory_conflict r d =
     bindE (sql (cf_state r \<in> {''open'', ''resolved''} \<and>
         (\<forall>q \<in> set (memory_conflicts d). cf_conflict_id q \<noteq> cf_conflict_id r)) ''memory_conflicts'' d) (\<lambda>d.
     Inr (d\<lparr>memory_conflicts := memory_conflicts d @ [r]\<rparr>))"

definition delete_fts :: "string \<Rightarrow> db \<Rightarrow> db" where
  "delete_fts i d = d\<lparr>memory_fts := filter (\<lambda>r. f_memory_id r \<noteq> i) (memory_fts d)\<rparr>"

definition uuid4_text :: "library \<Rightarrow> (txs, string) tx" where
  "uuid4_text L s = Inr (uuid4 L (tick s), s\<lparr>tick := Suc (tick s)\<rparr>)"

text \<open>\<open>_insert_projection\<close>, \<open>_update_projection\<close>, \<open>_index_record\<close>.\<close>

definition nullable_text :: "string dict \<Rightarrow> string \<Rightarrow> string option result" where
  "nullable_text d k = (case map_of d k of
      None \<Rightarrow> Inr None
    | Some v \<Rightarrow> (case v of JNull \<Rightarrow> Inr None | _ \<Rightarrow> bindE (bind_text v) (\<lambda>s. Inr (Some s))))"

definition projection_row :: "env \<Rightarrow> library \<Rightarrow> string dict \<Rightarrow> string \<Rightarrow> event_marker \<Rightarrow> string \<Rightarrow> memory_row result" where
  "projection_row E L record candidate_sha marker now =
     bindE (text_item record ''memory_id'') (\<lambda>memory_id.
     bindE (text_item record ''scope'') (\<lambda>scope.
     bindE (text_item record ''type'') (\<lambda>type.
     bindE (sha256_json E (JObj record)) (\<lambda>record_sha.
     bindE (text_item record ''statement'') (\<lambda>statement.
     bindE (texts_item record ''labels'') (\<lambda>labels.
     bindE (source_text L record) (\<lambda>source.
     bindE (canonical (JObj record)) (\<lambda>record_json.
     bindE (text_item record ''created_by'') (\<lambda>created_by.
     bindE (text_item record ''revalidate_at'') (\<lambda>revalidate_at.
     bindE (text_item record ''valid_from'') (\<lambda>valid_from.
     bindE (nullable_text record ''valid_until'') (\<lambda>valid_until.
     bindE (text_item record ''sensitivity'') (\<lambda>sensitivity.
     bindE (text_item record ''created_at'') (\<lambda>created_at.
     Inr \<lparr>m_memory_id = memory_id, m_marker = marker\<lparr>mk_aggregate_version := 1\<rparr>, m_scope = scope, m_type = type,
          m_review_state = MCandidate, m_candidate_sha256 = candidate_sha, m_record_sha256 = record_sha,
          m_statement = statement, m_labels_text = normalize_text L (join_with '' '' labels), m_source_text = source,
          m_record = record_json, m_created_by = created_by, m_reviewed_by = None, m_accepted_at = None,
          m_stale_reason = None, m_revalidate_at = revalidate_at, m_valid_from = valid_from,
          m_valid_until = valid_until, m_sensitivity = sensitivity, m_created_at = created_at,
          m_updated_at = now\<rparr>))))))))))))))"

definition coalesce :: "'a option \<Rightarrow> 'a option \<Rightarrow> 'a option" where
  "coalesce a b = (case a of None \<Rightarrow> b | Some x \<Rightarrow> Some x)"

definition memory_state_of :: "string \<Rightarrow> memory_state option" where
  "memory_state_of s = List.find (\<lambda>m. memory_state_text m = s)
     [MCandidate, MAccepted, MRejected, MStale, MSuperseded, MQuarantined]"

definition update_projection ::
  "env \<Rightarrow> string dict \<Rightarrow> event_marker \<Rightarrow> string \<Rightarrow> string option \<Rightarrow> string option \<Rightarrow> string option \<Rightarrow> (txs, unit) tx" where
  "update_projection E record marker now reviewed_by accepted_at stale_reason =
     tbind (tlift (bindE (dict_item record ''aggregate_version'') bind_int)) (\<lambda>version.
     tbind (tlift (bindE (text_item record ''review_state'')
        (\<lambda>s. found (SqlError ''review_state'') (memory_state_of s)))) (\<lambda>state.
     tbind (tlift (sha256_json E (JObj record))) (\<lambda>record_sha.
     tbind (tlift (canonical (JObj record))) (\<lambda>record_json.
     tbind (tlift (text_item record ''revalidate_at'')) (\<lambda>revalidate_at.
     tbind (tlift (nullable_text record ''valid_until'')) (\<lambda>valid_until.
     tbind (tlift (text_item record ''memory_id'')) (\<lambda>memory_id.
     execute (update_memory memory_id (\<lambda>r. r\<lparr>
       m_marker := marker\<lparr>mk_aggregate_version := version\<rparr>, m_review_state := state,
       m_record_sha256 := record_sha, m_record := record_json,
       m_reviewed_by := coalesce reviewed_by (m_reviewed_by r), m_accepted_at := coalesce accepted_at (m_accepted_at r),
       m_stale_reason := stale_reason, m_revalidate_at := revalidate_at, m_valid_until := valid_until,
       m_updated_at := now\<rparr>)))))))))"

definition fts_entry :: "library \<Rightarrow> string dict \<Rightarrow> fts_row result" where
  "fts_entry L record =
     bindE (text_item record ''memory_id'') (\<lambda>memory_id.
     bindE (text_item record ''statement'') (\<lambda>statement.
     bindE (texts_item record ''labels'') (\<lambda>labels.
     bindE (source_text L record) (\<lambda>source.
     Inr \<lparr>f_memory_id = memory_id, f_statement = normalize_text L statement,
          f_labels = normalize_text L (join_with '' '' labels), f_source_metadata = source\<rparr>))))"

definition index_record :: "library \<Rightarrow> string dict \<Rightarrow> (txs, unit) tx" where
  "index_record L record =
     tbind (tlift (fts_entry L record)) (\<lambda>row.
     execute (\<lambda>d. Inr (delete_fts (f_memory_id row) d\<lparr>memory_fts := memory_fts (delete_fts (f_memory_id row) d) @ [row]\<rparr>)))"

end
