(* ===== verification/MemoryOps.thy ===== *)
theory MemoryOps
  imports Memory
begin

text \<open>
  The commands of \<open>MemoryService\<close> that change memories: creation of a candidate, its review with the
  search for conflicts and the superseding of older memories, staleness, revalidation, and the two sweeps that mark
  several memories stale, one command each.
\<close>

section \<open>Candidates\<close>

definition candidate_required :: "string list" where
  "candidate_required =
     [''scope'', ''type'', ''statement'', ''evidence_refs'', ''asserted_by'', ''owner'', ''valid_from'', ''fact_class'',
      ''revalidation_policy'', ''revalidate_at'', ''confidence'', ''sensitivity'', ''labels'']"

definition candidate_record :: "string dict \<Rightarrow> string \<Rightarrow> string \<Rightarrow> string \<Rightarrow> string dict result" where
  "candidate_record fs act now memory_id =
     bindE (pick fs [''scope'', ''type'', ''statement'', ''evidence_refs'', ''asserted_by'', ''owner'']) (\<lambda>p1.
     bindE (pick fs [''valid_from'', ''fact_class'', ''revalidation_policy'', ''revalidate_at'', ''confidence'',
        ''sensitivity'']) (\<lambda>p2.
     bindE (pick fs [''labels'']) (\<lambda>p3.
     Inr ([(''schema_version'', JStr ''city2.memory/v1''), (''memory_id'', JStr memory_id),
           (''aggregate_version'', JInt 1)] @ p1 @
          [(''created_by'', JStr act), (''created_at'', get_default fs ''created_at'' (JStr now))] @ p2 @
          [(''review_state'', JStr ''candidate''), (''supersedes'', get_default fs ''supersedes'' (JList []))] @ p3 @
          (case map_of fs ''valid_until'' of None \<Rightarrow> [] | Some v \<Rightarrow> [(''valid_until'', v)])))))"

definition store_candidate ::
  "env \<Rightarrow> library \<Rightarrow> string \<Rightarrow> string \<Rightarrow> string dict \<Rightarrow> string \<Rightarrow> string \<Rightarrow> string \<Rightarrow> string \<Rightarrow> (txs, json) tx" where
  "store_candidate E L key act record memory_id scope candidate_sha now =
     tbind (tlift (sha256_json E (JObj record))) (\<lambda>record_sha.
     tbind (tlift (dict_item record ''type'')) (\<lambda>type.
     tbind (tlift (text_item record ''sensitivity'')) (\<lambda>sens.
     tbind (append_event E key
        \<lparr>aggregate_type = ''memory'', aggregate_id = memory_id, event_type = ''memory.created'',
         aggregate_version = 1, actor = act,
         payload = JObj [(''candidate_sha256'', JStr candidate_sha), (''record_sha256'', JStr record_sha),
           (''scope'', JStr scope), (''type'', type)],
         sensitivity = sens, occurred_at = None\<rparr>) (\<lambda>marker.
     tbind (tlift (projection_row E L record candidate_sha marker now)) (\<lambda>row.
     tbind (execute (insert_memory row)) (\<lambda>_.
     tbind (projection_updated E) (\<lambda>_.
     tret (JObj record))))))))"

definition create_candidate_op :: "env \<Rightarrow> library \<Rightarrow> string \<Rightarrow> string dict \<Rightarrow> string \<Rightarrow> (txs, json) tx" where
  "create_candidate_op E L key fs act =
     tbind (utc_now E) (\<lambda>now.
     tbind (mint E ''memory'') (\<lambda>memory_id.
     tbind (tlift (candidate_record fs act now memory_id)) (\<lambda>record.
     tbind (tlift (validate_memory E L record)) (\<lambda>_.
     tbind (tlift (sha256_json E (JObj (candidate_profile record)))) (\<lambda>candidate_sha.
     tbind (tlift (text_item record ''scope'')) (\<lambda>scope.
     tbind (select (\<lambda>d. List.find (\<lambda>r. m_scope r = scope \<and> m_candidate_sha256 r = candidate_sha) (memory_records d))) (\<lambda>existing.
     case existing of
       Some row \<Rightarrow> tret (m_record row)
     | None \<Rightarrow> store_candidate E L key act record memory_id scope candidate_sha now)))))))"

definition create_candidate :: "env \<Rightarrow> library \<Rightarrow> string dict \<Rightarrow> string \<Rightarrow> string \<Rightarrow> call" where
  "create_candidate E L fs act key =
     checked (guardE (list_all (dict_has fs) candidate_required) (CoreError ''memory candidate missing fields'')) (\<lambda>_.
     run_command E key
       (JObj [(''command'', JStr ''create_memory_candidate''), (''fields'', JObj fs), (''actor'', JStr act)])
       (create_candidate_op E L key fs act))"

section \<open>Review\<close>

definition source_facts :: "string dict \<Rightarrow> (string \<times> string \<times> string) result" where
  "source_facts s =
     bindE (text_item s ''uri'') (\<lambda>u. bindE (text_item s ''content_sha256'') (\<lambda>h.
     bindE (text_item s ''validity_status'') (\<lambda>v. Inr (u, h, v))))"

definition verify_source_checks :: "string dict \<Rightarrow> string dict list \<Rightarrow> unit result" where
  "verify_source_checks record checks =
     bindE (bindE (sources_of record) (mapE source_facts)) (\<lambda>expected.
     bindE (mapE source_facts checks) (\<lambda>actual.
     guardE (sort actual = sort expected \<and> (\<forall>(u, h, v) \<in> set actual. v = ''current''))
       (CoreError ''source checks do not prove every evidence reference current'')))"

text \<open>One row of the search: of the same class, sharing a label, not superseded by the record, saying something
  else. The loop stops at the first conflict.\<close>

definition conflicts_with :: "library \<Rightarrow> string dict \<Rightarrow> memory_row \<Rightarrow> bool result" where
  "conflicts_with L record row =
     (let other = dict_of (m_record row) in
     bindE (text_item other ''fact_class'') (\<lambda>c.
     bindE (text_item record ''fact_class'') (\<lambda>c'.
     if c \<noteq> c' then Inr False
     else
       bindE (texts_item record ''labels'') (\<lambda>ls. bindE (texts_item other ''labels'') (\<lambda>ls'.
       if set ls \<inter> set ls' = {} then Inr False
       else
         bindE (texts_item record ''supersedes'') (\<lambda>ids.
         if m_memory_id row \<in> set ids then Inr False
         else
           bindE (text_item other ''statement'') (\<lambda>s. bindE (text_item record ''statement'') (\<lambda>s'.
           Inr (normalize_text L s \<noteq> normalize_text L s')))))))))"

fun first_conflict :: "library \<Rightarrow> string dict \<Rightarrow> memory_row list \<Rightarrow> memory_row option result" where
  "first_conflict L record [] = Inr None"
| "first_conflict L record (r # rs) =
     bindE (conflicts_with L record r) (\<lambda>b. if b then Inr (Some r) else first_conflict L record rs)"

definition find_conflict :: "library \<Rightarrow> string dict \<Rightarrow> db \<Rightarrow> memory_row option result" where
  "find_conflict L record d =
     bindE (text_item record ''type'') (\<lambda>type.
     if type \<noteq> ''fact'' then Inr None
     else bindE (text_item record ''scope'') (\<lambda>scope.
       first_conflict L record
         (filter (\<lambda>r. m_scope r = scope \<and> m_type r = ''fact'' \<and> m_review_state r = MAccepted) (memory_records d))))"

definition begins_with :: "string \<Rightarrow> string \<Rightarrow> bool" where
  "begins_with p s = (take (length p) s = p)"

definition reviewer_allowed :: "string dict \<Rightarrow> string \<Rightarrow> string \<Rightarrow> unit result" where
  "reviewer_allowed record decision reviewer =
     bindE (text_item record ''created_by'') (\<lambda>created_by.
     bindE (guardE (\<not> (begins_with ''agent:'' created_by \<and> created_by = reviewer))
       (CoreError ''an agent cannot approve its own memory candidate'')) (\<lambda>_.
     bindE (text_item record ''scope'') (\<lambda>scope.
     guardE (\<not> (scope = ''company'' \<and> decision = ''accepted'' \<and> reviewer \<noteq> ''human:chad''))
       (CoreError ''company memory acceptance requires human:chad''))))"

definition feedback_attributed :: "string dict \<Rightarrow> unit result" where
  "feedback_attributed record =
     bindE (text_item record ''type'') (\<lambda>type.
     if type \<noteq> ''feedback'' then Inr ()
     else
       bindE (text_item record ''asserted_by'') (\<lambda>by.
       bindE (bindE (sources_of record) (mapE (\<lambda>s. text_item s ''relationship''))) (\<lambda>rs.
       guardE (begins_with ''human:'' by \<and> ''asserted_by'' \<in> set rs)
         (CoreError ''feedback requires an attributable human source''))))"

text \<open>The state that the decision \<open>accepted\<close> leads to; a conflict is filed and the candidate quarantined.\<close>

definition accept_or_quarantine :: "env \<Rightarrow> library \<Rightarrow> string \<Rightarrow> string dict \<Rightarrow> string dict list \<Rightarrow> (txs, string) tx" where
  "accept_or_quarantine E L memory_id record source_checks =
     tbind (tlift (verify_source_checks record source_checks)) (\<lambda>_.
     tbind (tlift (feedback_attributed record)) (\<lambda>_.
     tbind (select (find_conflict L record)) (\<lambda>r.
     tbind (tlift r) (\<lambda>conflict.
     case conflict of
       None \<Rightarrow> tret ''accepted''
     | Some row \<Rightarrow>
         tbind (uuid4_text L) (\<lambda>u.
         tbind (tlift (text_item record ''scope'')) (\<lambda>scope.
         tbind (tlift (text_item record ''fact_class'')) (\<lambda>fact_class.
         tbind (tlift (canonical (JList (map JStr (sort [memory_id, m_memory_id row]))))) (\<lambda>ids.
         tbind (utc_now E) (\<lambda>now.
         tbind (execute (insert_memory_conflict
            \<lparr>cf_conflict_id = ''cnf_'' @ u, cf_scope = scope, cf_fact_class = fact_class, cf_memory_ids = ids,
             cf_state = ''open'', cf_created_at = now\<rparr>)) (\<lambda>_.
         tret ''quarantined''))))))))))"

text \<open>One turn of the loop in \<open>_supersede_in_tx\<close>.\<close>

definition supersede_one :: "env \<Rightarrow> string \<Rightarrow> string dict \<Rightarrow> string \<Rightarrow> string \<Rightarrow> string \<Rightarrow> (txs, unit) tx" where
  "supersede_one E key record act now old_id =
     tbind (memory_row old_id) (\<lambda>old.
     tbind (tlift (text_item record ''scope'')) (\<lambda>scope.
     tbind (tguard (m_review_state old = MAccepted \<and> m_scope old = scope)
        (CoreError ''superseded memory must be accepted in the same scope'')) (\<lambda>_.
     (let old_record = dict_merge (dict_of (m_record old))
            [(''aggregate_version'', JInt (mk_aggregate_version (m_marker old) + 1)), (''review_state'', JStr ''superseded'')] in
     tbind (tlift (dict_item record ''memory_id'')) (\<lambda>by.
     tbind (tlift (sha256_json E (JObj old_record))) (\<lambda>record_sha.
     tbind (tlift (text_item old_record ''sensitivity'')) (\<lambda>sens.
     tbind (append_event E key
        \<lparr>aggregate_type = ''memory'', aggregate_id = old_id, event_type = ''memory.superseded'',
         aggregate_version = mk_aggregate_version (m_marker old) + 1, actor = act,
         payload = JObj [(''superseded_by'', by), (''record_sha256'', JStr record_sha)],
         sensitivity = sens, occurred_at = None\<rparr>) (\<lambda>marker.
     tbind (update_projection E old_record marker now None None None) (\<lambda>_.
     execute (\<lambda>d. Inr (delete_fts old_id d)))))))))))"

definition supersede_in_tx :: "env \<Rightarrow> string \<Rightarrow> string dict \<Rightarrow> string \<Rightarrow> string \<Rightarrow> (txs, unit) tx" where
  "supersede_in_tx E key record act now =
     tbind (tlift (texts_item record ''supersedes'')) (\<lambda>ids. tfor (supersede_one E key record act now) ids)"

text \<open>The decision \<open>state\<close> is recorded; an accepted record is indexed and supersedes older ones.\<close>

definition record_decision ::
  "env \<Rightarrow> library \<Rightarrow> string \<Rightarrow> string \<Rightarrow> string \<Rightarrow> int \<Rightarrow> string \<Rightarrow> string dict list \<Rightarrow> string dict \<Rightarrow> string dict \<Rightarrow>
   string \<Rightarrow> (txs, json) tx" where
  "record_decision E L key memory_id decision expected_version reviewer source_checks independence record state =
     (let next_record = dict_merge record
            [(''aggregate_version'', JInt (expected_version + 1)), (''review_state'', JStr state)] in
     tbind (tlift (validate_memory E L next_record)) (\<lambda>_.
     tbind (utc_now E) (\<lambda>now.
     tbind (tlift (sha256_json E (JObj next_record))) (\<lambda>record_sha.
     tbind (tlift (sha256_json E (JList (map JObj source_checks)))) (\<lambda>checks_sha.
     tbind (tlift (text_item record ''sensitivity'')) (\<lambda>sens.
     tbind (append_event E key
        \<lparr>aggregate_type = ''memory'', aggregate_id = memory_id, event_type = ''memory.'' @ state,
         aggregate_version = expected_version + 1, actor = reviewer,
         payload = JObj [(''record_sha256'', JStr record_sha), (''review_state'', JStr state),
           (''source_check_sha256'', JStr checks_sha)],
         sensitivity = sens, occurred_at = None\<rparr>) (\<lambda>marker.
     tbind (update_projection E next_record marker now (Some reviewer) (if state = ''accepted'' then Some now else None) None) (\<lambda>_.
     tbind (mint E ''review'') (\<lambda>review_id.
     tbind (tlift (canonical (JObj independence))) (\<lambda>independence_json.
     tbind (execute (insert_memory_review
        \<lparr>mr_review_id = review_id, mr_memory_id = memory_id, mr_decision = state, mr_reviewer = reviewer,
         mr_reviewed_at = now, mr_source_check_sha256 = checks_sha, mr_independence = independence_json\<rparr>)) (\<lambda>_.
     tbind (if state = ''accepted''
            then tbind (index_record L next_record) (\<lambda>_. supersede_in_tx E key next_record reviewer now)
            else tret ()) (\<lambda>_.
     tbind (projection_updated E) (\<lambda>_.
     tret (JObj [(''memory'', JObj next_record), (''review_id'', JStr review_id),
       (''conflict'', JBool (state = ''quarantined'' \<and> decision = ''accepted''))]))))))))))))))"

definition review_candidate_op ::
  "env \<Rightarrow> library \<Rightarrow> string \<Rightarrow> string \<Rightarrow> string \<Rightarrow> int \<Rightarrow> string \<Rightarrow> string dict list \<Rightarrow> string dict \<Rightarrow> (txs, json) tx" where
  "review_candidate_op E L key memory_id decision expected_version reviewer source_checks independence =
     tbind (expect_version ''memory_records'' memory_id expected_version) (\<lambda>_.
     tbind (memory_row memory_id) (\<lambda>row.
     tbind (tguard (m_review_state row = MCandidate) (CoreError ''only candidate memory may be reviewed'')) (\<lambda>_.
     tbind (tlift (reviewer_allowed (dict_of (m_record row)) decision reviewer)) (\<lambda>_.
     tbind (if decision = ''accepted''
            then accept_or_quarantine E L memory_id (dict_of (m_record row)) source_checks else tret decision) (\<lambda>state.
     record_decision E L key memory_id decision expected_version reviewer source_checks independence
       (dict_of (m_record row)) state)))))"

definition review_candidate ::
  "env \<Rightarrow> library \<Rightarrow> string \<Rightarrow> string \<Rightarrow> int \<Rightarrow> string \<Rightarrow> string dict list \<Rightarrow> string dict \<Rightarrow> string \<Rightarrow> call" where
  "review_candidate E L memory_id decision expected_version reviewer source_checks independence key =
     checked
       (bindE (guardE (decision \<in> {''accepted'', ''rejected'', ''quarantined''}) (CoreError ''invalid memory review decision'')) (\<lambda>_.
        guardE (list_all (\<lambda>(k, v). k \<in> set independence_dimensions \<and> (\<exists>b \<in> {True, False}. v = JBool b)) independence)
          (CoreError ''memory review independence dimensions are invalid''))) (\<lambda>_.
     run_command E key
       (JObj [(''command'', JStr ''review_memory''), (''memory_id'', JStr memory_id), (''decision'', JStr decision),
         (''expected_version'', JInt expected_version), (''reviewer'', JStr reviewer),
         (''source_checks'', JList (map JObj source_checks)), (''independence'', JObj independence)])
       (review_candidate_op E L key memory_id decision expected_version reviewer source_checks independence))"

section \<open>Staleness\<close>

definition mark_stale_op :: "env \<Rightarrow> string \<Rightarrow> string \<Rightarrow> string \<Rightarrow> int \<Rightarrow> string \<Rightarrow> (txs, json) tx" where
  "mark_stale_op E key memory_id reason expected_version act =
     tbind (expect_version ''memory_records'' memory_id expected_version) (\<lambda>_.
     tbind (memory_row memory_id) (\<lambda>row.
     tbind (tguard (m_review_state row = MAccepted) (CoreError ''only accepted memory may become stale'')) (\<lambda>_.
     (let record = dict_merge (dict_of (m_record row))
            [(''aggregate_version'', JInt (expected_version + 1)), (''review_state'', JStr ''stale'')] in
     tbind (tlift (sha256_json E (JObj record))) (\<lambda>record_sha.
     tbind (tlift (text_item record ''sensitivity'')) (\<lambda>sens.
     tbind (append_event E key
        \<lparr>aggregate_type = ''memory'', aggregate_id = memory_id, event_type = ''memory.stale'',
         aggregate_version = expected_version + 1, actor = act,
         payload = JObj [(''reason'', JStr reason), (''record_sha256'', JStr record_sha)],
         sensitivity = sens, occurred_at = None\<rparr>) (\<lambda>marker.
     tbind (utc_now E) (\<lambda>now.
     tbind (update_projection E record marker now None None (Some reason)) (\<lambda>_.
     tbind (execute (\<lambda>d. Inr (delete_fts memory_id d))) (\<lambda>_.
     tbind (projection_updated E) (\<lambda>_.
     tret (JObj record))))))))))))"

definition mark_stale :: "env \<Rightarrow> string \<Rightarrow> string \<Rightarrow> int \<Rightarrow> string \<Rightarrow> string \<Rightarrow> call" where
  "mark_stale E memory_id reason expected_version act key =
     run_command E key
       (JObj [(''command'', JStr ''mark_memory_stale''), (''memory_id'', JStr memory_id), (''reason'', JStr reason),
         (''expected_version'', JInt expected_version), (''actor'', JStr act)])
       (mark_stale_op E key memory_id reason expected_version act)"

definition source_pair :: "string dict \<Rightarrow> (string \<times> string) result" where
  "source_pair s = bindE (text_item s ''uri'') (\<lambda>u. bindE (text_item s ''content_sha256'') (\<lambda>h. Inr (u, h)))"

definition same_evidence :: "string dict \<Rightarrow> string dict list \<Rightarrow> unit result" where
  "same_evidence record evidence =
     bindE (bindE (sources_of record) (mapE source_pair)) (\<lambda>old_sources.
     bindE (mapE source_pair evidence) (\<lambda>new_sources.
     if sort old_sources \<noteq> sort new_sources
     then Inl (CoreError ''changed or non-current evidence requires a new candidate'')
     else
       bindE (mapE (\<lambda>s. text_item s ''validity_status'') evidence) (\<lambda>states.
       guardE (list_all (\<lambda>v. v = ''current'') states)
         (CoreError ''changed or non-current evidence requires a new candidate''))))"

definition revalidate_op ::
  "env \<Rightarrow> library \<Rightarrow> string \<Rightarrow> string \<Rightarrow> string dict list \<Rightarrow> string \<Rightarrow> int \<Rightarrow> string \<Rightarrow> (txs, json) tx" where
  "revalidate_op E L key memory_id evidence revalidate_at expected_version act =
     tbind (expect_version ''memory_records'' memory_id expected_version) (\<lambda>_.
     tbind (memory_row memory_id) (\<lambda>row.
     tbind (tguard (m_review_state row = MStale) (CoreError ''only stale memory may be revalidated'')) (\<lambda>_.
     tbind (tlift (same_evidence (dict_of (m_record row)) evidence)) (\<lambda>_.
     (let record = dict_merge (dict_of (m_record row))
            [(''aggregate_version'', JInt (expected_version + 1)), (''evidence_refs'', JList (map JObj evidence)),
             (''revalidate_at'', JStr revalidate_at), (''review_state'', JStr ''accepted'')] in
     tbind (tlift (validate_memory E L record)) (\<lambda>_.
     tbind (tlift (sha256_json E (JObj record))) (\<lambda>record_sha.
     tbind (tlift (text_item record ''sensitivity'')) (\<lambda>sens.
     tbind (append_event E key
        \<lparr>aggregate_type = ''memory'', aggregate_id = memory_id, event_type = ''memory.accepted'',
         aggregate_version = expected_version + 1, actor = act,
         payload = JObj [(''reason'', JStr ''revalidated''), (''record_sha256'', JStr record_sha)],
         sensitivity = sens, occurred_at = None\<rparr>) (\<lambda>marker.
     tbind (utc_now E) (\<lambda>now.
     tbind (update_projection E record marker now None None None) (\<lambda>_.
     tbind (index_record L record) (\<lambda>_.
     tbind (projection_updated E) (\<lambda>_.
     tret (JObj record))))))))))))))"

definition revalidate ::
  "env \<Rightarrow> library \<Rightarrow> string \<Rightarrow> string dict list \<Rightarrow> string \<Rightarrow> int \<Rightarrow> string \<Rightarrow> string \<Rightarrow> call" where
  "revalidate E L memory_id evidence revalidate_at expected_version act key =
     run_command E key
       (JObj [(''command'', JStr ''revalidate_memory''), (''memory_id'', JStr memory_id),
         (''evidence_refs'', JList (map JObj evidence)), (''revalidate_at'', JStr revalidate_at),
         (''expected_version'', JInt expected_version), (''actor'', JStr act)])
       (revalidate_op E L key memory_id evidence revalidate_at expected_version act)"

section \<open>Sweeps\<close>

definition stale_reason :: "string dict \<Rightarrow> string \<Rightarrow> string option result" where
  "stale_reason record now =
     bindE (parse_time now) (\<lambda>current.
     bindE (bindE (text_item record ''revalidate_at'') parse_time) (\<lambda>revalidate_at.
     if dt_micros revalidate_at \<le> dt_micros current then Inr (Some ''revalidation_due'')
     else
       bindE (case map_of record ''valid_until'' of
           None \<Rightarrow> Inr False
         | Some v \<Rightarrow> bindE (as_str v) (\<lambda>s. bindE (parse_time s) (\<lambda>t. Inr (dt_micros t \<le> dt_micros current)))) (\<lambda>expired.
       if expired then Inr (Some ''validity_expired'')
       else
         bindE (bindE (sources_of record) (mapE (\<lambda>s. text_item s ''validity_status''))) (\<lambda>states.
         if list_ex (\<lambda>v. v \<noteq> ''current'') states then Inr (Some ''source_not_current'') else Inr None))))"

text \<open>A sweep goes through the accepted memories as they were when it started and marks some of them stale, each
  in a command of its own with the environment \<open>S i\<close> of the memory \<open>i\<close>. It ends at the first error; what was marked
  before stays marked.\<close>

fun sweep ::
  "(string \<Rightarrow> env) \<Rightarrow> string \<Rightarrow> (memory_row \<Rightarrow> string option result) \<Rightarrow> (string \<Rightarrow> string) \<Rightarrow> memory_row list \<Rightarrow>
   db \<Rightarrow> string list result \<times> db" where
  "sweep S act judge key [] d = (Inr [], d)"
| "sweep S act judge key (r # rs) d =
     (case judge r of
        Inl e \<Rightarrow> (Inl e, d)
      | Inr None \<Rightarrow> sweep S act judge key rs d
      | Inr (Some reason) \<Rightarrow>
          (case mark_stale (S (m_memory_id r)) (m_memory_id r) reason (mk_aggregate_version (m_marker r)) act
             (key (m_memory_id r)) d of
             (Inl e, d') \<Rightarrow> (Inl e, d')
           | (Inr _, d') \<Rightarrow>
               (case sweep S act judge key rs d' of
                  (Inl e, d'') \<Rightarrow> (Inl e, d'')
                | (Inr ids, d'') \<Rightarrow> (Inr (m_memory_id r # ids), d''))))"

definition accepted_rows :: "db \<Rightarrow> memory_row list" where
  "accepted_rows d = filter (\<lambda>r. m_review_state r = MAccepted) (memory_records d)"

definition sweep_stale :: "(string \<Rightarrow> env) \<Rightarrow> string \<Rightarrow> string \<Rightarrow> db \<Rightarrow> string list result \<times> db" where
  "sweep_stale S now act d =
     (case parse_time now of
        Inl e \<Rightarrow> (Inl e, d)
      | Inr _ \<Rightarrow>
          sweep S act (\<lambda>r. stale_reason (dict_of (m_record r)) now)
            (\<lambda>i. ''memory:sweep:'' @ now @ '':'' @ i) (accepted_rows d) d)"

definition source_changed :: "string \<Rightarrow> string \<Rightarrow> memory_row \<Rightarrow> string option result" where
  "source_changed uri sha r =
     bindE (bindE (sources_of (dict_of (m_record r))) (mapE source_pair)) (\<lambda>ps.
     Inr (if \<exists>(u, h) \<in> set ps. u = uri \<and> h \<noteq> sha then Some ''source_revision_changed'' else None))"

definition mark_source_changed ::
  "(string \<Rightarrow> env) \<Rightarrow> string \<Rightarrow> string \<Rightarrow> string \<Rightarrow> string \<Rightarrow> db \<Rightarrow> string list result \<times> db" where
  "mark_source_changed S uri sha observed_at act d =
     (case bindE (parse_time observed_at) (\<lambda>_. sha256_json (S '''') (JList [JStr uri, JStr sha])) of
        Inl e \<Rightarrow> (Inl e, d)
      | Inr h \<Rightarrow>
          sweep S act (source_changed uri sha) (\<lambda>i. ''memory:source-change:'' @ h @ '':'' @ i) (accepted_rows d) d)"

text \<open>\<open>get\<close>.\<close>

definition get_memory :: "db \<Rightarrow> string \<Rightarrow> json result" where
  "get_memory d memory_id = bindE (found (CoreError ''unknown memory'') (find_memory d memory_id)) (\<lambda>r. Inr (m_record r))"

end
