(* ===== verification/Retrieval.thy ===== *)
theory Retrieval
  imports MemoryOps Integrity Leases
begin

text \<open>
  What \<open>MemoryService\<close> reads: \<open>retrieve\<close>, which selects and ranks the memories that a query may see, and
  \<open>assemble_context\<close>, which fills the sections of a context pack within their token budgets and records the
  pack; and the rebuilding of the index, the export of memories and their import.
\<close>

section \<open>Retrieval\<close>

record retrieval =
  rt_normalized_query :: string
  rt_candidate_memory_ids :: "string list"
  rt_ranked_candidates :: "json list"
  rt_records :: "string dict list"
  rt_excluded :: "(string \<times> string) list"
  rt_filters :: "string list"

text \<open>One turn of the loop: the row is excluded for a reason, or ranked by a key.\<close>

type_synonym rank = "int \<times> int \<times> string \<times> string"

datatype verdict = Excluded string string | Ranked rank "string dict"

definition row_reason :: "string \<Rightarrow> string \<Rightarrow> string list \<Rightarrow> memory_row \<Rightarrow> string option result" where
  "row_reason clearance now matches row =
     bindE
       (if m_review_state row \<noteq> MAccepted then Inr (Some (memory_state_text (m_review_state row)))
        else
          bindE (found (KeyError (m_sensitivity row)) (sensitivity_rank (m_sensitivity row))) (\<lambda>s.
          bindE (found (KeyError clearance) (sensitivity_rank clearance)) (\<lambda>c.
          if c < s then Inr (Some ''sensitivity_denied'') else stale_reason (dict_of (m_record row)) now))) (\<lambda>reason.
     Inr (if reason = None \<and> m_memory_id row \<notin> set matches then Some ''query_miss'' else reason))"

definition haystack :: "library \<Rightarrow> string dict \<Rightarrow> string result" where
  "haystack L record =
     bindE (text_item record ''statement'') (\<lambda>statement.
     bindE (texts_item record ''labels'') (\<lambda>labels.
     bindE (source_text L record) (\<lambda>source.
     Inr (normalize_text L (join_with '' '' ([statement] @ labels @ [source]))))))"

definition score_units :: "string list \<Rightarrow> string \<Rightarrow> nat" where
  "score_units terms hay =
     (let n = (if terms = [] then 1 else sum_list (map (\<lambda>t. occurrences t hay) terms))
      in n * 1000000 div max 1 (length (find_words hay)))"

definition rank_key :: "library \<Rightarrow> string list \<Rightarrow> string dict \<Rightarrow> string \<Rightarrow> rank result" where
  "rank_key L terms record memory_id =
     bindE (haystack L record) (\<lambda>hay.
     bindE (bindE (text_item record ''type'') (\<lambda>t. found (KeyError t) (type_priority t))) (\<lambda>priority.
     bindE (bindE (max_observed record) invert_timestamp) (\<lambda>inverted.
     Inr (priority, - int (score_units terms hay), inverted, memory_id))))"

definition judge_row ::
  "library \<Rightarrow> string \<Rightarrow> string \<Rightarrow> string list \<Rightarrow> string list \<Rightarrow> memory_row \<Rightarrow> verdict result" where
  "judge_row L clearance now matches terms row =
     bindE (row_reason clearance now matches row) (\<lambda>reason.
     case reason of
       Some why \<Rightarrow> Inr (Excluded (m_memory_id row) why)
     | None \<Rightarrow>
         bindE (rank_key L terms (dict_of (m_record row)) (m_memory_id row)) (\<lambda>k.
         Inr (Ranked k (dict_of (m_record row)))))"

definition excluded_of :: "verdict list \<Rightarrow> (string \<times> string) list" where
  "excluded_of vs = concat (map (\<lambda>v. case v of Excluded i why \<Rightarrow> [(i, why)] | Ranked k r \<Rightarrow> []) vs)"

definition ranked_of :: "verdict list \<Rightarrow> (rank \<times> string dict) list" where
  "ranked_of vs = concat (map (\<lambda>v. case v of Excluded i why \<Rightarrow> [] | Ranked k r \<Rightarrow> [(k, r)]) vs)"

definition rank_id :: "rank \<Rightarrow> string" where
  "rank_id k = snd (snd (snd k))"

definition ranked_json :: "nat \<times> rank \<Rightarrow> json" where
  "ranked_json p = (case p of (n, k) \<Rightarrow> JObj
     [(''memory_id'', JStr (rank_id k)), (''score'', JStr (format_score (nat (- fst (snd k))))), (''rank'', JInt (int n))])"

text \<open>The query of the full-text index: the words, quoted, joined by \<open>OR\<close>.\<close>

definition match_query :: "string list \<Rightarrow> string" where
  "match_query terms =
     join_with '' OR ''
       (map (\<lambda>t. [CHR 0x22] @ concat (map (\<lambda>c. if c = CHR 0x22 then [c, c] else [c]) t) @ [CHR 0x22]) terms)"

definition scope_rows :: "string list \<Rightarrow> db \<Rightarrow> memory_row list" where
  "scope_rows scopes d = sort_key m_memory_id (filter (\<lambda>r. m_scope r \<in> set scopes) (memory_records d))"

definition index_matches :: "library \<Rightarrow> string list \<Rightarrow> memory_row list \<Rightarrow> db \<Rightarrow> string list" where
  "index_matches L terms rows d =
     (if terms \<noteq> [] then fts_match L (memory_fts d) (match_query terms)
      else map m_memory_id (filter (\<lambda>r. m_review_state r = MAccepted) rows))"

definition retrieve :: "library \<Rightarrow> string \<Rightarrow> string list \<Rightarrow> string \<Rightarrow> string \<Rightarrow> db \<Rightarrow> retrieval result" where
  "retrieve L query scopes clearance now d =
     bindE (guardE (sensitivity_rank clearance \<noteq> None) (CoreError ''unknown sensitivity clearance'')) (\<lambda>_.
     if scopes = [] then
       Inr \<lparr>rt_normalized_query = normalize_text L query, rt_candidate_memory_ids = [], rt_ranked_candidates = [],
            rt_records = [], rt_excluded = [], rt_filters = [''scope_allowlist'']\<rparr>
     else
       bindE (parse_time now) (\<lambda>_.
       (let normalized = normalize_text L query;
            terms = sort (remdups (find_words normalized));
            rows = scope_rows scopes d
        in bindE (mapE (judge_row L clearance now (index_matches L terms rows d) terms) rows) (\<lambda>vs.
           let ranked = sort_key fst (ranked_of vs)
           in Inr \<lparr>rt_normalized_query = normalized, rt_candidate_memory_ids = map (rank_id \<circ> fst) (ranked_of vs),
                rt_ranked_candidates = map ranked_json (enumerate 1 (map fst ranked)),
                rt_records = map snd ranked, rt_excluded = excluded_of vs,
                rt_filters = [''scope_allowlist'', ''accepted_only'', ''sensitivity_clearance'', ''validity_window'',
                  ''source_current'', ''fts_match'']\<rparr>))))"

section \<open>Context packs\<close>

definition section_of :: "string dict \<Rightarrow> string result" where
  "section_of record =
     bindE (text_item record ''scope'') (\<lambda>scope.
     bindE (if scope = ''company'' then texts_item record ''labels'' else Inr []) (\<lambda>labels.
     if ''constitution'' \<in> set labels \<or> ''hard_policy'' \<in> set labels then Inr ''constitution''
     else bindE (text_item record ''type'') (\<lambda>t. found (KeyError t) (map_of
       [(''decision'', ''project_decisions''), (''preference'', ''project_decisions''), (''feedback'', ''role_authority''),
        (''procedure'', ''procedures''), (''fact'', ''knowledge''), (''reference'', ''knowledge''),
        (''outcome'', ''knowledge''), (''hypothesis'', ''knowledge'')] t))))"

record selected_item =
  si_memory_id :: string
  si_excerpt :: string
  si_excerpt_sha256 :: string
  si_section :: string
  si_token_count :: nat

text \<open>The variables of the loop over the retrieved records: \<open>used\<close> and \<open>truncated\<close> are dictionaries.\<close>

record filling =
  fl_selected :: "selected_item list"
  fl_excluded :: "(string \<times> string) list"
  fl_used :: "string \<Rightarrow> nat option"
  fl_truncated :: "string \<Rightarrow> bool option"

definition used_tokens :: "filling \<Rightarrow> string \<Rightarrow> nat" where
  "used_tokens s name = (case fl_used s name of None \<Rightarrow> 0 | Some n \<Rightarrow> n)"

definition budget_of :: "(string \<times> int) list \<Rightarrow> string \<Rightarrow> int" where
  "budget_of budgets name = (case map_of budgets name of None \<Rightarrow> 0 | Some b \<Rightarrow> b)"

definition leave_out :: "string \<Rightarrow> string \<Rightarrow> filling \<Rightarrow> filling" where
  "leave_out memory_id name s = s\<lparr>fl_excluded := fl_excluded s @ [(memory_id, ''section_budget'')],
     fl_truncated := (fl_truncated s)(name \<mapsto> True)\<rparr>"

definition take_in :: "string \<Rightarrow> string \<Rightarrow> string \<Rightarrow> string \<Rightarrow> bool \<Rightarrow> filling \<Rightarrow> filling" where
  "take_in memory_id name excerpt sha shortened s = s\<lparr>
     fl_selected := fl_selected s @ [\<lparr>si_memory_id = memory_id, si_excerpt = excerpt, si_excerpt_sha256 = sha,
       si_section = name, si_token_count = token_count excerpt\<rparr>],
     fl_used := (fl_used s)(name \<mapsto> used_tokens s name + token_count excerpt),
     fl_truncated := (if shortened then (fl_truncated s)(name \<mapsto> True) else fl_truncated s)\<rparr>"

text \<open>One turn of the loop. \<open>digest\<close> is \<open>sha256_bytes\<close> of the UTF-8 text.\<close>

definition fill_one :: "(string \<Rightarrow> string) \<Rightarrow> (string \<times> int) list \<Rightarrow> string dict \<Rightarrow> filling \<Rightarrow> filling result" where
  "fill_one digest budgets record s =
     bindE (section_of record) (\<lambda>name.
     (let remaining = budget_of budgets name - int (used_tokens s name) in
     bindE (text_item record ''memory_id'') (\<lambda>memory_id.
     if remaining \<le> 0 then Inr (leave_out memory_id name s)
     else
       bindE (text_item record ''statement'') (\<lambda>statement.
       if int (token_count statement) \<le> remaining
       then Inr (take_in memory_id name statement (digest statement) False s)
       else
         (let excerpt = rstrip_space (take (nat remaining * 4) statement)
          in Inr (if excerpt = [] then leave_out memory_id name s
                  else take_in memory_id name excerpt (digest excerpt) True s))))))"

fun fill :: "(string \<Rightarrow> string) \<Rightarrow> (string \<times> int) list \<Rightarrow> string dict list \<Rightarrow> filling \<Rightarrow> filling result" where
  "fill digest budgets [] s = Inr s"
| "fill digest budgets (r # rs) s = bindE (fill_one digest budgets r s) (fill digest budgets rs)"

definition ordered_sections :: "(string \<times> int) list \<Rightarrow> string list" where
  "ordered_sections budgets = filter (\<lambda>n. n \<in> fst ` set budgets) section_order"

definition filling0 :: "(string \<times> int) list \<Rightarrow> (string \<times> string) list \<Rightarrow> filling" where
  "filling0 budgets excluded = \<lparr>fl_selected = [], fl_excluded = excluded,
     fl_used = (\<lambda>n. if n \<in> set (ordered_sections budgets) then Some 0 else None),
     fl_truncated = (\<lambda>n. if n \<in> set (ordered_sections budgets) then Some False else None)\<rparr>"

definition select_records :: "(string \<Rightarrow> string) \<Rightarrow> (string \<times> int) list \<Rightarrow> retrieval \<Rightarrow> filling result" where
  "select_records digest budgets r =
     bindE (guardE (list_all (\<lambda>(n, b). n \<in> set section_order) budgets) (CoreError ''unknown context sections'')) (\<lambda>_.
     bindE (guardE (list_all (\<lambda>(n, b). 0 \<le> b) budgets) (CoreError ''context section budgets must be non-negative'')) (\<lambda>_.
     fill digest budgets (rt_records r) (filling0 budgets (rt_excluded r))))"

definition selected_json :: "selected_item \<Rightarrow> json" where
  "selected_json i = JObj
     [(''memory_id'', JStr (si_memory_id i)), (''excerpt'', JStr (si_excerpt i)),
      (''excerpt_sha256'', JStr (si_excerpt_sha256 i)), (''section'', JStr (si_section i)),
      (''token_count'', JInt (int (si_token_count i)))]"

definition excluded_json :: "string \<times> string \<Rightarrow> json" where
  "excluded_json p = JObj [(''memory_id'', JStr (fst p)), (''reason'', JStr (snd p))]"

definition section_json :: "(string \<times> int) list \<Rightarrow> filling \<Rightarrow> string \<Rightarrow> json" where
  "section_json budgets s name = JObj
     [(''name'', JStr name), (''token_budget'', JInt (budget_of budgets name)),
      (''token_count'', JInt (int (used_tokens s name))), (''truncated'', JBool (fl_truncated s name = Some True))]"

text \<open>The most sensitive of the selected records; \<open>max\<close> keeps the first of several.\<close>

fun max_rank :: "string \<Rightarrow> string list \<Rightarrow> string result" where
  "max_rank a [] = Inr a"
| "max_rank a (b # bs) =
     bindE (found (KeyError b) (sensitivity_rank b)) (\<lambda>n.
     bindE (found (KeyError a) (sensitivity_rank a)) (\<lambda>m. max_rank (if m < n then b else a) bs))"

definition max_sensitivity :: "selected_item list \<Rightarrow> string dict list \<Rightarrow> string result" where
  "max_sensitivity selected records =
     bindE (mapE (\<lambda>r. bindE (text_item r ''memory_id'') (\<lambda>i. Inr (i, r))) records) (\<lambda>ps.
     bindE (mapE (\<lambda>p. text_item (snd p) ''sensitivity'') (filter (\<lambda>p. fst p \<in> si_memory_id ` set selected) ps)) (\<lambda>vs.
     case vs of
       [] \<Rightarrow> Inr ''public''
     | v # r \<Rightarrow> bindE (found (KeyError v) (sensitivity_rank v)) (\<lambda>_. max_rank v r)))"

end
