(* ===== verification/ContextPacks.thy ===== *)
theory ContextPacks
  imports Retrieval
begin

text \<open>
  The operations of \<open>MemoryService\<close> that combine reading with a command: \<open>assemble_context\<close>, the rebuilding of
  the full-text index, the export of memories and their import.

  \<open>assemble_context\<close> sweeps, retrieves and then runs a command. The two readings of the clock before the
  command are those of the environment \<open>B\<close>; the sweep has environments \<open>S\<close>, the command has \<open>E\<close>.
\<close>

section \<open>Assembling a context\<close>

definition insert_context :: "context_row \<Rightarrow> db \<Rightarrow> db result" where
  "insert_context r d =
     bindE (sql (length (cp_manifest_sha256 r) = 64 \<and> length (cp_content_sha256 r) = 64 \<and> 0 \<le> cp_event_high_water r \<and>
         (\<forall>q \<in> set (context_packs d). cp_context_id q \<noteq> cp_context_id r) \<and>
         (\<exists>q \<in> set (tasks d). t_task_id q = cp_task_id r) \<and> (\<exists>q \<in> set (runs d). r_run_id q = cp_run_id r))
       ''context_packs'' d) (\<lambda>d.
     Inr (d\<lparr>context_packs := context_packs d @ [r]\<rparr>))"

definition component_json :: "string \<Rightarrow> json" where
  "component_json i = JObj [(''id'', JStr i), (''version'', JStr ''1'')]"

text \<open>The manifest without its digest: everything the pack was made from.\<close>

definition context_manifest ::
  "string \<Rightarrow> run_row \<Rightarrow> (string \<times> int) list \<Rightarrow> retrieval \<Rightarrow> filling \<Rightarrow> int \<Rightarrow> string \<Rightarrow> string \<Rightarrow> string \<Rightarrow> string dict" where
  "context_manifest context_id run budgets r s high_water projection_sha sens now =
     [(''schema_version'', JStr ''city2.context-pack/v1''),
      (''context_id'', JStr context_id),
      (''task_id'', JStr (r_task_id run)),
      (''task_envelope_sha256'', JStr (r_envelope_sha256 run)),
      (''assembler'', component_json ''city2-context''),
      (''retrieval_policy'', component_json ''memory-fts''),
      (''tokenizer'', component_json ''unicode-codepoint-char4''),
      (''normalized_query'', JStr (rt_normalized_query r)),
      (''source_snapshot'', JObj [(''event_high_water'', JInt high_water),
        (''memory_projection_sha256'', JStr projection_sha)]),
      (''candidate_memory_ids'', JList (map JStr (rt_candidate_memory_ids r))),
      (''filters'', JList (map JStr (rt_filters r))),
      (''ranked_candidates'', JList (rt_ranked_candidates r)),
      (''selected'', JList (map selected_json (fl_selected s))),
      (''excluded'', JList (map excluded_json (sort (fl_excluded s)))),
      (''tie_break'', JList (map JStr [''policy_priority_asc'', ''relevance_desc'', ''evidence_observed_desc'', ''memory_id_asc''])),
      (''sections'', JList (map (section_json budgets s) (ordered_sections budgets))),
      (''total_tokens'', JInt (int (sum_list (map si_token_count (fl_selected s))))),
      (''pack_sha256'', JStr []),
      (''sensitivity'', JStr sens),
      (''created_at'', JStr now)]"

definition context_content :: "string dict \<Rightarrow> string \<Rightarrow> filling \<Rightarrow> string dict result" where
  "context_content envelope task_id s =
     bindE (pick envelope [''task_revision'', ''intent'', ''acceptance_criteria'', ''constraints'']) (\<lambda>p.
     Inr [(''task'', JObj ((''task_id'', JStr task_id) # p)), (''memory'', JList (map selected_json (fl_selected s)))])"

definition next_version :: "db \<Rightarrow> string \<Rightarrow> int" where
  "next_version d i = foldr max (map ev_aggregate_version (filter (\<lambda>e. ev_aggregate_id e = i) (events d))) 0 + 1"

definition memory_projection :: "db \<Rightarrow> json" where
  "memory_projection d = JList (map m_record (sort_key m_memory_id (memory_records d)))"

definition assemble_context_op ::
  "env \<Rightarrow> library \<Rightarrow> string \<Rightarrow> run_row \<Rightarrow> (string \<times> int) list \<Rightarrow> retrieval \<Rightarrow> string \<Rightarrow> (txs, json) tx" where
  "assemble_context_op E L key run budgets r act =
     (let envelope = dict_of (r_envelope run) in
     tbind (tlift (select_records (utf8_sha256 L) budgets r)) (\<lambda>s.
     tbind (select global_sequence) (\<lambda>high_water.
     tbind (select memory_projection) (\<lambda>projection.
     tbind (utc_now E) (\<lambda>now.
     tbind (mint E ''context'') (\<lambda>context_id.
     tbind (tlift (sha256_json E projection)) (\<lambda>projection_sha.
     tbind (tlift (max_sensitivity (fl_selected s) (rt_records r))) (\<lambda>sens.
     (let draft = context_manifest context_id run budgets r s high_water projection_sha sens now in
     tbind (tlift (digest_profile E draft [''pack_sha256''])) (\<lambda>pack_sha.
     (let manifest = dict_set ''pack_sha256'' (JStr pack_sha) draft in
     tbind (tlift (validate E (JObj manifest) ''context-pack.schema.json'')) (\<lambda>_.
     tbind (tlift (context_content envelope (r_task_id run) s)) (\<lambda>content.
     tbind (select (\<lambda>d. next_version d (r_run_id run))) (\<lambda>run_version.
     tbind (tlift (sha256_json E (JObj manifest))) (\<lambda>manifest_sha.
     tbind (tlift (sha256_json E (JObj content))) (\<lambda>content_sha.
     tbind (append_event E key
        \<lparr>aggregate_type = ''run'', aggregate_id = r_run_id run, event_type = ''run.context_assembled'',
         aggregate_version = run_version, actor = act,
         payload = JObj [(''context_id'', JStr context_id), (''manifest_sha256'', JStr manifest_sha),
           (''content_sha256'', JStr content_sha), (''source_event_high_water'', JInt high_water)],
         sensitivity = sens, occurred_at = None\<rparr>) (\<lambda>_.
     tbind (tlift (canonical (JObj manifest))) (\<lambda>manifest_json.
     tbind (tlift (canonical (JObj content))) (\<lambda>content_json.
     tbind (execute (insert_context
        \<lparr>cp_context_id = context_id, cp_task_id = r_task_id run, cp_run_id = r_run_id run,
         cp_manifest_sha256 = manifest_sha, cp_manifest = manifest_json, cp_content_sha256 = content_sha,
         cp_content = content_json, cp_event_high_water = high_water, cp_created_at = now\<rparr>)) (\<lambda>_.
     tbind (projection_updated E) (\<lambda>_.
     tret (JObj [(''manifest'', JObj manifest), (''content'', JObj content)]))))))))))))))))))))))"

definition permitted_scopes :: "run_row \<Rightarrow> string list result" where
  "permitted_scopes run =
     bindE (texts_item (dict_of (r_envelope run)) ''memory_scopes'') (\<lambda>scopes. Inr (scopes @ [''task:'' @ r_task_id run]))"

definition assemble_context ::
  "env \<Rightarrow> (string \<Rightarrow> env) \<Rightarrow> env \<Rightarrow> library \<Rightarrow> string \<Rightarrow> string \<Rightarrow> string list \<Rightarrow> string \<Rightarrow> (string \<times> int) list \<Rightarrow>
   string \<Rightarrow> string \<Rightarrow> call" where
  "assemble_context B S E L task_id query scopes clearance budgets act key d =
     (case bindE (found (CoreError ''context assembly requires a leased task run'') (latest_run d task_id)) (\<lambda>run.
           bindE (permitted_scopes run) (\<lambda>permitted.
           bindE (guardE (set scopes \<subseteq> set permitted) (CoreError ''context scope request exceeds the task envelope'')) (\<lambda>_.
           Inr run))) of
        Inl e \<Rightarrow> (Inl e, d)
      | Inr run \<Rightarrow>
          (case sweep_stale S (format_time (clock B 0)) ''service:memory-sweeper'' d of
             (Inl e, d1) \<Rightarrow> (Inl e, d1)
           | (Inr _, d1) \<Rightarrow>
               (case retrieve L query scopes clearance (format_time (clock B 1)) d1 of
                  Inl e \<Rightarrow> (Inl e, d1)
                | Inr r \<Rightarrow>
                    run_command E key
                      (JObj [(''command'', JStr ''assemble_context''), (''task_id'', JStr task_id),
                        (''run_id'', JStr (r_run_id run)), (''query'', JStr query),
                        (''allowed_scopes'', JList (map JStr scopes)), (''clearance'', JStr clearance),
                        (''section_budgets'', JObj (map (\<lambda>(n, b). (n, JInt b)) budgets)),
                        (''task_envelope_sha256'', JStr (r_envelope_sha256 run))])
                      (assemble_context_op E L key run budgets r act) d1)))"

section \<open>Index, export and import\<close>

definition index_rows :: "library \<Rightarrow> db \<Rightarrow> fts_row list result" where
  "index_rows L d = mapE (\<lambda>r. fts_entry L (dict_of (m_record r))) (sort_key m_memory_id (accepted_rows d))"

text \<open>The index is rebuilt and committed before the store is verified.\<close>

definition rebuild_index :: "env \<Rightarrow> library \<Rightarrow> string \<Rightarrow> string list \<Rightarrow> db \<Rightarrow> nat result \<times> db" where
  "rebuild_index E L check files d =
     (case index_rows L d of
        Inl e \<Rightarrow> (Inl e, d)
      | Inr rows \<Rightarrow>
          (let d' = d\<lparr>memory_fts := rows\<rparr>
           in (bindE (verify_integrity E check files (normalize_text L) d') (\<lambda>_. Inr (length rows)), d')))"

definition exported_event :: "event_row \<Rightarrow> json" where
  "exported_event e = JObj (dict_set ''event_sha256'' (JStr (ev_event_sha256 e)) (dict_of (event_from_row e)))"

definition export_memories :: "env \<Rightarrow> db \<Rightarrow> json result" where
  "export_memories E d =
     bindE (meta_value ''database_id'' d) (\<lambda>database_id.
     (let export = JObj
            [(''schema_version'', JStr ''city2.memory-export/v1''),
             (''source_database_id'', JStr database_id),
             (''source_writer_id'', JStr (writer_id E)),
             (''source_event_high_water'', JInt (global_sequence d)),
             (''memory_events'', JList (map exported_event
                (sort_key ev_database_sequence (filter (\<lambda>e. ev_aggregate_type e = ''memory'') (events d))))),
             (''accepted_memories'', JList (map m_record (sort_key m_memory_id (accepted_rows d))))]
      in bindE (sha256_json E export) (\<lambda>sha. Inr (JObj [(''export'', export), (''sha256'', JStr sha)]))))"

text \<open>The check of one exported event; \<open>ids\<close> are the identifiers seen before it.\<close>

definition check_event :: "env \<Rightarrow> db \<Rightarrow> string list \<Rightarrow> string dict \<Rightarrow> string list result" where
  "check_event E d ids event =
     bindE (sha256_json E (JObj (dict_without [''event_sha256''] event))) (\<lambda>sha.
     bindE (guardE (map_of event ''event_sha256'' = Some (JStr sha)) (IntegrityError ''corrupt or duplicate exported event'')) (\<lambda>_.
     bindE (text_item event ''event_id'') (\<lambda>i.
     bindE (guardE (i \<notin> set ids) (IntegrityError ''corrupt or duplicate exported event'')) (\<lambda>_.
     bindE (guardE (\<forall>r \<in> set (events d). ev_event_id r = i \<longrightarrow> ev_event_sha256 r = sha)
        (IntegrityError ''event identity collision during memory import'')) (\<lambda>_.
     Inr (i # ids))))))"

fun check_events :: "env \<Rightarrow> db \<Rightarrow> string list \<Rightarrow> string dict list \<Rightarrow> unit result" where
  "check_events E d ids [] = Inr ()"
| "check_events E d ids (e # es) = bindE (check_event E d ids e) (\<lambda>ids'. check_events E d ids' es)"

definition check_imported :: "env \<Rightarrow> library \<Rightarrow> string dict \<Rightarrow> unit result" where
  "check_imported E L record =
     bindE (validate_memory E L record) (\<lambda>_.
     bindE (dict_item record ''review_state'') (\<lambda>s.
     guardE (s = JStr ''accepted'') (IntegrityError ''memory export contains non-accepted record'')))"

definition list_or_empty :: "string dict \<Rightarrow> string \<Rightarrow> string dict list result" where
  "list_or_empty d k = (case map_of d k of None \<Rightarrow> Inr [] | Some v \<Rightarrow> bindE (as_list v) (mapE as_dict))"

definition imported_fields :: "string dict \<Rightarrow> string dict result" where
  "imported_fields record =
     bindE (pick record candidate_required) (\<lambda>fs.
     Inr (case map_of record ''valid_until'' of None \<Rightarrow> fs | Some v \<Rightarrow> dict_set ''valid_until'' v fs))"

fun import_records ::
  "(string \<Rightarrow> env) \<Rightarrow> library \<Rightarrow> string \<Rightarrow> string \<Rightarrow> string dict list \<Rightarrow> db \<Rightarrow> json list result \<times> db" where
  "import_records S L act import_key [] d = (Inr [], d)"
| "import_records S L act import_key (r # rs) d =
     (case bindE (imported_fields r) (\<lambda>fs. bindE (text_item r ''memory_id'') (\<lambda>i. Inr (fs, i))) of
        Inl e \<Rightarrow> (Inl e, d)
      | Inr (fs, i) \<Rightarrow>
          (case create_candidate (S i) L fs act (''memory:import:'' @ import_key @ '':'' @ i) d of
             (Inl e, d') \<Rightarrow> (Inl e, d')
           | (Inr candidate, d') \<Rightarrow>
               (case item candidate ''memory_id'' of
                  Inl e \<Rightarrow> (Inl e, d')
                | Inr m \<Rightarrow>
                    (case import_records S L act import_key rs d' of
                       (Inl e, d'') \<Rightarrow> (Inl e, d'')
                     | (Inr ms, d'') \<Rightarrow> (Inr (m # ms), d'')))))"

definition import_export ::
  "env \<Rightarrow> (string \<Rightarrow> env) \<Rightarrow> library \<Rightarrow> string dict \<Rightarrow> string \<Rightarrow> string \<Rightarrow> call" where
  "import_export E S L export act import_key d =
     (case bindE (guardE (map_of export ''schema_version'' = Some (JStr ''city2.memory-export/v1''))
             (CoreError ''unsupported memory export'')) (\<lambda>_.
           bindE (list_or_empty export ''memory_events'') (\<lambda>es.
           bindE (check_events E d [] es) (\<lambda>_.
           bindE (list_or_empty export ''accepted_memories'') (\<lambda>rs.
           bindE (forE (check_imported E L) rs) (\<lambda>_.
           Inr rs))))) of
        Inl e \<Rightarrow> (Inl e, d)
      | Inr rs \<Rightarrow>
          (case import_records S L act import_key rs d of
             (Inl e, d') \<Rightarrow> (Inl e, d')
           | (Inr ms, d') \<Rightarrow>
               (bindE (sha256_json E (JObj export)) (\<lambda>sha.
                  Inr (JObj [(''imported_memory_ids'', JList ms), (''export_sha256'', JStr sha)])), d')))"

end
