(* ===== verification/MemorySteps.thy ===== *)
theory MemorySteps
  imports ContextPacks Records
begin

text \<open>
  What the commands on memories do to the tables: \<open>memory_step\<close> has one rule per kind of change, and every command
  that succeeds makes a sequence of such steps and records its result.
\<close>

section \<open>The machine of a memory\<close>

fun memory_successors :: "memory_state \<Rightarrow> memory_state list" where
  "memory_successors MCandidate = [MAccepted, MRejected, MQuarantined]"
| "memory_successors MAccepted = [MStale, MSuperseded]"
| "memory_successors MStale = [MAccepted]"
| "memory_successors s = []"

definition memory_edge :: "memory_state \<Rightarrow> memory_state \<Rightarrow> bool" where
  "memory_edge a b \<longleftrightarrow> b \<in> set (memory_successors a)"

text \<open>The columns that no \<open>UPDATE\<close> touches.\<close>

definition memory_core :: "memory_row \<Rightarrow> string list" where
  "memory_core r = [m_memory_id r, m_scope r, m_type r, m_candidate_sha256 r, m_statement r, m_labels_text r,
     m_source_text r, m_created_by r, m_valid_from r, m_sensitivity r, m_created_at r]"

definition names_memory :: "json \<Rightarrow> string \<Rightarrow> bool" where
  "names_memory v i \<longleftrightarrow> get v ''memory_id'' = Some (JStr i)"

definition memory_named :: "db \<Rightarrow> bool" where
  "memory_named d \<longleftrightarrow> (\<forall>r \<in> set (memory_records d). names_memory (m_record r) (m_memory_id r))"

text \<open>What a change of state does to the index.\<close>

definition reindex :: "memory_state \<Rightarrow> string \<Rightarrow> fts_row \<Rightarrow> fts_row list \<Rightarrow> fts_row list" where
  "reindex st i f rows =
     (if st = MAccepted then filter (\<lambda>r. f_memory_id r \<noteq> i) rows @ [f]
      else if st \<in> {MStale, MSuperseded} then filter (\<lambda>r. f_memory_id r \<noteq> i) rows
      else rows)"

inductive memory_step :: "env \<Rightarrow> db \<Rightarrow> db \<Rightarrow> bool" for E d where
  created:
    "follows E key a d e \<Longrightarrow> aggregate_type a = ''memory'' \<Longrightarrow> event_type a = ''memory.created'' \<Longrightarrow>
     aggregate_version a = 1 \<Longrightarrow> m_memory_id r = aggregate_id a \<Longrightarrow> m_marker r = marker_of e \<Longrightarrow>
     m_review_state r = MCandidate \<Longrightarrow> names_memory (m_record r) (aggregate_id a) \<Longrightarrow>
     memory_step E d ((push_event e d)\<lparr>memory_records := memory_records d @ [r]\<rparr>)"
| moved:
    "find_memory d i = Some row \<Longrightarrow> memory_edge (m_review_state row) st \<Longrightarrow>
     follows E key a d e \<Longrightarrow> aggregate_type a = ''memory'' \<Longrightarrow> aggregate_id a = i \<Longrightarrow>
     event_type a = ''memory.'' @ memory_state_text st \<Longrightarrow>
     aggregate_version a = mk_aggregate_version (m_marker row) + 1 \<Longrightarrow>
     (\<And>r. memory_core (g r) = memory_core r) \<Longrightarrow> (\<And>r. m_marker (g r) = marker_of e) \<Longrightarrow>
     (\<And>r. m_review_state (g r) = st) \<Longrightarrow> (\<And>r. names_memory (m_record (g r)) i) \<Longrightarrow> f_memory_id f = i \<Longrightarrow>
     memory_step E d ((push_event e d)
       \<lparr>memory_records := update_where (\<lambda>r. m_memory_id r = i) g (memory_records d),
        memory_reviews := rs, memory_fts := reindex st i f (memory_fts d)\<rparr>)"
| conflict_filed: "memory_step E d (d\<lparr>memory_conflicts := cs\<rparr>)"
| reindexed:
    "map f_memory_id fs = map m_memory_id (sort_key m_memory_id (accepted_rows d)) \<Longrightarrow>
     memory_step E d (d\<lparr>memory_fts := fs\<rparr>)"

inductive_simps memory_edge_simps: "memory_step E d d'"

lemma find_memory_id: "find_memory d i = Some row \<Longrightarrow> m_memory_id row = i \<and> row \<in> set (memory_records d)"
  unfolding find_memory_def by (auto dest: find_Some_iff)

lemma memory_named_step: "memory_step E d d' \<Longrightarrow> memory_named d \<Longrightarrow> memory_named d'"
  unfolding memory_named_def
  by (erule memory_step.cases) (auto simp: set_update_where memory_core_def)

lemma memory_named_steps: "(memory_step E)\<^sup>*\<^sup>* d d' \<Longrightarrow> memory_named d \<Longrightarrow> memory_named d'"
  by (induction rule: rtranclp_induct) (auto intro: memory_named_step)

section \<open>The parts of the commands\<close>

lemma memory_version_Inr [tx_simps]:
  "expect_version ''memory_records'' i n s = Inr (m, s') \<longleftrightarrow> m = n \<and> s' = s \<and>
     n = (case map_option (\<lambda>r. mk_aggregate_version (m_marker r)) (find_memory (tx_db s) i) of None \<Rightarrow> 0 | Some v \<Rightarrow> v)"
  by (auto simp: expect_version_def current_version_def aggregate_versions_def tx_simps map_of_find find_memory_def)

lemma memory_row_Inr [tx_simps]:
  "memory_row i s = Inr (r, s') \<longleftrightarrow> find_memory (tx_db s) i = Some r \<and> s' = s"
  by (auto simp: memory_row_def tx_simps)

lemma text_item_Inr [tx_simps]: "text_item d k = Inr s \<longleftrightarrow> map_of d k = Some (JStr s)"
  by (auto simp: text_item_def tx_simps)

lemma memory_state_of_text [simp]: "memory_state_of s = Some m \<longleftrightarrow> memory_state_text m = s"
proof
  show "memory_state_of s = Some m \<Longrightarrow> memory_state_text m = s"
    unfolding memory_state_of_def by (drule find_Some_iff) simp
  show "memory_state_text m = s \<Longrightarrow> memory_state_of s = Some m"
    by (cases m) (auto simp: memory_state_of_def)
qed

lemma names_memory_norm: "names_memory (norm (JObj d)) i \<longleftrightarrow> map_of d ''memory_id'' = Some (JStr i)"
proof -
  have "norm v = JStr i \<longleftrightarrow> v = JStr i" for v by (cases v) (simp_all add: norm_JObj float_norm_def split: pyfloat.splits)
  then show ?thesis by (auto simp: names_memory_def get_norm)
qed

lemma update_projection_D:
  assumes "update_projection E record marker now rb aa sr s = Inr (u, s')"
    and "map_of record ''memory_id'' = Some (JStr i)" and "map_of record ''review_state'' = Some (JStr t)"
    and "map_of record ''aggregate_version'' = Some (JInt v)"
  obtains g st where "s' = s\<lparr>tx_db := (tx_db s)\<lparr>memory_records := update_where (\<lambda>r. m_memory_id r = i) g (memory_records (tx_db s))\<rparr>\<rparr>"
    and "memory_state_text st = t" and "\<And>r. memory_core (g r) = memory_core r"
    and "\<And>r. m_marker (g r) = marker\<lparr>mk_aggregate_version := v\<rparr>" and "\<And>r. m_review_state (g r) = st"
    and "\<And>r. names_memory (m_record (g r)) i" and "\<And>r. m_record (g r) = norm (JObj record)"
proof -
  have v: "bind_int (JInt v) = Inr n \<Longrightarrow> n = v" for n
    by (auto simp: bind_int_def lossless_int_def split: if_splits)
  from assms(1) obtain st h ra vu where st: "memory_state_text st = t" and
    s': "s' = s\<lparr>tx_db := (tx_db s)\<lparr>memory_records := update_where (\<lambda>r. m_memory_id r = i) (\<lambda>r. r\<lparr>
       m_marker := marker\<lparr>mk_aggregate_version := v\<rparr>, m_review_state := st,
       m_record_sha256 := h, m_record := norm (JObj record),
       m_reviewed_by := coalesce rb (m_reviewed_by r), m_accepted_at := coalesce aa (m_accepted_at r),
       m_stale_reason := sr, m_revalidate_at := ra, m_valid_until := vu,
       m_updated_at := now\<rparr>) (memory_records (tx_db s))\<rparr>\<rparr>"
    using assms(2-4)
    by (auto simp: update_projection_def tx_simps update_memory_def dest!: canonical_Inr v)
  show ?thesis
    by (rule that [OF s' st]) (simp_all add: memory_core_def names_memory_norm assms(2))
qed

lemma update_projection_frame:
  assumes "update_projection E record marker now rb aa sr s = Inr (u, s')"
  shows "memory_fts (tx_db s') = memory_fts (tx_db s) \<and> memory_reviews (tx_db s') = memory_reviews (tx_db s) \<and>
    events (tx_db s') = events (tx_db s)"
  using assms by (auto simp: update_projection_def tx_simps update_memory_def)

lemma index_record_D:
  assumes "index_record L record s = Inr (u, s')" and "map_of record ''memory_id'' = Some (JStr i)"
  obtains f where "f_memory_id f = i"
    and "s' = s\<lparr>tx_db := (tx_db s)\<lparr>memory_fts := filter (\<lambda>r. f_memory_id r \<noteq> i) (memory_fts (tx_db s)) @ [f]\<rparr>\<rparr>"
proof -
  from assms(1) obtain f where f: "fts_entry L record = Inr f" and
    s': "s' = s\<lparr>tx_db := (tx_db s)\<lparr>memory_fts := filter (\<lambda>r. f_memory_id r \<noteq> f_memory_id f) (memory_fts (tx_db s)) @ [f]\<rparr>\<rparr>"
    by (auto simp: index_record_def tx_simps delete_fts_def)
  moreover from f assms(2) have "f_memory_id f = i" by (auto simp: fts_entry_def tx_simps)
  ultimately show ?thesis using that by simp
qed

section \<open>The commands\<close>

lemma candidate_record_id: "candidate_record fs act now i = Inr record \<Longrightarrow> map_of record ''memory_id'' = Some (JStr i)"
  by (auto simp: candidate_record_def tx_simps)

lemma projection_row_D:
  assumes "projection_row E L record h m now = Inr r" and "map_of record ''memory_id'' = Some (JStr i)"
  shows "m_memory_id r = i \<and> m_marker r = m\<lparr>mk_aggregate_version := 1\<rparr> \<and> m_review_state r = MCandidate \<and> names_memory (m_record r) i"
  using assms by (auto simp: projection_row_def tx_simps names_memory_norm dest!: canonical_Inr)

lemma store_candidate_step:
  assumes "store_candidate E L key act rcd i scope h now s = Inr (res, s')" and r: "map_of rcd ''memory_id'' = Some (JStr i)"
  shows "memory_step E (tx_db s) (tx_db s')"
proof -
  let ?a = "\<lambda>sha ty sens. \<lparr>aggregate_type = ''memory'', aggregate_id = i, event_type = ''memory.created'',
           aggregate_version = 1, actor = act,
           payload = JObj [(''candidate_sha256'', JStr h), (''record_sha256'', JStr sha),
             (''scope'', JStr scope), (''type'', ty)],
           sensitivity = sens, occurred_at = None\<rparr>"
  from assms(1) obtain sha ty sens m s2 row where
    e: "append_event E key (?a sha ty sens) s = Inr (m, s2)"
    and row: "projection_row E L rcd h m now = Inr row"
    and s': "tx_db s' = tx_db s2\<lparr>memory_records := memory_records (tx_db s2) @ [row]\<rparr>"
    by (auto simp: store_candidate_def tx_simps insert_memory_def projection_updated_def)
  from append_event_D [OF e] obtain ev where f: "follows E key (?a sha ty sens) (tx_db s) ev"
    and m: "m = marker_of ev" and s2: "tx_db s2 = push_event ev (tx_db s)" by auto
  have "memory_step E (tx_db s) ((push_event ev (tx_db s))\<lparr>memory_records := memory_records (tx_db s) @ [row]\<rparr>)"
    by (rule created [OF f]) (use projection_row_D [OF row r] f m in simp_all)
  then show ?thesis using s' s2 by simp
qed

lemma create_candidate_effect:
  assumes "create_candidate_op E L key fs act s = Inr (res, s')"
  shows "(memory_step E)\<^sup>*\<^sup>* (tx_db s) (tx_db s')"
  using assms unfolding create_candidate_op_def
  by (auto simp: tx_simps split: option.splits dest!: candidate_record_id store_candidate_step)

lemma memory_version_D:
  "expect_version ''memory_records'' i n s = Inr (m, s') \<Longrightarrow>
   s' = s \<and> (\<forall>r. find_memory (tx_db s) i = Some r \<longrightarrow> n = mk_aggregate_version (m_marker r))"
  by (auto simp: memory_version_Inr)

lemmas command_simps = tx_Inr_iff step_Inr_iff memory_row_Inr projection_updated_def

text \<open>The event of a change of state and the change of the row that goes with it.\<close>

lemma change_step:
  assumes row: "find_memory (tx_db s) i = Some row" and edge: "memory_edge (m_review_state row) st"
    and e: "append_event E key a s = Inr (m, s1)"
    and a: "aggregate_type a = ''memory''" "aggregate_id a = i" "event_type a = ''memory.'' @ memory_state_text st"
      "aggregate_version a = mk_aggregate_version (m_marker row) + 1"
    and u: "update_projection E rcd m now rb aa sr s1' = Inr (w, s2)" "tx_db s1' = tx_db s1"
    and rcd: "map_of rcd ''memory_id'' = Some (JStr i)" "map_of rcd ''review_state'' = Some (JStr (memory_state_text st))"
      "map_of rcd ''aggregate_version'' = Some (JInt (aggregate_version a))"
    and s': "tx_db s' = tx_db s2\<lparr>memory_reviews := rs, memory_fts := reindex st i f (memory_fts (tx_db s))\<rparr>"
    and f: "f_memory_id f = i"
  shows "memory_step E (tx_db s) (tx_db s')"
proof -
  from append_event_D [OF e] obtain ev where ev: "follows E key a (tx_db s) ev" and m: "m = marker_of ev"
    and s1: "tx_db s1 = push_event ev (tx_db s)" by auto
  have v: "marker_of ev\<lparr>mk_aggregate_version := aggregate_version a\<rparr> = marker_of ev"
    using ev by simp
  from update_projection_D [OF u(1) rcd] obtain g st' where
    s2: "s2 = s1'\<lparr>tx_db := (tx_db s1')\<lparr>memory_records := update_where (\<lambda>r. m_memory_id r = i) g (memory_records (tx_db s1'))\<rparr>\<rparr>"
    and g: "memory_state_text st' = memory_state_text st" "\<And>r. memory_core (g r) = memory_core r"
      "\<And>r. m_marker (g r) = m\<lparr>mk_aggregate_version := aggregate_version a\<rparr>" "\<And>r. m_review_state (g r) = st'"
      "\<And>r. names_memory (m_record (g r)) i"
    by metis
  have st: "st' = st" using g(1) by simp
  have "memory_step E (tx_db s) ((push_event ev (tx_db s))
       \<lparr>memory_records := update_where (\<lambda>r. m_memory_id r = i) g (memory_records (tx_db s)),
        memory_reviews := rs, memory_fts := reindex st i f (memory_fts (tx_db s))\<rparr>)"
    by (rule moved [OF row edge ev a(1) a(2) a(3) a(4) g(2)]) (simp_all add: g(3-5) m v st f)
  then show ?thesis using s' s2 u(2) s1 by simp
qed

lemma row_named:
  assumes "memory_named d" and "find_memory d i = Some row"
  shows "map_of (dict_of (m_record row)) ''memory_id'' = Some (JStr i)"
  using assms find_memory_id [OF assms(2)]
  by (cases "m_record row") (auto simp: memory_named_def names_memory_def get_def dict_of_def)

lemma mark_stale_D:
  assumes "mark_stale_op E key i reason v act s = Inr (res, s')"
  obtains row sha sens m s1 now w s2 where "find_memory (tx_db s) i = Some row" and "v = mk_aggregate_version (m_marker row)"
    and "m_review_state row = MAccepted"
    and "append_event E key \<lparr>aggregate_type = ''memory'', aggregate_id = i, event_type = ''memory.stale'',
         aggregate_version = v + 1, actor = act,
         payload = JObj [(''reason'', JStr reason), (''record_sha256'', JStr sha)],
         sensitivity = sens, occurred_at = None\<rparr> s = Inr (m, s1)"
    and "update_projection E (dict_merge (dict_of (m_record row)) [(''aggregate_version'', JInt (v + 1)), (''review_state'', JStr ''stale'')])
         m now None None (Some reason) (s1\<lparr>tick := Suc (tick s1)\<rparr>) = Inr (w, s2)"
    and "tx_db s' = delete_fts i (tx_db s2)"
  using assms
  apply (simp only: mark_stale_op_def Let_def command_simps)
  apply (elim exE conjE)
  apply (drule memory_version_D)
  apply (elim exE conjE)
  apply hypsubst
  apply (rule that)
  apply assumption
  apply simp
  apply assumption
  apply assumption
  apply assumption
  apply (simp only: tx_eval sum.inject prod.inject)
  apply (elim conjE)
  apply hypsubst
  apply simp
  done

lemma mark_stale_effect:
  assumes "mark_stale_op E key i reason v act s = Inr (res, s')" and n: "memory_named (tx_db s)"
  shows "memory_step E (tx_db s) (tx_db s')"
proof -
  let ?rcd = "\<lambda>row. dict_merge (dict_of (m_record row)) [(''aggregate_version'', JInt (v + 1)), (''review_state'', JStr ''stale'')]"
  from mark_stale_D [OF assms(1)] obtain row sha sens m s1 now w s2 where row: "find_memory (tx_db s) i = Some row"
    and v: "v = mk_aggregate_version (m_marker row)" and st: "m_review_state row = MAccepted"
    and e: "append_event E key \<lparr>aggregate_type = ''memory'', aggregate_id = i, event_type = ''memory.stale'',
         aggregate_version = v + 1, actor = act,
         payload = JObj [(''reason'', JStr reason), (''record_sha256'', JStr sha)],
         sensitivity = sens, occurred_at = None\<rparr> s = Inr (m, s1)"
    and u: "update_projection E (?rcd row) m now None None (Some reason) (s1\<lparr>tick := Suc (tick s1)\<rparr>) = Inr (w, s2)"
    and s': "tx_db s' = delete_fts i (tx_db s2)"
    by blast
  obtain ev where s1: "tx_db s1 = push_event ev (tx_db s)" using append_event_D [OF e] by auto
  have id: "map_of (?rcd row) ''memory_id'' = Some (JStr i)" using row_named [OF n row] by simp
  have fts: "memory_fts (tx_db s2) = memory_fts (tx_db s)"
    using update_projection_frame [OF u] s1 by simp
  show ?thesis
  proof (rule change_step [OF row _ e _ _ _ _ u _ id, where st = MStale and rs = "memory_reviews (tx_db s2)" and
        f = "\<lparr>f_memory_id = i, f_statement = [], f_labels = [], f_source_metadata = []\<rparr>"])
    show "tx_db s' = tx_db s2\<lparr>memory_reviews := memory_reviews (tx_db s2), memory_fts := reindex MStale i
        \<lparr>f_memory_id = i, f_statement = [], f_labels = [], f_source_metadata = []\<rparr> (memory_fts (tx_db s))\<rparr>"
      by (simp add: s' delete_fts_def reindex_def fts)
  qed (simp_all add: st v memory_edge_def)
qed

lemma revalidate_effect:
  assumes "revalidate_op E L key i evidence ra v act s = Inr (res, s')" and n: "memory_named (tx_db s)"
  shows "memory_step E (tx_db s) (tx_db s')"
proof -
  let ?rcd = "\<lambda>row. dict_merge (dict_of (m_record row)) [(''aggregate_version'', JInt (v + 1)),
     (''evidence_refs'', JList (map JObj evidence)), (''revalidate_at'', JStr ra), (''review_state'', JStr ''accepted'')]"
  let ?a = "\<lambda>row sha sens. \<lparr>aggregate_type = ''memory'', aggregate_id = i, event_type = ''memory.accepted'',
         aggregate_version = v + 1, actor = act,
         payload = JObj [(''reason'', JStr ''revalidated''), (''record_sha256'', JStr sha)],
         sensitivity = sens, occurred_at = None\<rparr>"
  from assms(1) obtain row sha sens m s1 now w s2 w' s3 where row: "find_memory (tx_db s) i = Some row"
    and v: "v = mk_aggregate_version (m_marker row)" and st: "m_review_state row = MStale"
    and e: "append_event E key (?a row sha sens) s = Inr (m, s1)"
    and u: "update_projection E (?rcd row) m now None None None (s1\<lparr>tick := Suc (tick s1)\<rparr>) = Inr (w, s2)"
    and x: "index_record L (?rcd row) s2 = Inr (w', s3)"
    and s': "tx_db s' = tx_db s3"
    apply (simp only: revalidate_op_def Let_def command_simps)
    apply (elim exE conjE)
    apply (drule memory_version_D)
    apply (elim exE conjE)
    apply hypsubst
    apply (rule that)
    apply assumption
    apply simp
    apply assumption
    apply assumption
    apply assumption
    apply assumption
    apply (simp only: tx_eval sum.inject prod.inject)
    apply (elim conjE)
    apply hypsubst
    apply simp
    done
  obtain ev where s1: "tx_db s1 = push_event ev (tx_db s)" using append_event_D [OF e] by auto
  have id: "map_of (?rcd row) ''memory_id'' = Some (JStr i)" using row_named [OF n row] by simp
  have fts: "memory_fts (tx_db s2) = memory_fts (tx_db s)"
    using update_projection_frame [OF u] s1 by simp
  obtain f where f: "f_memory_id f = i" "tx_db s3 = tx_db s2\<lparr>memory_fts := filter (\<lambda>r. f_memory_id r \<noteq> i) (memory_fts (tx_db s2)) @ [f]\<rparr>"
    by (rule index_record_D [OF x id]) simp
  show ?thesis
  proof (rule change_step [OF row _ e _ _ _ _ u _ id, where st = MAccepted and rs = "memory_reviews (tx_db s2)" and f = f])
    show "tx_db s' = tx_db s2\<lparr>memory_reviews := memory_reviews (tx_db s2), memory_fts := reindex MAccepted i f (memory_fts (tx_db s))\<rparr>"
      by (simp add: s' f reindex_def fts)
  qed (simp_all add: st v f memory_edge_def)
qed

text \<open>A loop makes the steps of its turns, as long as records name their rows.\<close>

lemma tfor_steps:
  assumes "tfor f xs s = Inr (u, s')" and "memory_named (tx_db s)"
    and "\<And>x s w s'. f x s = Inr (w, s') \<Longrightarrow> memory_named (tx_db s) \<Longrightarrow> memory_step E (tx_db s) (tx_db s')"
  shows "(memory_step E)\<^sup>*\<^sup>* (tx_db s) (tx_db s')"
  using assms(1, 2)
proof (induction xs arbitrary: s)
  case (Cons x xs)
  then obtain w s1 where x: "f x s = Inr (w, s1)" and r: "tfor f xs s1 = Inr (u, s')" by (auto simp: tx_simps)
  have step: "memory_step E (tx_db s) (tx_db s1)" by (rule assms(3) [OF x Cons.prems(2)])
  from Cons.IH [OF r memory_named_step [OF step Cons.prems(2)]] step show ?case by (rule converse_rtranclp_into_rtranclp [rotated])
qed simp

lemma supersede_one_D:
  assumes "supersede_one E key rec act now i s = Inr (u, s')"
  obtains row by' sha sens m s1 w s2 where "find_memory (tx_db s) i = Some row" and "m_review_state row = MAccepted"
    and "append_event E key \<lparr>aggregate_type = ''memory'', aggregate_id = i, event_type = ''memory.superseded'',
         aggregate_version = mk_aggregate_version (m_marker row) + 1, actor = act,
         payload = JObj [(''superseded_by'', by'), (''record_sha256'', JStr sha)],
         sensitivity = sens, occurred_at = None\<rparr> s = Inr (m, s1)"
    and "update_projection E (dict_merge (dict_of (m_record row))
         [(''aggregate_version'', JInt (mk_aggregate_version (m_marker row) + 1)), (''review_state'', JStr ''superseded'')])
         m now None None None s1 = Inr (w, s2)"
    and "tx_db s' = delete_fts i (tx_db s2)"
  using assms
  apply (simp only: supersede_one_def Let_def command_simps)
  apply (elim exE conjE)
  apply hypsubst
  apply (rule that)
  apply assumption
  apply assumption
  apply assumption
  apply assumption
  apply simp
  done

lemma supersede_one_effect:
  assumes "supersede_one E key rec act now i s = Inr (u, s')" and n: "memory_named (tx_db s)"
  shows "memory_step E (tx_db s) (tx_db s')"
proof -
  let ?v = "\<lambda>row. mk_aggregate_version (m_marker row) + 1"
  let ?rcd = "\<lambda>row. dict_merge (dict_of (m_record row)) [(''aggregate_version'', JInt (?v row)), (''review_state'', JStr ''superseded'')]"
  from supersede_one_D [OF assms(1)] obtain row by' sha sens m s1 w s2 where row: "find_memory (tx_db s) i = Some row"
    and st: "m_review_state row = MAccepted"
    and e: "append_event E key \<lparr>aggregate_type = ''memory'', aggregate_id = i, event_type = ''memory.superseded'',
         aggregate_version = ?v row, actor = act,
         payload = JObj [(''superseded_by'', by'), (''record_sha256'', JStr sha)],
         sensitivity = sens, occurred_at = None\<rparr> s = Inr (m, s1)"
    and u: "update_projection E (?rcd row) m now None None None s1 = Inr (w, s2)"
    and s': "tx_db s' = delete_fts i (tx_db s2)"
    by blast
  obtain ev where s1: "tx_db s1 = push_event ev (tx_db s)" using append_event_D [OF e] by auto
  have id: "map_of (?rcd row) ''memory_id'' = Some (JStr i)" using row_named [OF n row] by simp
  have fts: "memory_fts (tx_db s2) = memory_fts (tx_db s)"
    using update_projection_frame [OF u] s1 by simp
  show ?thesis
  proof (rule change_step [OF row _ e _ _ _ _ u _ id, where st = MSuperseded and rs = "memory_reviews (tx_db s2)" and
        f = "\<lparr>f_memory_id = i, f_statement = [], f_labels = [], f_source_metadata = []\<rparr>"])
    show "tx_db s' = tx_db s2\<lparr>memory_reviews := memory_reviews (tx_db s2), memory_fts := reindex MSuperseded i
        \<lparr>f_memory_id = i, f_statement = [], f_labels = [], f_source_metadata = []\<rparr> (memory_fts (tx_db s))\<rparr>"
      by (simp add: s' delete_fts_def reindex_def fts)
  qed (simp_all add: st memory_edge_def)
qed

lemma supersede_effect:
  assumes "supersede_in_tx E key rec act now s = Inr (u, s')" and "memory_named (tx_db s)"
  shows "(memory_step E)\<^sup>*\<^sup>* (tx_db s) (tx_db s')"
proof -
  from assms(1) obtain ids where "tfor (supersede_one E key rec act now) ids s = Inr (u, s')"
    by (auto simp: supersede_in_tx_def tx_simps)
  then show ?thesis by (rule tfor_steps [OF _ assms(2)]) (rule supersede_one_effect)
qed

lemma accept_or_quarantine_effect:
  assumes "accept_or_quarantine E L i rec checks s = Inr (state, s')"
  shows "\<exists>cs. tx_db s' = tx_db s\<lparr>memory_conflicts := cs\<rparr>" and "state \<in> {''accepted'', ''quarantined''}"
proof -
  have "(\<exists>cs. tx_db s' = tx_db s\<lparr>memory_conflicts := cs\<rparr>) \<and> state \<in> {''accepted'', ''quarantined''}"
  proof -
    have same: "\<exists>cs. d = d\<lparr>memory_conflicts := cs\<rparr>" for d :: db by (rule exI [of _ "memory_conflicts d"]) simp
    show ?thesis
      using assms unfolding accept_or_quarantine_def
      by (auto simp: tx_simps uuid4_text_def insert_memory_conflict_def split: option.splits intro: same)
        (rule exI, rule refl)
  qed
  then show "\<exists>cs. tx_db s' = tx_db s\<lparr>memory_conflicts := cs\<rparr>" and "state \<in> {''accepted'', ''quarantined''}" by blast+
qed

text \<open>The record that a decision makes.\<close>

definition decided :: "memory_row \<Rightarrow> int \<Rightarrow> string \<Rightarrow> string dict" where
  "decided row v state = dict_merge (dict_of (m_record row)) [(''aggregate_version'', JInt (v + 1)), (''review_state'', JStr state)]"

lemma record_decision_D:
  assumes "record_decision E L key i decision v reviewer checks ind (dict_of (m_record row)) state s = Inr (res, s')"
  obtains sha csha sens m s1 now w s2 rs s3 w' s4 where
    "append_event E key \<lparr>aggregate_type = ''memory'', aggregate_id = i, event_type = ''memory.'' @ state,
         aggregate_version = v + 1, actor = reviewer,
         payload = JObj [(''record_sha256'', JStr sha), (''review_state'', JStr state), (''source_check_sha256'', JStr csha)],
         sensitivity = sens, occurred_at = None\<rparr> (s\<lparr>tick := Suc (tick s)\<rparr>) = Inr (m, s1)"
    and "update_projection E (decided row v state) m now (Some reviewer) (if state = ''accepted'' then Some now else None) None s1 = Inr (w, s2)"
    and "tx_db s3 = tx_db s2\<lparr>memory_reviews := rs\<rparr>"
    and "(if state = ''accepted''
            then tbind (index_record L (decided row v state)) (\<lambda>_. supersede_in_tx E key (decided row v state) reviewer now)
            else tret ()) s3 = Inr (w', s4)"
    and "tx_db s' = tx_db s4"
  using assms
  apply (simp only: record_decision_def decided_def [symmetric] Let_def command_simps)
  apply (elim exE conjE)
  apply hypsubst
  apply (rule that)
  apply assumption
  apply assumption
  prefer 2
  apply assumption
  apply (auto simp: insert_memory_review_def tx_simps) [1]
  apply (simp only: tx_eval sum.inject prod.inject)
  apply (elim conjE)
  apply hypsubst
  apply simp
  done

lemma record_decision_effect:
  assumes "record_decision E L key i decision v reviewer checks ind (dict_of (m_record row)) state s = Inr (res, s')"
    and n: "memory_named (tx_db s)" and row: "find_memory (tx_db s) i = Some row" and st: "m_review_state row = MCandidate"
    and v: "v = mk_aggregate_version (m_marker row)" and state: "state \<in> {''accepted'', ''rejected'', ''quarantined''}"
  shows "(memory_step E)\<^sup>*\<^sup>* (tx_db s) (tx_db s')"
proof -
  let ?rcd = "decided row v state"
  let ?a = "\<lambda>sha csha sens. \<lparr>aggregate_type = ''memory'', aggregate_id = i, event_type = ''memory.'' @ state,
         aggregate_version = v + 1, actor = reviewer,
         payload = JObj [(''record_sha256'', JStr sha), (''review_state'', JStr state),
           (''source_check_sha256'', JStr csha)],
         sensitivity = sens, occurred_at = None\<rparr>"
  from record_decision_D [OF assms(1)] obtain sha csha sens m s1 now w s2 rs s3 w' s4 where
    e: "append_event E key (?a sha csha sens) (s\<lparr>tick := Suc (tick s)\<rparr>) = Inr (m, s1)"
    and u: "update_projection E ?rcd m now (Some reviewer) (if state = ''accepted'' then Some now else None) None s1 = Inr (w, s2)"
    and rv: "tx_db s3 = tx_db s2\<lparr>memory_reviews := rs\<rparr>"
    and x: "(if state = ''accepted''
            then tbind (index_record L ?rcd) (\<lambda>_. supersede_in_tx E key ?rcd reviewer now)
            else tret ()) s3 = Inr (w', s4)"
    and s': "tx_db s' = tx_db s4"
    by (rule record_decision_D [OF assms(1)], rule that)
  obtain ev where s1: "tx_db s1 = push_event ev (tx_db s)" using append_event_D [OF e] by auto
  have id: "map_of ?rcd ''memory_id'' = Some (JStr i)" using row_named [OF n row] by (simp add: decided_def)
  have fts: "memory_fts (tx_db s2) = memory_fts (tx_db s)"
    using update_projection_frame [OF u] s1 by simp
  obtain st' where st': "state = memory_state_text st'" "memory_edge MCandidate st'" "st' \<in> {MAccepted, MRejected, MQuarantined}"
  proof -
    have "\<exists>x \<in> {MAccepted, MRejected, MQuarantined}. state = memory_state_text x" using state by auto
    then obtain x where "x \<in> {MAccepted, MRejected, MQuarantined}" "state = memory_state_text x" by blast
    then show ?thesis by (intro that [of x]) (auto simp: memory_edge_def)
  qed
  have row': "find_memory (tx_db (s\<lparr>tick := Suc (tick s)\<rparr>)) i = Some row" using row by simp
  have step: "memory_step E (tx_db s) (tx_db s2\<lparr>memory_reviews := rs, memory_fts := reindex st' i f (memory_fts (tx_db s))\<rparr>)"
    if "f_memory_id f = i" for f
  proof -
    have "memory_step E (tx_db (s\<lparr>tick := Suc (tick s)\<rparr>))
        (tx_db (s2\<lparr>tx_db := tx_db s2\<lparr>memory_reviews := rs, memory_fts := reindex st' i f (memory_fts (tx_db s))\<rparr>\<rparr>))"
    proof (rule change_step [OF row' _ e _ _ _ _ u refl id, where st = st' and rs = rs and f = f])
      show "memory_edge (m_review_state row) st'" using st st'(2) by simp
    qed (simp_all add: st'(1) v that decided_def)
    then show ?thesis by simp
  qed
  show ?thesis
  proof (cases "state = ''accepted''")
    case True
    then have acc: "st' = MAccepted" using st'(1) by (cases st') auto
    from x True obtain w2 s5 where i: "index_record L ?rcd s3 = Inr (w2, s5)" and sup: "supersede_in_tx E key ?rcd reviewer now s5 = Inr (w', s4)"
      by (auto simp: tx_Inr_iff(3) simp del: dict_merge.simps)
    obtain f where f: "f_memory_id f = i" "tx_db s5 = tx_db s3\<lparr>memory_fts := filter (\<lambda>r. f_memory_id r \<noteq> i) (memory_fts (tx_db s3)) @ [f]\<rparr>"
      by (rule index_record_D [OF i id]) simp
    have one: "memory_step E (tx_db s) (tx_db s5)"
      using step [OF f(1)] f(2) rv fts acc by (simp add: reindex_def)
    have "(memory_step E)\<^sup>*\<^sup>* (tx_db s5) (tx_db s4)"
      by (rule supersede_effect [OF sup memory_named_step [OF one n]])
    with one s' show ?thesis by simp
  next
    case False
    then have "st' \<in> {MRejected, MQuarantined}" using st' by auto
    then have keep: "reindex st' i f rows = rows" for f rows by (auto simp: reindex_def)
    have "tx_db s2\<lparr>memory_reviews := rs, memory_fts := memory_fts (tx_db s)\<rparr> = tx_db s3"
      unfolding fts [symmetric] rv by simp
    then have "memory_step E (tx_db s) (tx_db s3)"
      using step [of "\<lparr>f_memory_id = i, f_statement = [], f_labels = [], f_source_metadata = []\<rparr>"] by (simp add: keep)
    moreover have "tx_db s4 = tx_db s3" using x False by (simp add: tx_eval)
    ultimately show ?thesis using s' by simp
  qed
qed

lemma review_candidate_D:
  assumes "review_candidate_op E L key i decision v reviewer checks ind s = Inr (res, s')"
  obtains row state s1 where "find_memory (tx_db s) i = Some row"
    and "v = mk_aggregate_version (m_marker row)" and "m_review_state row = MCandidate"
    and "reviewer_allowed (dict_of (m_record row)) decision reviewer = Inr ()"
    and "(if decision = ''accepted''
            then accept_or_quarantine E L i (dict_of (m_record row)) checks else tret decision) s = Inr (state, s1)"
    and "record_decision E L key i decision v reviewer checks ind (dict_of (m_record row)) state s1 = Inr (res, s')"
  using assms
  apply (simp only: review_candidate_op_def command_simps)
  apply (elim exE conjE)
  apply (drule memory_version_D)
  apply (elim conjE)
  apply hypsubst
  apply (rule that)
  apply assumption
  apply simp
  apply assumption
  apply simp
  apply assumption
  apply assumption
  done

lemma review_candidate_effect:
  assumes "review_candidate_op E L key i decision v reviewer checks ind s = Inr (res, s')"
    and n: "memory_named (tx_db s)" and d: "decision \<in> {''accepted'', ''rejected'', ''quarantined''}"
  shows "(memory_step E)\<^sup>*\<^sup>* (tx_db s) (tx_db s')"
proof -
  from review_candidate_D [OF assms(1)] obtain row state s1 where row: "find_memory (tx_db s) i = Some row"
    and v: "v = mk_aggregate_version (m_marker row)" and st: "m_review_state row = MCandidate"
    and a: "(if decision = ''accepted''
            then accept_or_quarantine E L i (dict_of (m_record row)) checks else tret decision) s = Inr (state, s1)"
    and r: "record_decision E L key i decision v reviewer checks ind (dict_of (m_record row)) state s1 = Inr (res, s')"
    by blast
  obtain cs where s1: "tx_db s1 = tx_db s\<lparr>memory_conflicts := cs\<rparr>" and state: "state \<in> {''accepted'', ''rejected'', ''quarantined''}"
  proof (cases "decision = ''accepted''")
    case True
    with a accept_or_quarantine_effect [of E L i "dict_of (m_record row)" checks s state s1] that show ?thesis by auto
  next
    case False
    with a d that [of "memory_conflicts (tx_db s)"] show ?thesis by auto
  qed
  have step: "memory_step E (tx_db s) (tx_db s1)" unfolding s1 by (rule conflict_filed)
  have "(memory_step E)\<^sup>*\<^sup>* (tx_db s1) (tx_db s')"
    by (rule record_decision_effect [OF r memory_named_step [OF step n] _ st v state]) (use row s1 in \<open>simp add: find_memory_def\<close>)
  with step show ?thesis by simp
qed

end
