(* ===== verification/MemoryLife.thy ===== *)
theory MemoryLife
  imports MemorySteps Evolution
begin

text \<open>
  The life of memories in a store that serves requests to Core and to \<open>MemoryService\<close> in any order: every memory
  follows its state machine, announced event by event, and the full-text index lists the accepted memories.
\<close>

section \<open>Requests\<close>

datatype memory_request =
    CreateCandidate "string dict" string string
  | ReviewCandidate string string int string "string dict list" "string dict" string
  | MarkStale string string int string string
  | Revalidate string "string dict list" string int string string
  | SweepStale string string
  | MarkSourceChanged string string string string
  | ImportExport "string dict" string string
  | RebuildIndex string "string list"

text \<open>The database after a request, whether it returned or raised. A request that issues several commands has
  the environments \<open>S\<close> for them.\<close>

fun perform_memory :: "env \<Rightarrow> (string \<Rightarrow> env) \<Rightarrow> library \<Rightarrow> memory_request \<Rightarrow> db \<Rightarrow> db" where
  "perform_memory E S L (CreateCandidate fs act key) d = snd (create_candidate E L fs act key d)"
| "perform_memory E S L (ReviewCandidate i decision v reviewer checks ind key) d =
     snd (review_candidate E L i decision v reviewer checks ind key d)"
| "perform_memory E S L (MarkStale i reason v act key) d = snd (mark_stale E i reason v act key d)"
| "perform_memory E S L (Revalidate i evidence ra v act key) d = snd (revalidate E L i evidence ra v act key d)"
| "perform_memory E S L (SweepStale now act) d = snd (sweep_stale S now act d)"
| "perform_memory E S L (MarkSourceChanged uri sha observed_at act) d = snd (mark_source_changed S uri sha observed_at act d)"
| "perform_memory E S L (ImportExport export act key) d = snd (import_export E S L export act key d)"
| "perform_memory E S L (RebuildIndex check files) d = snd (rebuild_index E L check files d)"

section \<open>Requests make steps\<close>

text \<open>A change is a step under some environment, or the recording of a command.\<close>

inductive memory_change :: "db \<Rightarrow> db \<Rightarrow> bool" where
  step: "memory_step E d d' \<Longrightarrow> memory_change d d'"
| recorded: "memory_change d (d\<lparr>command_dedup := dd\<rparr>)"

definition memory_changes :: "db \<Rightarrow> db \<Rightarrow> bool" where
  "memory_changes d d' \<longleftrightarrow> memory_change\<^sup>*\<^sup>* d d'"

lemma changes_refl [simp]: "memory_changes d d"
  by (simp add: memory_changes_def)

lemma changes_trans: "memory_changes d d1 \<Longrightarrow> memory_changes d1 d2 \<Longrightarrow> memory_changes d d2"
  unfolding memory_changes_def by (rule rtranclp_trans)

lemma named_change: "memory_change d d' \<Longrightarrow> memory_named d \<Longrightarrow> memory_named d'"
  by (erule memory_change.cases) (auto dest: memory_named_step simp: memory_named_def)

lemma named_changes: "memory_changes d d' \<Longrightarrow> memory_named d \<Longrightarrow> memory_named d'"
  unfolding memory_changes_def by (induction rule: rtranclp_induct) (auto intro: named_change)

lemma steps_changes: "(memory_step E)\<^sup>*\<^sup>* d d' \<Longrightarrow> memory_changes d (d'\<lparr>command_dedup := dd\<rparr>)"
proof -
  assume "(memory_step E)\<^sup>*\<^sup>* d d'"
  then have "memory_change\<^sup>*\<^sup>* d d'"
    by (induction rule: rtranclp_induct) (auto intro: rtranclp.rtrancl_into_rtrancl step)
  then show ?thesis unfolding memory_changes_def by (rule rtranclp.rtrancl_into_rtrancl) (rule recorded)
qed

lemma run_command_changes:
  assumes "memory_named d" and "\<And>s res s'. op s = Inr (res, s') \<Longrightarrow> memory_named (tx_db s) \<Longrightarrow> (memory_step E)\<^sup>*\<^sup>* (tx_db s) (tx_db s')"
  shows "memory_changes d (snd (run_command E key cmd op d))"
proof -
  obtain out d' where r: "run_command E key cmd op d = (out, d')" by fastforce
  from run_command_effect [OF r] consider "d' = d" | res where "took_effect op d res d'" by blast
  then show ?thesis
  proof cases
    case 2
    then obtain s s' q where "tx_db s = d" "op s = Inr (res, s')" "d' = tx_db s'\<lparr>command_dedup := command_dedup (tx_db s') @ [q]\<rparr>"
      by (auto simp: took_effect_def)
    with assms r show ?thesis by (auto intro: steps_changes)
  qed (simp add: r)
qed

lemma checked_changes: "(\<And>a. memory_changes d (snd (f a d))) \<Longrightarrow> memory_changes d (snd (checked pre f d))"
  by (cases pre) (simp_all add: checked_def)

lemma create_changes: "memory_named d \<Longrightarrow> memory_changes d (snd (create_candidate E L fs act key d))"
  unfolding create_candidate_def
  by (intro checked_changes run_command_changes) (auto intro: create_candidate_effect)

lemma mark_stale_changes: "memory_named d \<Longrightarrow> memory_changes d (snd (mark_stale E i reason v act key d))"
  unfolding mark_stale_def by (intro run_command_changes) (auto intro: mark_stale_effect)

lemma review_changes:
  assumes "memory_named d"
  shows "memory_changes d (snd (review_candidate E L i decision v reviewer checks ind key d))"
proof (cases "decision \<in> {''accepted'', ''rejected'', ''quarantined''}")
  case True
  show ?thesis unfolding review_candidate_def
    by (intro checked_changes run_command_changes assms) (rule review_candidate_effect [OF _ _ True])
qed (simp add: review_candidate_def checked_def)

lemma sweep_changes: "memory_named d \<Longrightarrow> memory_changes d (snd (sweep S act judge key rs d))"
proof (induction rs arbitrary: d)
  case (Cons r rs)
  have one: "memory_changes d (snd (mark_stale (S (m_memory_id r)) (m_memory_id r) reason v act k d))" for reason v k
    by (rule mark_stale_changes [OF Cons.prems])
  have all: "memory_changes d (snd (sweep S act judge key rs (snd (mark_stale (S (m_memory_id r)) (m_memory_id r) reason v act k d))))"
    for reason v k
    by (rule changes_trans [OF one Cons.IH [OF named_changes [OF one Cons.prems]]])
  show ?case
    using Cons.IH [OF Cons.prems] one all
    by (auto split: sum.splits option.splits prod.splits) (metis snd_conv)+
qed simp

lemma import_changes: "memory_named d \<Longrightarrow> memory_changes d (snd (import_records S L act key rs d))"
proof (induction rs arbitrary: d)
  case (Cons r rs)
  have one: "memory_changes d (snd (create_candidate E L fs act k d))" for E fs k
    by (rule create_changes [OF Cons.prems])
  have all: "memory_changes d (snd (import_records S L act key rs (snd (create_candidate E L fs act k d))))" for E fs k
    by (rule changes_trans [OF one Cons.IH [OF named_changes [OF one Cons.prems]]])
  show ?case
    using one all by (auto split: sum.splits prod.splits) (metis snd_conv)+
qed simp

lemma rebuild_changes:
  assumes n: "memory_named d" and k: "distinct (map m_memory_id (memory_records d))"
  shows "memory_changes d (snd (rebuild_index E L check files d))"
proof (cases "index_rows L d")
  case (Inr rows)
  have "mapE (\<lambda>r. fts_entry L (dict_of (m_record r))) rs = Inr fs \<Longrightarrow> \<forall>r \<in> set rs. names_memory (m_record r) (m_memory_id r) \<Longrightarrow>
      map f_memory_id fs = map m_memory_id rs" for rs fs
  proof (induction rs arbitrary: fs)
    case (Cons r rs)
    then have "map_of (dict_of (m_record r)) ''memory_id'' = Some (JStr (m_memory_id r))"
      by (cases "m_record r") (auto simp: names_memory_def get_def dict_of_def)
    with Cons show ?case by (auto simp: bindE_Inr_iff fts_entry_def text_item_Inr)
  qed simp
  from this [OF Inr [unfolded index_rows_def]] n
  have "map f_memory_id rows = map m_memory_id (sort_key m_memory_id (accepted_rows d))"
    by (auto simp: accepted_rows_def memory_named_def)
  then have "memory_step E d (d\<lparr>memory_fts := rows\<rparr>)" by (rule reindexed)
  with Inr show ?thesis by (auto simp: rebuild_index_def Let_def memory_changes_def intro: step)
qed (simp add: rebuild_index_def)

lemma perform_memory_changes:
  assumes "memory_named d" and "distinct (map m_memory_id (memory_records d))"
  shows "memory_changes d (perform_memory E S L r d)"
proof (cases r)
  case (SweepStale now act)
  then show ?thesis using sweep_changes [OF assms(1)] by (auto simp: sweep_stale_def split: sum.splits)
next
  case (MarkSourceChanged uri sha observed_at act)
  then show ?thesis using sweep_changes [OF assms(1)] by (auto simp: mark_source_changed_def split: sum.splits)
next
  case (ImportExport export act key)
  have "memory_changes d d'" if "import_records S L act key rs d = (out, d')" for rs out d'
    using import_changes [OF assms(1)] that by (metis snd_conv)
  then show ?thesis using ImportExport by (auto simp: import_export_def split: sum.splits prod.splits)
next
  case (Revalidate i evidence ra v act key)
  then show ?thesis
    by (simp add: revalidate_def) (intro run_command_changes assms(1), auto intro: revalidate_effect)
qed (simp_all add: create_changes review_changes mark_stale_changes rebuild_changes assms)

section \<open>The machine and the index\<close>

definition memory_announces :: "event_row \<Rightarrow> memory_state \<Rightarrow> bool" where
  "memory_announces e s \<longleftrightarrow>
     ev_event_type e = (if s = MCandidate then ''memory.created'' else ''memory.'' @ memory_state_text s)"

text \<open>The index has one entry for each accepted memory, and no other.\<close>

definition indexed :: "db \<Rightarrow> bool" where
  "indexed d \<longleftrightarrow> distinct (map f_memory_id (memory_fts d)) \<and>
     f_memory_id ` set (memory_fts d) = m_memory_id ` set (accepted_rows d)"

interpretation mm: machine_table memory_records m_memory_id m_marker "''memory''" m_review_state memory_announces memory_edge MCandidate
  by unfold_locales simp

definition memory_traced :: "db \<Rightarrow> bool" where
  "memory_traced d \<longleftrightarrow> traced memory_records m_memory_id m_review_state memory_announces memory_edge MCandidate d"

definition memory_inv :: "db \<Rightarrow> bool" where
  "memory_inv d \<longleftrightarrow> projections_ok d \<and> memory_named d \<and> memory_traced d \<and> indexed d"

text \<open>A database that has the log, the memories, the index and the projected tables of another.\<close>

lemma memory_inv_same:
  assumes "events d' = events d" "memory_records d' = memory_records d" "memory_fts d' = memory_fts d"
    "objectives d' = objectives d" "tasks d' = tasks d" "actions d' = actions d"
  shows "memory_inv d' \<longleftrightarrow> memory_inv d"
  using assms
  by (simp add: memory_inv_def projections_ok_def versions_positive_def tracks_def latest_event_def memory_named_def
      memory_traced_def traced_def events_of_def indexed_def accepted_rows_def)

section \<open>Steps of the service of memories\<close>

lemma memory_projections:
  assumes p: "projections_ok d" and f: "follows E k a d e" and o: "own_kind a d" and a: "aggregate_type a = ''memory''"
    and d': "events d' = events d @ [e]" "objectives d' = objectives d" "tasks d' = tasks d" "actions d' = actions d"
    and m: "tracks memory_records m_memory_id m_marker ''memory'' d'"
  shows "projections_ok d'"
proof -
  have "versions_positive (push_event e d)" using p f by (simp add: projections_ok_def versions_positive_push)
  then have "versions_positive d'" using d' by (simp add: versions_positive_def)
  moreover note q = p [unfolded projections_ok_def] and o = o [unfolded own_kind_def]
  moreover have "tracks objectives o_objective_id o_marker ''objective'' d'"
    by (rule ot.unrelated [OF _ f _ o d'(2, 1)]) (use q a in simp_all)
  moreover have "tracks tasks t_task_id t_marker ''task'' d'"
    by (rule tt.unrelated [OF _ f _ o d'(3, 1)]) (use q a in simp_all)
  moreover have "tracks actions a_action_id a_marker ''action'' d'"
    by (rule at.unrelated [OF _ f _ o d'(4, 1)]) (use q a in simp_all)
  ultimately show ?thesis using m by (simp add: projections_ok_def)
qed

lemma edge_announced: "memory_edge s t \<Longrightarrow> ev_event_type e = ''memory.'' @ memory_state_text t \<Longrightarrow> memory_announces e t"
  by (cases s) (auto simp: memory_edge_def memory_announces_def)

lemma own_kind_memory:
  assumes "projections_ok d" and "find_memory d i = Some row" and "aggregate_id a = i" and "aggregate_type a = ''memory''"
  shows "own_kind a d"
  using mt.latest_kind [of d row] assms find_memory_id [OF assms(2)] by (auto simp: own_kind_def projections_ok_def)

lemma indexed_moved:
  assumes x: "indexed d" and k: "distinct (map m_memory_id (memory_records d))" and row: "find_memory d i = Some row"
    and e: "memory_edge (m_review_state row) st" and f: "f_memory_id f = i"
    and g: "\<And>r. m_memory_id (g r) = m_memory_id r" "\<And>r. m_review_state (g r) = st"
    and d': "memory_records d' = update_where (\<lambda>r. m_memory_id r = i) g (memory_records d)"
      "memory_fts d' = reindex st i f (memory_fts d)"
  shows "indexed d'"
proof -
  have one: "r = row" if "r \<in> set (memory_records d)" "m_memory_id r = i" for r
    using find_by_key [of m_memory_id "memory_records d" r] k row that by (simp add: find_memory_def)
  have i: "m_memory_id row = i" "row \<in> set (memory_records d)" using find_memory_id [OF row] by simp_all
  have acc: "m_memory_id ` set (accepted_rows d') =
      {m_memory_id r |r. r \<in> set (accepted_rows d) \<and> m_memory_id r \<noteq> i} \<union> (if st = MAccepted then {i} else {})"
    using i g by (auto simp: accepted_rows_def d'(1) set_update_where) (rule image_eqI [of _ _ "g row"], auto)
  have old: "f_memory_id ` set (memory_fts d) = m_memory_id ` set (accepted_rows d)"
    and dist: "distinct (map f_memory_id (memory_fts d))"
    using x by (simp_all add: indexed_def)
  let ?fs = "filter (\<lambda>r. f_memory_id r \<noteq> i) (memory_fts d)"
  have fs: "f_memory_id ` set ?fs = {m_memory_id r |r. r \<in> set (accepted_rows d) \<and> m_memory_id r \<noteq> i}"
  proof -
    have "f_memory_id ` set ?fs = f_memory_id ` set (memory_fts d) - {i}" by auto
    then show ?thesis unfolding old by auto
  qed
  have "distinct (map f_memory_id ?fs)" using dist by (rule distinct_map_filter)
  moreover have "i \<notin> f_memory_id ` set ?fs" by auto
  moreover have "{m_memory_id r |r. r \<in> set (accepted_rows d) \<and> m_memory_id r \<noteq> i} = m_memory_id ` set (accepted_rows d)"
    if "st \<noteq> MAccepted" "st \<notin> {MStale, MSuperseded}"
  proof -
    have "m_review_state row \<noteq> MAccepted" using e that by (cases "m_review_state row") (auto simp: memory_edge_def)
    then show ?thesis using one by (auto simp: accepted_rows_def)
  qed
  ultimately show ?thesis
    using fs old dist f unfolding indexed_def acc d'(2) reindex_def by (auto simp: image_Un)
qed

lemma memory_inv_step:
  assumes "memory_step E d d'" and i: "memory_inv d"
  shows "memory_inv d'"
  using assms(1)
proof cases
  case (created key a e r)
  have p: "projections_ok d" and x: "indexed d" and n: "memory_named d" and t: "memory_traced d"
    using i by (simp_all add: memory_inv_def)
  note q = p [unfolded projections_ok_def]
  have v: "versions_positive d" using q by simp
  have d': "events d' = events d @ [e]" "memory_records d' = memory_records d @ [r]" by (simp_all add: created(1))
  have "tracks memory_records m_memory_id m_marker ''memory'' d'"
    by (rule mt.insert_row [OF _ created(2) v created(5, 3) d'(2, 1)]) (use q created in simp_all)
  then have "projections_ok d'"
    by (rule memory_projections [OF p created(2) own_kind_first [OF created(2) v created(5)] created(3) d'(1), rotated -1])
      (simp_all add: created(1))
  moreover have "memory_traced d'" unfolding memory_traced_def
    by (rule mm.traced_insert [OF _ t [unfolded memory_traced_def] created(2) v created(5) d'(2, 1)])
      (use q created follows_simps(3) [OF created(2)] in \<open>simp_all add: memory_announces_def\<close>)
  moreover have "memory_named d'" using n created by (auto simp: memory_named_def)
  moreover have "indexed d'" using x created(8) by (simp add: indexed_def accepted_rows_def created(1))
  ultimately show ?thesis by (simp add: memory_inv_def)
next
  case (moved i' row st key a e g f rs)
  have p: "projections_ok d" and x: "indexed d" and n: "memory_named d" and t: "memory_traced d"
    using i by (simp_all add: memory_inv_def)
  note q = p [unfolded projections_ok_def]
  have a: "aggregate_id a = i'" by (rule moved(6))
  have d': "events d' = events d @ [e]"
      "memory_records d' = update_where (\<lambda>r. m_memory_id r = aggregate_id a) g (memory_records d)"
      "memory_fts d' = reindex st i' f (memory_fts d)"
    by (simp_all add: moved(1) a)
  have row: "List.find (\<lambda>r. m_memory_id r = aggregate_id a) (memory_records d) = Some row"
    using moved(2) by (simp add: find_memory_def a)
  have g: "m_memory_id (g r) = m_memory_id r" for r using moved(9) [of r] by (simp add: memory_core_def)
  have id: "m_memory_id (g row) = aggregate_id a" using find_memory_id [OF moved(2)] by (simp add: g a)
  have "tracks memory_records m_memory_id m_marker ''memory'' d'"
    by (rule mt.update_one [OF _ moved(4, 5) row d'(2, 1) id moved(10)]) (use q in simp)
  then have "projections_ok d'"
    by (rule memory_projections [OF p moved(4) own_kind_memory [OF p moved(2) a moved(5)] moved(5) d'(1), rotated -1])
      (simp_all add: moved(1))
  moreover have "memory_traced d'" unfolding memory_traced_def
    by (rule mm.traced_update [OF _ t [unfolded memory_traced_def] moved(4) row d'(2, 1) id])
      (use q moved follows_simps(3) [OF moved(4)] edge_announced [OF moved(3), of e] in simp_all)
  moreover have "memory_named d'" by (rule memory_named_step [OF assms(1) n])
  moreover have "indexed d'"
    by (rule indexed_moved [OF x _ moved(2, 3) _ g moved(11) _ d'(3)]) (use q moved d'(2) in \<open>simp_all add: tracks_def a\<close>)
  ultimately show ?thesis by (simp add: memory_inv_def)
next
  case (conflict_filed cs)
  have "memory_inv d' \<longleftrightarrow> memory_inv d" unfolding conflict_filed by (rule memory_inv_same) simp_all
  with i show ?thesis by simp
next
  case (reindexed fs)
  have "indexed d'"
  proof -
    have "map f_memory_id fs = map m_memory_id (sort_key m_memory_id (accepted_rows d))" by (rule reindexed(2))
    moreover have "distinct (map m_memory_id (memory_records d))" using i by (simp add: memory_inv_def projections_ok_def tracks_def)
    then have "distinct (map m_memory_id (accepted_rows d))" unfolding accepted_rows_def by (rule distinct_map_filter)
    then have "distinct (map m_memory_id (sort_key m_memory_id (accepted_rows d)))" by (simp add: distinct_map)
    moreover have "accepted_rows d' = accepted_rows d" by (simp add: accepted_rows_def reindexed(1))
    moreover have "f_memory_id ` set fs = m_memory_id ` set (accepted_rows d)"
      using arg_cong [OF reindexed(2), of set] by simp
    ultimately show ?thesis unfolding indexed_def by (simp add: reindexed(1))
  qed
  with i show ?thesis
    by (simp add: memory_inv_def reindexed(1) projections_ok_def versions_positive_def tracks_def latest_event_def memory_named_def
      memory_traced_def traced_def events_of_def)
qed

lemma memory_inv_dedup: "memory_inv (d\<lparr>command_dedup := dd\<rparr>) \<longleftrightarrow> memory_inv d"
  by (rule memory_inv_same) simp_all

lemma memory_inv_change: "memory_change d d' \<Longrightarrow> memory_inv d \<Longrightarrow> memory_inv d'"
  by (erule memory_change.cases) (auto intro: memory_inv_step simp: memory_inv_dedup)

lemma memory_inv_changes: "memory_changes d d' \<Longrightarrow> memory_inv d \<Longrightarrow> memory_inv d'"
  unfolding memory_changes_def by (induction rule: rtranclp_induct) (auto intro: memory_inv_change)

section \<open>Steps of Core\<close>

text \<open>A step of Core appends one event and does not touch memories. As the markers of the memories still name
  their latest events, the event is none of theirs.\<close>

lemma core_step_frame:
  "db_step E d d' \<Longrightarrow> \<exists>k a e. follows E k a d e \<and> events d' = events d @ [e] \<and>
     memory_records d' = memory_records d \<and> memory_fts d' = memory_fts d"
  by (erule db_step.cases) (hypsubst, (rule exI)+, rule conjI, assumption, simp)+

lemma memory_inv_core:
  assumes s: "db_step F d d'" and i: "memory_inv d"
  shows "memory_inv d'"
proof -
  obtain k a e where f: "follows F k a d e" and ev: "events d' = events d @ [e]"
    and m: "memory_records d' = memory_records d" "memory_fts d' = memory_fts d"
    using core_step_frame [OF s] by blast
  have p: "projections_ok d" "projections_ok d'" using i projections_step [OF s] by (simp_all add: memory_inv_def)
  have other: "m_memory_id r \<noteq> aggregate_id a" if r: "r \<in> set (memory_records d)" for r
  proof
    assume eq: "m_memory_id r = aggregate_id a"
    from p(1) r obtain q where q: "latest_event d (m_memory_id r) = Some q" "m_marker r = marker_of q"
      unfolding projections_ok_def tracks_def by blast
    from p(2) r m obtain q' where q': "latest_event d' (m_memory_id r) = Some q'" "m_marker r = marker_of q'"
      unfolding projections_ok_def tracks_def by metis
    have "latest_event d' (m_memory_id r) = Some e"
      using follows_latest [OF f, of "m_memory_id r"] ev eq by (simp add: latest_event_def)
    with q q' have "marker_of e = marker_of q" by simp
    then have "ev_aggregate_version e = ev_aggregate_version q" by (simp add: marker_of_def)
    moreover have "ev_aggregate_version e = ev_aggregate_version q + 1"
      using follows_version [OF f] q(1) by (simp only: eq option.case)
    ultimately show False by simp
  qed
  then have "events_of d' (m_memory_id r) = events_of d (m_memory_id r)" if "r \<in> set (memory_records d)" for r
    using mm.events_push [OF f ev, of "m_memory_id r"] that by simp
  then have "memory_traced d'" using i m by (simp add: memory_inv_def memory_traced_def traced_def)
  then show ?thesis using i p m by (simp add: memory_inv_def memory_named_def indexed_def accepted_rows_def)
qed

interpretation memories: service_invariant E memory_inv for E
proof
  show "memory_inv (initial_db shas version database_id (writer_id E))" for shas version database_id
    by (simp add: memory_inv_def projections.initially memory_named_def memory_traced_def traced_def indexed_def accepted_rows_def)
      (simp add: initial_db_def)
qed (auto intro: memory_inv_core simp: memory_inv_dedup)

section \<open>The life of a memory\<close>

text \<open>A store that serves requests to Core and to the service of memories, in any order, under any environments
  of one writer for Core.\<close>

inductive operated :: "env \<Rightarrow> db \<Rightarrow> bool" for E where
  start: "operated E (initial_db shas version database_id (writer_id E))"
| core: "operated E d \<Longrightarrow> same_service E F \<Longrightarrow> perform F r d = (out, d') \<Longrightarrow> operated E d'"
| memory: "operated E d \<Longrightarrow> operated E (perform_memory F S L q d)"

lemma operated_inv: "operated E d \<Longrightarrow> memory_inv d"
proof (induction rule: operated.induct)
  case (memory d F S L q)
  then have "memory_changes d (perform_memory F S L q d)"
    by (intro perform_memory_changes) (simp_all add: memory_inv_def projections_ok_def tracks_def)
  then show ?case using memory.IH by (rule memory_inv_changes)
qed (auto intro: memories.initially memories.kept)

end
