(* ===== verification/MemorySample.thy ===== *)
theory MemorySample
  imports MemoryLife Sample
begin

text \<open>
  A store that takes in one memory: the candidate is created, accepted by a human reviewer and retrieved. The
  theorems about memories are applied to its databases.
\<close>

section \<open>The library and the memory\<close>

definition sample_library :: library where
  "sample_library = \<lparr>nfkc_casefold = (\<lambda>s. s), fts_match = (\<lambda>rows q. map f_memory_id rows), uuid4 = (\<lambda>n. ''u''),
     netloc_valid = (\<lambda>n. True), utf8_sha256 = (\<lambda>s. zero_sha256)\<rparr>"

definition epoch :: datetime where
  "epoch = \<lparr>dt_year = 1970, dt_month = 1, dt_day = 1, dt_hour = 0, dt_minute = 0, dt_second = 0, dt_micro = 0\<rparr>"

definition epoch_text :: string where
  "epoch_text = format_time epoch"

definition sample_source :: "string dict" where
  "sample_source = [(''uri'', JStr ''file:a''), (''content_sha256'', JStr ''h''), (''validity_status'', JStr ''current''),
     (''relationship'', JStr ''asserted_by''), (''observed_at'', JStr epoch_text)]"

definition sample_fields :: "string dict" where
  "sample_fields = [(''scope'', JStr ''project:p''), (''type'', JStr ''fact''), (''statement'', JStr ''sky''),
     (''evidence_refs'', JList [JObj sample_source]), (''asserted_by'', JStr ''h''), (''owner'', JStr ''o''),
     (''valid_from'', JStr noon_text), (''fact_class'', JStr ''c''), (''revalidation_policy'', JStr ''p''),
     (''revalidate_at'', JStr evening_text), (''confidence'', JStr ''high''), (''sensitivity'', JStr ''internal''),
     (''labels'', JList [JStr ''l''])]"

definition memory_key :: string where
  "memory_key = ''mem_'' @ serial 1"

definition sample_memory :: "int \<Rightarrow> string \<Rightarrow> string dict" where
  "sample_memory version state =
     [(''schema_version'', JStr ''city2.memory/v1''), (''memory_id'', JStr memory_key), (''aggregate_version'', JInt version),
      (''scope'', JStr ''project:p''), (''type'', JStr ''fact''), (''statement'', JStr ''sky''),
      (''evidence_refs'', JList [JObj sample_source]), (''asserted_by'', JStr ''h''), (''owner'', JStr ''o''),
      (''created_by'', JStr ''a''), (''created_at'', JStr noon_text), (''valid_from'', JStr noon_text), (''fact_class'', JStr ''c''),
      (''revalidation_policy'', JStr ''p''), (''revalidate_at'', JStr evening_text), (''confidence'', JStr ''high''),
      (''sensitivity'', JStr ''internal''), (''review_state'', JStr state), (''supersedes'', JList []),
      (''labels'', JList [JStr ''l''])]"

lemma times_memory [simp]: "parse_time epoch_text = Inr epoch" "dt_micros noon < dt_micros evening" "dt_micros noon \<le> dt_micros evening" "\<not> dt_micros evening \<le> dt_micros noon"
  by (simp_all add: epoch_text_def parse_format_time noon_def evening_def epoch_def valid_datetime_def days_in_month_def leap_year_def
      dt_micros_def dt_ordinal_def)

lemma no_secret [simp]: "secret_content ''sky'' = Inr False"
  by code_simp

section \<open>Names that are no secrets\<close>

fun lit :: "string \<Rightarrow> regex \<Rightarrow> regex" where
  "lit [] r = r"
| "lit (c # s) r = RSeq (RSet False [(c, c)]) (lit s r)"

definition joiner :: "regex \<Rightarrow> regex" where
  "joiner r = RSeq (RRep (RSet False [(CHR ''_'', CHR ''_''), (CHR ''-'', CHR ''-'')]) 0 (Some 1)) r"

definition separator :: regex where
  "separator = RSeq (RSet False [(CHR ''.'', CHR ''.''), (CHR ''_'', CHR ''_''), (CHR ''-'', CHR ''-'')]) REps"

definition secret_words :: regex where
  "secret_words = RAlt (lit ''api'' (joiner (lit ''key'' REps))) (RAlt (lit ''access'' (joiner (lit ''token'' REps)))
     (RAlt (lit ''password'' REps) (RAlt (lit ''private'' (joiner (lit ''key'' REps)))
     (RAlt (lit ''recovery'' (joiner (lit ''phrase'' REps))) (RAlt (lit ''secret'' REps)
     (RAlt (lit ''seed'' REps) (lit ''mnemonic'' REps)))))))"

definition secret_rx :: regex where
  "secret_rx = RSeq (RAlt (RSeq RBegin REps) separator) (RSeq secret_words (RSeq (RAlt separator (RSeq REnd REps)) REps))"

lemma compile_secret: "compile secret_metadata_pattern = Some (True, secret_rx)"
  by code_simp

lemma swap_case_swap: "swap_case (swap_case c) = c"
proof -
  have "of_char c < (256::nat)" by simp
  then show ?thesis by (auto simp: swap_case_def less_eq_char_def)
qed

lemma swap_iff: "swap_case d = c \<longleftrightarrow> d = swap_case c"
  using swap_case_swap by metis

lemma swap_case_values:
  "map swap_case ''aceimnprs_.-'' = ''ACEIMNPRS_.-''"
  by code_simp

text \<open>Every secret name begins, at the start of a text or after a separator, with one of a few three-letter prefixes.\<close>

fun starts :: "string \<Rightarrow> string \<Rightarrow> bool" where
  "starts [] s = True"
| "starts (c # w) s = (case s of [] \<Rightarrow> False | d # t \<Rightarrow> (d = c \<or> d = swap_case c) \<and> starts w t)"

lemma starts_take: "starts (w @ v) s \<Longrightarrow> starts w s"
  by (induction w arbitrary: s) (auto split: list.splits)

lemma step_all_set: "set (step_all f ps) = (\<Union>p \<in> set ps. set (f p))"
  by (simp add: step_all_def)

lemma ends_lit: "q \<in> set (ends True (lit w r) p) \<Longrightarrow> starts w (snd p)"
proof (induction w arbitrary: p)
  case (Cons c w)
  then show ?case by (cases "snd p") (auto simp: step_all_set in_set_def swap_iff split: if_splits)
qed simp

definition secret_starts :: "string list" where
  "secret_starts = [''api'', ''acc'', ''pas'', ''pri'', ''rec'', ''sec'', ''see'', ''mne'']"

lemma words_start:
  assumes "q \<in> set (ends True secret_words p)"
  shows "\<exists>w \<in> set secret_starts. starts w (snd p)"
proof -
  have u: "q \<in> set (ends True (RAlt a b) p) \<longleftrightarrow> q \<in> set (ends True a p) \<or> q \<in> set (ends True b p)" for a b
    by simp
  have l: "q \<in> set (ends True (lit (w @ v) r) p) \<Longrightarrow> starts w (snd p)" for w v r
    by (rule starts_take, rule ends_lit)
  note ls = l [of "''api''" "[]"] l [of "''acc''" "''ess''"] l [of "''pas''" "''sword''"] l [of "''pri''" "''vate''"]
    l [of "''rec''" "''overy''"] l [of "''sec''" "''ret''"] l [of "''see''" "''d''"] l [of "''mne''" "''monic''"]
  from assms show ?thesis
    unfolding secret_words_def u
    by (elim disjE) (drule ls [unfolded append.simps], rule bexI, assumption, simp add: secret_starts_def)+
qed

fun parts :: "bool \<Rightarrow> string \<Rightarrow> string list" where
  "parts b [] = (if b then [[]] else [])"
| "parts b (c # s) = (if b then [c # s] else []) @ parts (c \<in> {CHR ''.'', CHR ''_'', CHR ''-''}) s"

lemma swap_separator: "swap_case c \<in> {CHR ''.'', CHR ''_'', CHR ''-''} \<longleftrightarrow> c \<in> {CHR ''.'', CHR ''_'', CHR ''-''}"
  using swap_case_values by (simp add: swap_iff)

lemma ends_separator:
  "ends True separator p = (case snd p of [] \<Rightarrow> [] | c # s \<Rightarrow> if c \<in> {CHR ''.'', CHR ''_'', CHR ''-''} then [(False, s)] else [])"
proof -
  have "in_set True False [(CHR ''.'', CHR ''.''), (CHR ''_'', CHR ''_''), (CHR ''-'', CHR ''-'')] c \<longleftrightarrow>
      c \<in> {CHR ''.'', CHR ''_'', CHR ''-''}" for c
    using swap_separator [of c] by (auto simp: in_set_def)
  then show ?thesis by (simp add: separator_def step_all_def split: list.splits)
qed

lemma ends_begin: "ends True (RSeq RBegin REps) p = (if fst p then [p] else [])"
  by (simp add: step_all_def)

lemma separated: "p \<in> set (suffixes_from b t) \<Longrightarrow> (b \<longrightarrow> b') \<Longrightarrow>
   q \<in> set (ends True (RAlt (RSeq RBegin REps) separator) p) \<Longrightarrow> snd q \<in> set (parts b' t)"
proof (induction t arbitrary: b b')
  case Nil
  then show ?case by (simp only: ends.simps(6) ends_begin ends_separator) (auto split: if_splits)
next
  case (Cons c t)
  let ?b = "c \<in> {CHR ''.'', CHR ''_'', CHR ''-''}"
  from Cons.prems(1) consider "p = (b, c # t)" | "p \<in> set (suffixes_from False t)" by auto
  then show ?case
  proof cases
    case 1
    have "?b \<Longrightarrow> t \<in> set (parts ?b t)" by (cases t) simp_all
    moreover have "q = p \<and> b \<or> q = (False, t) \<and> ?b"
      using Cons.prems(3) by (simp only: ends.simps(6) ends_begin ends_separator 1) (auto split: if_splits)
    ultimately show ?thesis using Cons.prems(2) 1 by (auto simp del: parts.simps(1))
  next
    case 2
    from Cons.IH [OF 2 _ Cons.prems(3), of ?b] show ?thesis by simp
  qed
qed

definition harmless :: "string \<Rightarrow> bool" where
  "harmless t = (\<forall>s \<in> set (parts True t). \<forall>w \<in> set secret_starts. \<not> starts w s)"

lemma harmless_search:
  assumes "harmless t"
  shows "re_search secret_metadata_pattern t = Inr False"
proof -
  have "ends True secret_rx p = []" if p: "p \<in> set (suffixes_from True t)" for p
  proof (rule ccontr)
    assume "ends True secret_rx p \<noteq> []"
    then obtain q where "q \<in> set (ends True secret_rx p)" by (cases "ends True secret_rx p") auto
    then obtain q1 q2 where q: "q1 \<in> set (ends True (RAlt (RSeq RBegin REps) separator) p)" "q2 \<in> set (ends True secret_words q1)"
      unfolding secret_rx_def ends.simps(5) step_all_set by blast
    from separated [OF p _ q(1), of True] words_start [OF q(2)] assms show False unfolding harmless_def by blast
  qed
  then have "\<not> list_ex (\<lambda>p. ends True secret_rx p \<noteq> []) (suffixes_from True t)" unfolding list_ex_iff by blast
  then show ?thesis unfolding re_search_def compile_secret option.case prod.case by simp
qed

lemma harmless_keys:
  "list_all harmless (map fst (sample_memory v state) @ map fst sample_source)"
  using swap_case_values by (simp add: sample_memory_def sample_source_def harmless_def secret_starts_def)

section \<open>The record is valid\<close>

lemma no_secret_metadata:
  "list_all harmless (map fst d) \<Longrightarrow> \<forall>kv \<in> set d. reject_secret_metadata (snd kv) = Inr () \<Longrightarrow> reject_secret_metadata (JObj d) = Inr ()"
  unfolding reject_secret_metadata.simps by (induction d) (auto simp: harmless_search)

lemma sample_not_secret: "reject_secret_metadata (JObj (sample_memory v state)) = Inr ()"
proof (rule no_secret_metadata)
  have src: "reject_secret_metadata (JObj sample_source) = Inr ()"
    by (rule no_secret_metadata) (use harmless_keys in \<open>simp_all add: sample_source_def\<close>)
  show "list_all harmless (map fst (sample_memory v state))" using harmless_keys [of v state] by simp
  show "\<forall>kv \<in> set (sample_memory v state). reject_secret_metadata (snd kv) = Inr ()"
    using src by (simp add: sample_memory_def del: reject_secret_metadata.simps(1))
qed

lemmas read_simps = text_item_def texts_item_def sources_of_def as_dict_def as_str_def as_list_def text_get_def dict_item_def

lemma sample_valid: "validate_memory (at_step k) sample_library (sample_memory v state) = Inr ()"
proof -
  have "url_has_user sample_library ''file:a'' = Inr False" by (simp add: url_has_user_def url_netloc_def without_scheme_def scheme_char_def)
  then show ?thesis
    using sample_not_secret [of v state]
    by (simp add: validate_memory_def validate_def sample_memory_def sample_source_def read_simps check_derivation_def check_source_uri_def check_critical_def critical_fact_classes_def
      del: reject_secret_metadata.simps)
qed

section \<open>The run\<close>

definition memory_event1 :: event_row where
  "memory_event1 = sample_row 1 ''k1'' ''memory'' memory_key ''memory.created'' 1
     [(''candidate_sha256'', JStr zero_sha256), (''record_sha256'', JStr zero_sha256), (''scope'', JStr ''project:p''),
      (''type'', JStr ''fact'')] ''internal''"

definition memory1 :: memory_row where
  "memory1 = \<lparr>m_memory_id = memory_key, m_marker = marker_of memory_event1, m_scope = ''project:p'', m_type = ''fact'',
     m_review_state = MCandidate, m_candidate_sha256 = zero_sha256, m_record_sha256 = zero_sha256, m_statement = ''sky'',
     m_labels_text = ''l'', m_source_text = ''file:a'', m_record = norm (JObj (sample_memory 1 ''candidate'')),
     m_created_by = ''a'', m_reviewed_by = None, m_accepted_at = None, m_stale_reason = None, m_revalidate_at = evening_text,
     m_valid_from = noon_text, m_valid_until = None, m_sensitivity = ''internal'', m_created_at = noon_text,
     m_updated_at = noon_text\<rparr>"

lemma memory_event1_simps [simp]: "ev_aggregate_version memory_event1 = 1" "ev_aggregate_id memory_event1 = memory_key"
  "marker_of memory_event1 = \<lparr>mk_event_id = ''evt_'' @ serial 1, mk_event_sha256 = zero_sha256, mk_database_sequence = 1,
     mk_aggregate_version = 1\<rparr>"
  by (simp_all add: memory_event1_def marker_of_sample)

definition memory_served1 :: db where
  "memory_served1 = (log_row memory_event1 db0)\<lparr>memory_records := [memory1]\<rparr>"

definition memory_db1 :: db where
  "memory_db1 = record_call ''k1'' (JObj (sample_memory 1 ''candidate'')) memory_served1"

lemma memory_tables [simp]:
  "memory_records db0 = []" "memory_fts db0 = []" "memory_conflicts db0 = []" "memory_reviews db0 = []"
  "memory_records (log_row e d) = memory_records d" "memory_fts (log_row e d) = memory_fts d"
  "memory_conflicts (log_row e d) = memory_conflicts d" "memory_reviews (log_row e d) = memory_reviews d"
  "memory_records (record_call key res d) = memory_records d" "memory_fts (record_call key res d) = memory_fts d"
  "memory_conflicts (record_call key res d) = memory_conflicts d" "memory_reviews (record_call key res d) = memory_reviews d"
  "numbered n (d\<lparr>memory_records := x\<rparr>) = numbered n d" "latest_event (d\<lparr>memory_records := x\<rparr>) i = latest_event d i"
  "unused j (d\<lparr>memory_records := x\<rparr>) = unused j d"
  "numbered n (d\<lparr>memory_records := x, memory_reviews := y, memory_fts := z\<rparr>) = numbered n d"
  "latest_event (d\<lparr>memory_records := x, memory_reviews := y, memory_fts := z\<rparr>) i = latest_event d i"
  "unused j (d\<lparr>memory_records := x, memory_reviews := y, memory_fts := z\<rparr>) = unused j d"
  by (simp_all add: db0_def initial_db_def log_row_def record_call_def numbered_def latest_event_def unused_def)

lemma sample_texts [simp]:
  "normalize_text sample_library ''l'' = ''l''" "normalize_text sample_library ''file:a'' = ''file:a''"
  "normalize_text sample_library ''sky'' = ''sky''" "normalize_text sample_library '' file:a  '' = ''file:a''"
  by (simp_all add: normalize_text_def sample_library_def split_words_def py_space_def)

lemma sample_source_text:
  "source_text sample_library (sample_memory v state) = Inr ''file:a''"
  by (simp add: source_text_def sample_memory_def sample_source_def read_simps source_parts_def)

lemma sample_plain: "plain (JObj (sample_memory 1 state))" "plain (JObj (sample_memory 2 state))"
  by (simp_all add: sample_memory_def sample_source_def)

lemma sample_items [simp]:
  "map_of (sample_memory v state) ''scope'' = Some (JStr ''project:p'')" "map_of (sample_memory v state) ''type'' = Some (JStr ''fact'')"
  "map_of (sample_memory v state) ''sensitivity'' = Some (JStr ''internal'')" "map_of (sample_memory v state) ''memory_id'' = Some (JStr memory_key)"
  "map_of (sample_memory v state) ''aggregate_version'' = Some (JInt v)" "map_of (sample_memory v state) ''review_state'' = Some (JStr state)"
  "map_of (sample_memory v state) ''statement'' = Some (JStr ''sky'')" "map_of (sample_memory v state) ''labels'' = Some (JList [JStr ''l''])"
  "map_of (sample_memory v state) ''created_by'' = Some (JStr ''a'')" "map_of (sample_memory v state) ''supersedes'' = Some (JList [])"
  "map_of (sample_memory v state) ''evidence_refs'' = Some (JList [JObj sample_source])"
  "map_of (sample_memory v state) ''revalidate_at'' = Some (JStr evening_text)" "map_of (sample_memory v state) ''created_at'' = Some (JStr noon_text)"
  "map_of (sample_memory v state) ''valid_from'' = Some (JStr noon_text)" "map_of (sample_memory v state) ''valid_until'' = None" "map_of (sample_memory v state) ''fact_class'' = Some (JStr ''c'')"
  by (simp_all add: sample_memory_def)

lemma memory_run1:
  "create_candidate (at_step 1) sample_library sample_fields ''a'' ''k1'' db0 = (Inr (JObj (sample_memory 1 ''candidate'')), memory_db1)"
proof -
  have rcd: "candidate_record sample_fields ''a'' noon_text memory_key = Inr (sample_memory 1 ''candidate'')"
    by (simp add: candidate_record_def sample_fields_def sample_memory_def pick_def dict_item_def get_default_def)
  have profile: "plain (JObj (candidate_profile (sample_memory 1 ''candidate'')))"
    by (simp add: candidate_profile_def dict_without_def sample_memory_def sample_source_def)
  have fs: "plain (JObj sample_fields)" by (simp add: sample_fields_def sample_source_def)
  have row: "projection_row (at_step 1) sample_library (sample_memory 1 ''candidate'') zero_sha256 (marker_of memory_event1) noon_text = Inr memory1"
    using sample_plain(1) [of "''candidate''"]
    by (simp add: projection_row_def sha256_json_plain canonical_plain sample_source_text)
      (simp add: sample_memory_def read_simps nullable_text_def memory1_def)
  have checked: "memory_check memory1"
    by (simp add: memory_check_def memory1_def marker_check_def type_priority_def sensitivity_rank_def)
  have op: "\<exists>n. create_candidate_op (at_step 1) sample_library ''k1'' sample_fields ''a''
      \<lparr>tx_db = db0, tick = 2\<rparr> = Inr (JObj (sample_memory 1 ''candidate''), \<lparr>tx_db = memory_served1, tick = n\<rparr>)"
    using rcd profile row sample_plain(1) [of "''candidate''"] checked
    by (simp add: step_simps create_candidate_op_def sample_valid memory_key_def read_simps store_candidate_def select_def insert_memory_def
      memory_served1_def memory_event1_def)
  have c: "canonical (JObj (sample_memory 1 ''candidate'')) = Inr (norm (JObj (sample_memory 1 ''candidate'')))"
    by (rule canonical_plain [OF sample_plain(1)])
  show ?thesis unfolding create_candidate_def memory_db1_def
    using served_call [where op = "create_candidate_op (at_step 1) sample_library ''k1'' sample_fields ''a''", OF op _ _ _ c] fs
    by (simp add: checked_def candidate_required_def dict_has_def sample_fields_def memory_served1_def)
qed

lemma memory_db1_simps [simp]:
  "numbered (Suc 0) memory_db1" "latest_event memory_db1 i = (if i = memory_key then Some memory_event1 else None)"
  "unused j memory_db1 \<longleftrightarrow> j \<noteq> ''k1''" "memory_records memory_db1 = [memory1]" "memory_fts memory_db1 = []"
  "memory_conflicts memory_db1 = []" "memory_reviews memory_db1 = []" "events memory_db1 = [memory_event1]"
  by (auto simp: memory_db1_def memory_served1_def memory_event1_def numbered_log [of 0] latest_log [of 0])

text \<open>Its reviewer accepts it.\<close>

definition memory_event2 :: event_row where
  "memory_event2 = (sample_row 2 ''k2'' ''memory'' memory_key ''memory.accepted'' 2
     [(''record_sha256'', JStr zero_sha256), (''review_state'', JStr ''accepted''), (''source_check_sha256'', JStr zero_sha256)]
     ''internal'')"

lemma memory_event2_simps [simp]: "ev_aggregate_version memory_event2 = 2" "ev_aggregate_id memory_event2 = memory_key"
  "marker_of memory_event2 = \<lparr>mk_event_id = ''evt_'' @ serial 2, mk_event_sha256 = zero_sha256, mk_database_sequence = 2,
     mk_aggregate_version = 2\<rparr>"
  by (simp_all add: memory_event2_def marker_of_sample)

definition memory_review2 :: memory_review_row where
  "memory_review2 = \<lparr>mr_review_id = ''rev_'' @ serial 2, mr_memory_id = memory_key, mr_decision = ''accepted'', mr_reviewer = ''a'',
     mr_reviewed_at = noon_text, mr_source_check_sha256 = zero_sha256, mr_independence = norm (JObj [])\<rparr>"

definition memory_entry :: fts_row where
  "memory_entry = \<lparr>f_memory_id = memory_key, f_statement = ''sky'', f_labels = ''l'', f_source_metadata = ''file:a''\<rparr>"

text \<open>The record as the database gives it back, and as the review changes it.\<close>

definition stored :: "string dict \<Rightarrow> string dict" where
  "stored d = dict_of (norm (JObj d))"

lemma map_of_stored [simp]: "map_of (stored d) k = map_option norm (map_of d k)"
  by (simp add: stored_def)

lemma set_stored: "set (stored d) = (\<lambda>p. (fst p, norm (snd p))) ` set d"
  by (simp add: stored_def dict_of_norm)

lemma as_dict_stored [simp]: "as_dict (norm (JObj d)) = Inr (stored d)"
  by (simp add: stored_def norm_JObj as_dict_def)

lemma list_all_dict_set: "list_all P d \<Longrightarrow> P (k, v) \<Longrightarrow> list_all P (dict_set k v d)"
  by (induction k v d rule: dict_set.induct) auto

definition sample_next :: "string dict" where
  "sample_next = dict_merge (stored (sample_memory 1 ''candidate'')) [(''aggregate_version'', JInt 2), (''review_state'', JStr ''accepted'')]"

lemma map_of_next [simp]:
  "map_of sample_next k = (if k = ''review_state'' then Some (JStr ''accepted'') else if k = ''aggregate_version'' then Some (JInt 2)
     else map_option norm (map_of (sample_memory 1 ''candidate'') k))"
  by (simp add: sample_next_def map_of_dict_merge map_add_def del: dict_merge.simps)

lemma list_all_next:
  assumes "\<And>p. p \<in> set (sample_memory 1 ''candidate'') \<Longrightarrow> P (fst p, norm (snd p))" and "P (''aggregate_version'', JInt 2)"
    and "P (''review_state'', JStr ''accepted'')"
  shows "list_all P sample_next"
  unfolding sample_next_def dict_merge.simps
  by (intro list_all_dict_set assms(2, 3)) (use assms(1) in \<open>auto simp: list_all_iff set_stored\<close>)

lemma plain_next: "plain (JObj sample_next)"
proof -
  have "plain (snd p)" if "p \<in> set (sample_memory 1 ''candidate'')" for p
    using sample_plain(1) [of "''candidate''"] that by (auto simp: list_all_iff)
  then show ?thesis unfolding plain.simps by (intro list_all_next) (simp_all add: plain_norm)
qed

lemma next_not_secret: "reject_secret_metadata (JObj sample_next) = Inr ()"
proof (rule no_secret_metadata)
  have k: "harmless (fst p)" if "p \<in> set (sample_memory 1 ''candidate'')" for p
    using harmless_keys [of 1 "''candidate''"] that by (auto simp: list_all_iff)
  then have "list_all (\<lambda>p. harmless (fst p)) sample_next"
    by (intro list_all_next) (use k [of "(''aggregate_version'', JInt 1)"] k [of "(''review_state'', JStr ''candidate'')"] in \<open>simp_all add: sample_memory_def\<close>)
  then show "list_all harmless (map fst sample_next)" by (simp add: list_all_iff)
  have src: "reject_secret_metadata (JObj (stored sample_source)) = Inr ()"
    by (rule no_secret_metadata) (use harmless_keys in \<open>auto simp: list_all_iff set_stored, auto simp: sample_source_def\<close>)
  then have "reject_secret_metadata (norm (JObj sample_source)) = Inr ()" by (simp only: stored_def norm_JObj_is_obj)
  then have "reject_secret_metadata (norm (snd p)) = Inr ()" if "p \<in> set (sample_memory 1 ''candidate'')" for p
    using that by (auto simp: sample_memory_def simp del: reject_secret_metadata.simps(1))
  then have "list_all (\<lambda>p. reject_secret_metadata (snd p) = Inr ()) sample_next" by (intro list_all_next) simp_all
  then show "\<forall>kv \<in> set sample_next. reject_secret_metadata (snd kv) = Inr ()" by (simp add: list_all_iff)
qed

lemma next_valid: "validate_memory (at_step k) sample_library sample_next = Inr ()"
proof -
  have "url_has_user sample_library ''file:a'' = Inr False" by (simp add: url_has_user_def url_netloc_def without_scheme_def scheme_char_def)
  then show ?thesis
    using next_not_secret
    by (simp add: validate_memory_def validate_def read_simps check_derivation_def check_source_uri_def check_critical_def critical_fact_classes_def
      as_dict_stored [unfolded as_dict_def]
      del: reject_secret_metadata.simps) (simp add: sample_source_def)
qed

definition memory2 :: memory_row where
  "memory2 = memory1\<lparr>m_marker := marker_of memory_event2, m_review_state := MAccepted,
     m_record := norm (JObj sample_next), m_reviewed_by := Some ''a'', m_accepted_at := Some noon_text\<rparr>"

definition memory_served2 :: db where
  "memory_served2 = (log_row memory_event2 memory_db1)\<lparr>memory_records := [memory2], memory_reviews := [memory_review2],
     memory_fts := [memory_entry]\<rparr>"

definition memory_result2 :: json where
  "memory_result2 = JObj [(''memory'', JObj sample_next), (''review_id'', JStr (''rev_'' @ serial 2)),
     (''conflict'', JBool False)]"

definition memory_db2 :: db where
  "memory_db2 = record_call ''k2'' memory_result2 memory_served2"

lemma memory_run2:
  "review_candidate (at_step 2) sample_library memory_key ''accepted'' 1 ''a'' [sample_source] [] ''k2'' memory_db1 =
    (Inr memory_result2, memory_db2)"
proof -
  have sources: "sources_of (stored (sample_memory 1 ''candidate'')) = Inr [stored sample_source]" "sources_of sample_next = Inr [stored sample_source]"
    by (simp_all add: sources_of_def dict_item_def as_list_def)
  have facts: "source_facts (stored sample_source) = Inr (''file:a'', ''h'', ''current'')" "source_facts sample_source = Inr (''file:a'', ''h'', ''current'')"
    by (simp_all add: source_facts_def text_item_def dict_item_def as_str_def) (simp_all add: sample_source_def)
  have parts: "source_parts (stored sample_source) = Inr ['''', ''file:a'', '''', '''']"
    by (simp add: source_parts_def text_get_def as_str_def) (simp add: sample_source_def)
  have plain: "plain (JObj sample_next)" "plain (JObj sample_source)" "plain (JObj [])"
    by (simp_all add: plain_next sample_source_def del: plain.simps(4), simp_all add: sample_source_def)
  have checks: "accept_or_quarantine (at_step 2) sample_library memory_key (stored (sample_memory 1 ''candidate'')) [sample_source] s = Inr (''accepted'', s)"
    if "tx_db s = memory_db1" for s
    using that sources facts
    by (simp add: accept_or_quarantine_def verify_source_checks_def feedback_attributed_def find_conflict_def tbind_def select_def text_item_def
      dict_item_def as_str_def memory1_def)
  have indexed_text: "source_text sample_library sample_next = Inr ''file:a''"
    using sources parts by (simp add: source_text_def)
  have st: "memory_state_of ''accepted'' = Some MAccepted" by (simp add: memory_state_of_def)
  have decide: "\<exists>n. record_decision (at_step 2) sample_library ''k2'' memory_key ''accepted'' 1 ''a'' [sample_source] []
      (stored (sample_memory 1 ''candidate'')) ''accepted'' \<lparr>tx_db = memory_db1, tick = 2\<rparr> = Inr (memory_result2, \<lparr>tx_db = memory_served2, tick = n\<rparr>)"
    using plain indexed_text
    by (simp add: st record_decision_def sample_next_def [symmetric] next_valid step_simps read_simps update_projection_def nullable_text_def
      update_memory_def coalesce_def insert_memory_review_def index_record_def fts_entry_def delete_fts_def supersede_in_tx_def
      memory_result2_def memory_served2_def memory_event2_def memory2_def memory1_def memory_review2_def memory_entry_def
      memory_check_def type_priority_def sensitivity_rank_def
      del: dict_merge.simps)
  have c: "plain memory_result2" using plain(1) by (simp add: memory_result2_def)
  have op: "\<exists>n. review_candidate_op (at_step 2) sample_library ''k2'' memory_key ''accepted'' 1 ''a'' [sample_source] []
      \<lparr>tx_db = memory_db1, tick = 2\<rparr> = Inr (memory_result2, \<lparr>tx_db = memory_served2, tick = n\<rparr>)"
  proof -
    have row: "find_memory memory_db1 memory_key = Some memory1" by (simp add: find_memory_def memory1_def)
    have rcd: "dict_of (m_record memory1) = stored (sample_memory 1 ''candidate'')" by (simp add: memory1_def stored_def)
    have "reviewer_allowed (stored (sample_memory 1 ''candidate'')) ''accepted'' ''a'' = Inr ()"
      by (simp add: reviewer_allowed_def text_item_def dict_item_def as_str_def begins_with_def)
    moreover have "m_review_state memory1 = MCandidate" by (simp add: memory1_def)
    moreover have "expect_version ''memory_records'' memory_key 1 \<lparr>tx_db = memory_db1, tick = 2\<rparr> = Inr (1, \<lparr>tx_db = memory_db1, tick = 2\<rparr>)"
      using row by (simp add: memory_version_Inr) (simp add: memory1_def)
    ultimately show ?thesis using row rcd checks decide
      by (simp add: review_candidate_op_def tbind_def memory_row_def select_def found_def tguard_def)
  qed
  show ?thesis unfolding review_candidate_def memory_db2_def
    using served_call [where op = "review_candidate_op (at_step 2) sample_library ''k2'' memory_key ''accepted'' 1 ''a'' [sample_source] []", OF op _ _ _ canonical_plain [OF c]]
      plain by (simp add: checked_def memory_served2_def)
qed

lemma memory_db2_simps [simp]:
  "memory_records memory_db2 = [memory2]" "memory_fts memory_db2 = [memory_entry]" "events memory_db2 = [memory_event1, memory_event2]"
  by (simp_all add: memory_db2_def memory_served2_def)

lemma memory_operated: "operated sample_env db0" "operated sample_env memory_db1" "operated sample_env memory_db2"
proof -
  show d0: "operated sample_env db0" unfolding db0_def using operated.start [of sample_env] by simp
  have "memory_db1 = perform_memory (at_step 1) at_step1 sample_library (CreateCandidate sample_fields ''a'' ''k1'') db0" for at_step1
    by (simp only: perform_memory.simps memory_run1 snd_conv)
  then show d1: "operated sample_env memory_db1" using operated.memory [OF d0] by metis
  have "memory_db2 = perform_memory (at_step 2) at_step1 sample_library
      (ReviewCandidate memory_key ''accepted'' 1 ''a'' [sample_source] [] ''k2'') memory_db1" for at_step1
    by (simp only: perform_memory.simps memory_run2 snd_conv)
  then show "operated sample_env memory_db2" using operated.memory [OF d1] by metis
qed

text \<open>In the evening the memory is due.\<close>

lemma memory_db2_more [simp]:
  "numbered 2 memory_db2" "latest_event memory_db2 i = (if i = memory_key then Some memory_event2 else None)"
  "unused j memory_db2 \<longleftrightarrow> j \<noteq> ''k1'' \<and> j \<noteq> ''k2''"
  by (auto simp: memory_db2_def memory_served2_def memory_event2_def numbered_log [of "Suc 0"] latest_log [of "Suc 0"])

lemma memory2_fields [simp]:
  "m_memory_id memory2 = memory_key" "m_review_state memory2 = MAccepted" "m_scope memory2 = ''project:p''" "m_sensitivity memory2 = ''internal''"
  "dict_of (m_record memory2) = stored sample_next" "mk_aggregate_version (m_marker memory2) = 2"
  "m_type memory2 = ''fact''" "m_candidate_sha256 memory2 = zero_sha256"
  by (simp_all add: memory2_def memory1_def stored_def)

lemma memory_run3: "key \<noteq> ''k1'' \<Longrightarrow> key \<noteq> ''k2'' \<Longrightarrow>
  \<exists>res d'. mark_stale (at_step 3) memory_key reason 2 ''a'' key memory_db2 = (Inr res, d')"
proof -
  assume key: "key \<noteq> ''k1''" "key \<noteq> ''k2''"
  let ?stale = "dict_merge (stored sample_next) [(''aggregate_version'', JInt 3), (''review_state'', JStr ''stale'')]"
  have p: "plain (JObj ?stale)" unfolding plain.simps dict_merge.simps
    by (intro list_all_dict_set) (use plain_next plain_norm in \<open>auto simp: list_all_iff set_stored\<close>)
  have row: "find_memory memory_db2 memory_key = Some memory2" by (simp add: find_memory_def)
  have v: "expect_version ''memory_records'' memory_key 2 \<lparr>tx_db = memory_db2, tick = 2\<rparr> = Inr (2, \<lparr>tx_db = memory_db2, tick = 2\<rparr>)"
    using row by (simp add: memory_version_Inr)
  have st: "memory_state_of ''stale'' = Some MStale" by (simp add: memory_state_of_def)
  have op: "\<exists>res d1. command_dedup d1 = command_dedup memory_db2 \<and> plain res \<and>
      (\<exists>n. mark_stale_op (at_step 3) key memory_key reason 2 ''a'' \<lparr>tx_db = memory_db2, tick = 2\<rparr> = Inr (res, \<lparr>tx_db = d1, tick = n\<rparr>))"
    using p v row
    by (simp add: mark_stale_op_def memory_row_def select_def st step_simps read_simps update_projection_def nullable_text_def
      update_memory_def coalesce_def delete_fts_def memory_check_def type_priority_def sensitivity_rank_def memory_event2_def
      map_of_dict_merge map_add_def del: dict_merge.simps)
  then obtain res d1 where d1: "command_dedup d1 = command_dedup memory_db2" "plain res"
    "\<exists>n. mark_stale_op (at_step 3) key memory_key reason 2 ''a'' \<lparr>tx_db = memory_db2, tick = 2\<rparr> = Inr (res, \<lparr>tx_db = d1, tick = n\<rparr>)"
    by blast
  have "mark_stale (at_step 3) memory_key reason 2 ''a'' key memory_db2 = (Inr res, record_call key res d1)"
    unfolding mark_stale_def by (rule served_call [where op = "mark_stale_op (at_step 3) key memory_key reason 2 ''a''", OF d1(3) _ d1(1) _ canonical_plain [OF d1(2)]])
      (simp_all add: key)
  then show ?thesis by blast
qed

end
