(* ===== verification/Retrieved.thy ===== *)
theory Retrieved
  imports MemorySample "HOL-Library.Multiset"
begin

text \<open>
  What retrieval and the filling of a context pack promise: exactly the visible memories are returned, in the order of
  their ranks, and each section of a pack stays within its token budget.
\<close>

section \<open>Results of lists\<close>

lemma mapE_pairs: "\<forall>p \<in> set ps. f (snd p) = Inr (fst p) \<Longrightarrow> mapE f (map snd ps) = Inr (map fst ps)"
  by (induction ps) auto

section \<open>Retrieval\<close>

text \<open>What a caller with this clearance may see at this time.\<close>

definition cleared :: "string \<Rightarrow> memory_row \<Rightarrow> bool" where
  "cleared clearance row = (case (sensitivity_rank (m_sensitivity row), sensitivity_rank clearance) of
      (Some s, Some c) \<Rightarrow> s \<le> c
    | _ \<Rightarrow> False)"

definition visible :: "string \<Rightarrow> string \<Rightarrow> string list \<Rightarrow> memory_row \<Rightarrow> bool" where
  "visible clearance now matches row =
     (m_review_state row = MAccepted \<and> cleared clearance row \<and> stale_reason (dict_of (m_record row)) now = Inr None \<and>
      m_memory_id row \<in> set matches)"

definition row_rank :: "library \<Rightarrow> string list \<Rightarrow> memory_row \<Rightarrow> rank result" where
  "row_rank L terms row = rank_key L terms (dict_of (m_record row)) (m_memory_id row)"

lemma row_reason_visible:
  "row_reason clearance now matches row = Inr reason \<Longrightarrow> reason = None \<longleftrightarrow> visible clearance now matches row"
  by (auto simp: row_reason_def visible_def cleared_def bindE_Inr_iff found_def split: if_splits option.splits)

lemma judge_row_visible:
  assumes "judge_row L clearance now matches terms row = Inr v"
  shows "if visible clearance now matches row then \<exists>k. row_rank L terms row = Inr k \<and> v = Ranked k (dict_of (m_record row))
    else \<exists>why. v = Excluded (m_memory_id row) why"
proof -
  obtain reason where r: "row_reason clearance now matches row = Inr reason"
    using assms by (auto simp: judge_row_def bindE_Inr_iff)
  from row_reason_visible [OF r] assms r show ?thesis
    by (cases reason) (auto simp: judge_row_def bindE_Inr_iff row_rank_def)
qed

lemma judged_rows:
  assumes "mapE (judge_row L clearance now matches terms) rows = Inr vs"
  shows "\<exists>ps. map snd ps = filter (visible clearance now matches) rows \<and> (\<forall>p \<in> set ps. row_rank L terms (snd p) = Inr (fst p)) \<and>
      ranked_of vs = map (\<lambda>p. (fst p, dict_of (m_record (snd p)))) ps"
    and "map fst (excluded_of vs) = map m_memory_id (filter (\<lambda>r. \<not> visible clearance now matches r) rows)"
proof -
  show "\<exists>ps. map snd ps = filter (visible clearance now matches) rows \<and> (\<forall>p \<in> set ps. row_rank L terms (snd p) = Inr (fst p)) \<and>
      ranked_of vs = map (\<lambda>p. (fst p, dict_of (m_record (snd p)))) ps"
    using assms
  proof (induction rows arbitrary: vs)
    case (Cons row rows)
    then obtain v ws where v: "judge_row L clearance now matches terms row = Inr v" and
      ws: "mapE (judge_row L clearance now matches terms) rows = Inr ws" "vs = v # ws" by (auto simp: bindE_Inr_iff)
    from Cons.IH [OF ws(1)] obtain ps where ps: "map snd ps = filter (visible clearance now matches) rows"
      "\<forall>p \<in> set ps. row_rank L terms (snd p) = Inr (fst p)" "ranked_of ws = map (\<lambda>p. (fst p, dict_of (m_record (snd p)))) ps" by blast
    show ?case
    proof (cases "visible clearance now matches row")
      case True
      with judge_row_visible [OF v] obtain k where "row_rank L terms row = Inr k" "v = Ranked k (dict_of (m_record row))" by auto
      with ps True show ?thesis by (intro exI [of _ "(k, row) # ps"]) (simp add: ws(2) ranked_of_def)
    next
      case False
      with judge_row_visible [OF v] obtain why where "v = Excluded (m_memory_id row) why" by auto
      with ps False show ?thesis by (intro exI [of _ ps]) (simp add: ws(2) ranked_of_def)
    qed
  qed (simp add: ranked_of_def)
  show "map fst (excluded_of vs) = map m_memory_id (filter (\<lambda>r. \<not> visible clearance now matches r) rows)"
    using assms
  proof (induction rows arbitrary: vs)
    case (Cons row rows)
    then obtain v ws where v: "judge_row L clearance now matches terms row = Inr v" and
      ws: "mapE (judge_row L clearance now matches terms) rows = Inr ws" "vs = v # ws" by (auto simp: bindE_Inr_iff)
    from Cons.IH [OF ws(1)] judge_row_visible [OF v] show ?case
      by (auto simp: ws(2) excluded_of_def split: if_splits)
  qed (simp add: excluded_of_def)
qed

text \<open>The terms of a query and what the index finds for them.\<close>

definition query_terms :: "library \<Rightarrow> string \<Rightarrow> string list" where
  "query_terms L query = sort (remdups (find_words (normalize_text L query)))"

definition query_matches :: "library \<Rightarrow> string \<Rightarrow> string list \<Rightarrow> db \<Rightarrow> string list" where
  "query_matches L query scopes d = index_matches L (query_terms L query) (scope_rows scopes d) d"

lemma retrieve_rows:
  assumes "retrieve L query scopes clearance now d = Inr r"
  defines "seen \<equiv> visible clearance now (query_matches L query scopes d)"
  shows "\<exists>rows ks. mset rows = mset (filter (\<lambda>q. m_scope q \<in> set scopes \<and> seen q) (memory_records d)) \<and>
      rt_records r = map (\<lambda>q. dict_of (m_record q)) rows \<and> mapE (row_rank L (query_terms L query)) rows = Inr ks \<and> sorted ks \<and>
      map fst (rt_excluded r) = map m_memory_id (filter (\<lambda>q. \<not> seen q) (scope_rows scopes d))"
proof (cases "scopes = []")
  case True
  then show ?thesis using assms(1)
    by (auto simp: retrieve_def bindE_Inr_iff scope_rows_def intro!: exI [of _ "[]"])
next
  case False
  let ?rows = "scope_rows scopes d"
  from assms(1) False obtain vs where
    vs: "mapE (judge_row L clearance now (query_matches L query scopes d) (query_terms L query)) ?rows = Inr vs"
    and r: "rt_records r = map snd (sort_key fst (ranked_of vs))" "rt_excluded r = excluded_of vs"
    by (auto simp: retrieve_def bindE_Inr_iff Let_def query_terms_def query_matches_def)
  from judged_rows(1) [OF vs] obtain ps where ps: "map snd ps = filter seen ?rows"
    "\<forall>p \<in> set ps. row_rank L (query_terms L query) (snd p) = Inr (fst p)"
    "ranked_of vs = map (\<lambda>p. (fst p, dict_of (m_record (snd p)))) ps" unfolding seen_def by blast
  let ?qs = "sort_key fst ps"
  have "mset (map snd ?qs) = mset (filter seen ?rows)" unfolding ps(1) [symmetric] by (simp only: mset_map mset_sort)
  also have "\<dots> = mset (filter (\<lambda>q. m_scope q \<in> set scopes \<and> seen q) (memory_records d))"
    by (simp add: scope_rows_def filter_filter_mset conj_commute)
  finally have "mset (map snd ?qs) = mset (filter (\<lambda>q. m_scope q \<in> set scopes \<and> seen q) (memory_records d))" .
  moreover have "rt_records r = map (\<lambda>q. dict_of (m_record q)) (map snd ?qs)"
    unfolding r ps(3) sort_key_of_map by simp
  moreover have "mapE (row_rank L (query_terms L query)) (map snd ?qs) = Inr (map fst ?qs)"
    by (rule mapE_pairs) (use ps(2) in simp)
  moreover have "sorted (map fst ?qs)" by (rule sorted_sort_key)
  ultimately show ?thesis using judged_rows(2) [OF vs] unfolding r seen_def by blast
qed

section \<open>Filling the sections of a pack\<close>

definition section_total :: "string \<Rightarrow> selected_item list \<Rightarrow> nat" where
  "section_total name items = sum_list (map si_token_count (filter (\<lambda>i. si_section i = name) items))"

text \<open>An item quotes the beginning of the statement of its record, and its count and digest are those of the quote.\<close>

definition quotes :: "(string \<Rightarrow> string) \<Rightarrow> string dict \<Rightarrow> selected_item \<Rightarrow> bool" where
  "quotes digest record i \<longleftrightarrow> text_item record ''memory_id'' = Inr (si_memory_id i) \<and>
     section_of record = Inr (si_section i) \<and>
     (\<exists>rest. text_item record ''statement'' = Inr (si_excerpt i @ rest)) \<and>
     si_token_count i = token_count (si_excerpt i) \<and> si_excerpt_sha256 i = digest (si_excerpt i)"

definition in_budget :: "(string \<times> int) list \<Rightarrow> filling \<Rightarrow> bool" where
  "in_budget budgets s \<longleftrightarrow> (\<forall>name. section_total name (fl_selected s) = used_tokens s name \<and>
     int (used_tokens s name) \<le> max 0 (budget_of budgets name))"

text \<open>The records gone through so far are the ones selected or left out for want of budget.\<close>

definition accounts :: "(string \<Rightarrow> string) \<Rightarrow> (string \<times> string) list \<Rightarrow> string dict list \<Rightarrow> filling \<Rightarrow> bool" where
  "accounts digest before records s \<longleftrightarrow> (\<exists>left.
     fl_excluded s = before @ map (\<lambda>i. (i, ''section_budget'')) left \<and>
     (\<exists>ids. mapE (\<lambda>r. text_item r ''memory_id'') records = Inr ids \<and> mset ids = mset (map si_memory_id (fl_selected s) @ left)) \<and>
     (\<forall>i \<in> set (fl_selected s). \<exists>r \<in> set records. quotes digest r i))"

lemma token_count_excerpt: "0 < n \<Longrightarrow> int (token_count (rstrip_space (take (nat n * 4) t))) \<le> n"
proof -
  assume n: "0 < n"
  have "length (rstrip_space (take (nat n * 4) t)) \<le> nat n * 4"
    using length_rstrip_space [of "take (nat n * 4) t"] by simp
  then have "token_count (rstrip_space (take (nat n * 4) t)) \<le> nat n" by (simp add: token_count_def)
  then show ?thesis using n by simp
qed

lemma excerpt_prefix: "\<exists>rest. t = rstrip_space (take n t) @ rest"
proof -
  obtain r where "take n t = rstrip_space (take n t) @ r" using rstrip_space_prefix by blast
  then have "t = rstrip_space (take n t) @ r @ drop n t" by (metis append.assoc append_take_drop_id)
  then show ?thesis by blast
qed

lemma take_in_fields:
  "fl_selected (take_in i name ex sha b s) = fl_selected s @ [\<lparr>si_memory_id = i, si_excerpt = ex, si_excerpt_sha256 = sha,
     si_section = name, si_token_count = token_count ex\<rparr>]"
  "fl_excluded (take_in i name ex sha b s) = fl_excluded s"
  "used_tokens (take_in i name ex sha b s) n = used_tokens s n + (if n = name then token_count ex else 0)"
  by (auto simp: take_in_def used_tokens_def)

lemma leave_out_fields:
  "fl_selected (leave_out i name s) = fl_selected s" "fl_excluded (leave_out i name s) = fl_excluded s @ [(i, ''section_budget'')]"
  "used_tokens (leave_out i name s) n = used_tokens s n"
  by (simp_all add: leave_out_def used_tokens_def)

lemma fill_one_cases:
  assumes "fill_one digest budgets record s = Inr s'"
  obtains (left) i name where "text_item record ''memory_id'' = Inr i" "s' = leave_out i name s"
  | (taken) i name ex b where "text_item record ''memory_id'' = Inr i" "section_of record = Inr name"
      "\<exists>rest. text_item record ''statement'' = Inr (ex @ rest)"
      "int (used_tokens s name) + int (token_count ex) \<le> budget_of budgets name"
      "s' = take_in i name ex (digest ex) b s"
proof -
  from assms obtain name i where n: "section_of record = Inr name" and i: "text_item record ''memory_id'' = Inr i"
    by (auto simp: fill_one_def bindE_Inr_iff Let_def)
  let ?rem = "budget_of budgets name - int (used_tokens s name)"
  show ?thesis
  proof (cases "?rem \<le> 0")
    case True
    then show ?thesis using assms n i by (intro left [OF i, of name]) (simp add: fill_one_def Let_def)
  next
    case False
    then obtain t where t: "text_item record ''statement'' = Inr t"
      using assms n i by (auto simp: fill_one_def Let_def bindE_Inr_iff)
    show ?thesis
    proof (cases "int (token_count t) \<le> ?rem")
      case True
      then show ?thesis using assms n i t False
        by (intro taken [OF i n, of t False]) (simp_all add: fill_one_def Let_def)
    next
      case long: False
      let ?ex = "rstrip_space (take (nat ?rem * 4) t)"
      have "int (used_tokens s name) + int (token_count ?ex) \<le> budget_of budgets name"
        using token_count_excerpt [of ?rem t] False by simp
      moreover have "\<exists>rest. text_item record ''statement'' = Inr (?ex @ rest)" using excerpt_prefix [of t "nat ?rem * 4"] t by auto
      moreover have "s' = (if ?ex = [] then leave_out i name s else take_in i name ?ex (digest ?ex) True s)"
        using assms n i t False long by (simp add: fill_one_def Let_def)
      ultimately show ?thesis using left [OF i, of name] taken [OF i n, of ?ex True] by (simp split: if_splits)
    qed
  qed
qed

lemma fill_one_in_budget: "fill_one digest budgets record s = Inr s' \<Longrightarrow> in_budget budgets s \<Longrightarrow> in_budget budgets s'"
  by (erule fill_one_cases)
    (auto simp: in_budget_def section_total_def take_in_fields leave_out_fields)

lemma fill_one_accounts:
  assumes "fill_one digest budgets record s = Inr s'" and "accounts digest before records s"
  shows "accounts digest before (records @ [record]) s'"
proof -
  from assms(2) obtain left ids where a: "fl_excluded s = before @ map (\<lambda>i. (i, ''section_budget'')) left"
    "mapE (\<lambda>r. text_item r ''memory_id'') records = Inr ids" "mset ids = mset (map si_memory_id (fl_selected s) @ left)"
    "\<forall>i \<in> set (fl_selected s). \<exists>r \<in> set records. quotes digest r i" by (auto simp: accounts_def)
  have ids: "mapE (\<lambda>r. text_item r ''memory_id'') (records @ [record]) = Inr (ids @ [i])" if "text_item record ''memory_id'' = Inr i" for i
    using a(2) that by (auto simp: mapE_Inr_iff list_all2_appendI)
  from assms(1) show ?thesis
  proof (cases rule: fill_one_cases)
    case (left i name)
    then show ?thesis using a ids [OF left(1)]
      by (auto simp: accounts_def leave_out_fields intro!: exI [of _ "left @ [i]"])
  next
    case (taken i name ex b)
    then show ?thesis using a ids [OF taken(1)]
      by (auto simp: accounts_def take_in_fields quotes_def intro!: exI [of _ left])
  qed
qed

lemma fill_accounts:
  "fill digest budgets records s = Inr s' \<Longrightarrow> in_budget budgets s \<and> accounts digest before past s \<Longrightarrow>
   in_budget budgets s' \<and> accounts digest before (past @ records) s'"
proof (induction records arbitrary: s past)
  case (Cons r rs)
  then obtain s1 where s1: "fill_one digest budgets r s = Inr s1" "fill digest budgets rs s1 = Inr s'" by (auto simp: bindE_Inr_iff)
  from Cons.IH [OF s1(2), of "past @ [r]"] Cons.prems(2) fill_one_in_budget [OF s1(1)] fill_one_accounts [OF s1(1)]
  show ?case by simp
qed simp

lemma filling0_ok: "in_budget budgets (filling0 budgets excluded) \<and> accounts digest excluded [] (filling0 budgets excluded)"
  by (auto simp: in_budget_def section_total_def filling0_def used_tokens_def accounts_def)

lemma select_records_ok:
  assumes "select_records digest budgets r = Inr s"
  shows "in_budget budgets s \<and> accounts digest (rt_excluded r) (rt_records r) s"
proof -
  from assms have "fill digest budgets (rt_records r) (filling0 budgets (rt_excluded r)) = Inr s"
    by (auto simp: select_records_def bindE_Inr_iff)
  from fill_accounts [OF this filling0_ok [of budgets "rt_excluded r" digest]] show ?thesis by simp
qed

end
