(* ===== verification/MemoryRows.thy ===== *)
theory MemoryRows
  imports MemoryLife
begin

text \<open>
  What the commands on memories do to single rows: which row a command changes, to which state, and that the others stay.
\<close>

section \<open>Looking rows up\<close>

lemma find_moved:
  assumes "memory_records d' = update_where (\<lambda>r. m_memory_id r = i) g (memory_records d)" and "\<And>r. m_memory_id (g r) = m_memory_id r"
  shows "find_memory d' j = (if j = i then map_option g (find_memory d i) else find_memory d j)"
proof (cases "j = i")
  case True
  then show ?thesis unfolding find_memory_def assms(1)
    using find_update_where_same [of "\<lambda>r. m_memory_id r = i" g "memory_records d"] assms(2) by simp
next
  case False
  then show ?thesis unfolding find_memory_def assms(1)
    using find_update_where_other [of "\<lambda>r. m_memory_id r = i" "\<lambda>r. m_memory_id r = j" g "memory_records d"] assms(2) by auto
qed

lemma find_same: "memory_records d' = memory_records d \<Longrightarrow> find_memory d' i = find_memory d i"
  by (simp add: find_memory_def)

text \<open>An event and the change of a row that goes with it.\<close>

lemma change_rows:
  assumes e: "append_event E key a s = Inr (m, s1)" and u: "update_projection E rcd m now rb aa sr s1' = Inr (w, s2)" "tx_db s1' = tx_db s1"
    and rcd: "map_of rcd ''memory_id'' = Some (JStr i)" "map_of rcd ''review_state'' = Some (JStr (memory_state_text st))"
      "map_of rcd ''aggregate_version'' = Some (JInt v)"
    and row: "find_memory (tx_db s) i = Some row" and s': "memory_records (tx_db s') = memory_records (tx_db s2)"
      "command_dedup (tx_db s') = command_dedup (tx_db s2)"
  shows "\<exists>row'. find_memory (tx_db s') i = Some row' \<and> m_review_state row' = st" and "j \<noteq> i \<Longrightarrow> find_memory (tx_db s') j = find_memory (tx_db s) j"
    and "command_dedup (tx_db s') = command_dedup (tx_db s)"
proof -
  from append_event_D [OF e] obtain ev where s1: "tx_db s1 = push_event ev (tx_db s)" by auto
  from update_projection_D [OF u(1) rcd] obtain g st' where
    s2: "s2 = s1'\<lparr>tx_db := (tx_db s1')\<lparr>memory_records := update_where (\<lambda>r. m_memory_id r = i) g (memory_records (tx_db s1'))\<rparr>\<rparr>"
    and g: "memory_state_text st' = memory_state_text st" "\<And>r. memory_core (g r) = memory_core r" "\<And>r. m_review_state (g r) = st'"
    by metis
  have "memory_records (tx_db s') = update_where (\<lambda>r. m_memory_id r = i) g (memory_records (tx_db s))"
    using s'(1) s2 u(2) s1 by simp
  moreover have "m_memory_id (g r) = m_memory_id r" for r using g(2) [of r] by (simp add: memory_core_def)
  ultimately have f: "find_memory (tx_db s') j = (if j = i then map_option g (find_memory (tx_db s) i) else find_memory (tx_db s) j)" for j
    by (rule find_moved)
  show "\<exists>row'. find_memory (tx_db s') i = Some row' \<and> m_review_state row' = st" using f [of i] row g(1, 3) by simp
  show "j \<noteq> i \<Longrightarrow> find_memory (tx_db s') j = find_memory (tx_db s) j" using f [of j] by simp
  show "command_dedup (tx_db s') = command_dedup (tx_db s)" using s'(2) s2 u(2) s1 by simp
qed

section \<open>The commands\<close>

lemma mark_stale_rows:
  assumes "mark_stale_op E key i reason v act s = Inr (res, s')" and n: "memory_named (tx_db s)"
  shows "\<exists>row. find_memory (tx_db s) i = Some row \<and> m_review_state row = MAccepted \<and> v = mk_aggregate_version (m_marker row)"
    and "\<exists>row'. find_memory (tx_db s') i = Some row' \<and> m_review_state row' = MStale"
    and "j \<noteq> i \<Longrightarrow> find_memory (tx_db s') j = find_memory (tx_db s) j"
    and "command_dedup (tx_db s') = command_dedup (tx_db s)"
proof -
  from assms(1) obtain row sha sens m s1 now w s2 where row: "find_memory (tx_db s) i = Some row"
    and v: "v = mk_aggregate_version (m_marker row)" "m_review_state row = MAccepted"
    and e: "append_event E key \<lparr>aggregate_type = ''memory'', aggregate_id = i, event_type = ''memory.stale'',
         aggregate_version = v + 1, actor = act,
         payload = JObj [(''reason'', JStr reason), (''record_sha256'', JStr sha)],
         sensitivity = sens, occurred_at = None\<rparr> s = Inr (m, s1)"
    and u: "update_projection E (dict_merge (dict_of (m_record row)) [(''aggregate_version'', JInt (v + 1)), (''review_state'', JStr ''stale'')])
         m now None None (Some reason) (s1\<lparr>tick := Suc (tick s1)\<rparr>) = Inr (w, s2)"
    and s': "tx_db s' = delete_fts i (tx_db s2)"
    by (rule mark_stale_D)
  show "\<exists>row. find_memory (tx_db s) i = Some row \<and> m_review_state row = MAccepted \<and> v = mk_aggregate_version (m_marker row)"
    using row v by blast
  note c = change_rows [OF e u, where i = i and st = MStale and row = row and s' = s' and v = "v + 1"]
  show "\<exists>row'. find_memory (tx_db s') i = Some row' \<and> m_review_state row' = MStale"
    by (rule c(1)) (use row_named [OF n row] row in \<open>simp_all add: s' delete_fts_def\<close>)
  show "find_memory (tx_db s') j = find_memory (tx_db s) j" if "j \<noteq> i"
    by (rule c(2)) (use row_named [OF n row] row that in \<open>simp_all add: s' delete_fts_def\<close>)
  show "command_dedup (tx_db s') = command_dedup (tx_db s)"
    by (rule c(3)) (use row_named [OF n row] row in \<open>simp_all add: s' delete_fts_def\<close>)
qed

lemma supersede_one_rows:
  assumes "supersede_one E key rec act now i s = Inr (u, s')" and n: "memory_named (tx_db s)" and j: "j \<noteq> i"
  shows "find_memory (tx_db s') j = find_memory (tx_db s) j"
proof -
  from assms(1) obtain row by' sha sens m s1 w s2 where row: "find_memory (tx_db s) i = Some row"
    and e: "append_event E key \<lparr>aggregate_type = ''memory'', aggregate_id = i, event_type = ''memory.superseded'',
         aggregate_version = mk_aggregate_version (m_marker row) + 1, actor = act,
         payload = JObj [(''superseded_by'', by'), (''record_sha256'', JStr sha)],
         sensitivity = sens, occurred_at = None\<rparr> s = Inr (m, s1)"
    and u: "update_projection E (dict_merge (dict_of (m_record row))
         [(''aggregate_version'', JInt (mk_aggregate_version (m_marker row) + 1)), (''review_state'', JStr ''superseded'')])
         m now None None None s1 = Inr (w, s2)"
    and s': "tx_db s' = delete_fts i (tx_db s2)"
    by (rule supersede_one_D)
  show ?thesis
    by (rule change_rows(2) [OF e u refl, where i = i and st = MSuperseded and row = row and v = "mk_aggregate_version (m_marker row) + 1"])
      (use row_named [OF n row] row j in \<open>simp_all add: s' delete_fts_def\<close>)
qed

lemma supersede_rows:
  assumes "tfor (supersede_one E key rec act now) ids s = Inr (u, s')" and "memory_named (tx_db s)" and "j \<notin> set ids"
  shows "find_memory (tx_db s') j = find_memory (tx_db s) j"
  using assms
proof (induction ids arbitrary: s)
  case (Cons i ids)
  then obtain w s1 where x: "supersede_one E key rec act now i s = Inr (w, s1)" and r: "tfor (supersede_one E key rec act now) ids s1 = Inr (u, s')"
    by (auto simp: tx_simps)
  from Cons.IH [OF r memory_named_step [OF supersede_one_effect [OF x Cons.prems(2)] Cons.prems(2)]]
    supersede_one_rows [OF x Cons.prems(2)] Cons.prems(3) show ?case by simp
qed simp

text \<open>The row of a decision. A record that lists itself among those it supersedes is the one exception: it is
  accepted and superseded at once.\<close>

lemma record_decision_rows:
  assumes "record_decision E L key i decision v reviewer checks ind (dict_of (m_record row)) (memory_state_text st) s = Inr (res, s')"
    and n: "memory_named (tx_db s)" and row: "find_memory (tx_db s) i = Some row"
    and own: "\<forall>ids. texts_item (dict_of (m_record row)) ''supersedes'' = Inr ids \<longrightarrow> i \<notin> set ids"
  shows "\<exists>row'. find_memory (tx_db s') i = Some row' \<and> m_review_state row' = st"
proof -
  from assms(1) obtain sha csha sens m s1 now w s2 rs s3 w' s4 where
    e: "append_event E key \<lparr>aggregate_type = ''memory'', aggregate_id = i, event_type = ''memory.'' @ memory_state_text st,
         aggregate_version = v + 1, actor = reviewer,
         payload = JObj [(''record_sha256'', JStr sha), (''review_state'', JStr (memory_state_text st)), (''source_check_sha256'', JStr csha)],
         sensitivity = sens, occurred_at = None\<rparr> (s\<lparr>tick := Suc (tick s)\<rparr>) = Inr (m, s1)"
    and u: "update_projection E (decided row v (memory_state_text st)) m now (Some reviewer)
      (if memory_state_text st = ''accepted'' then Some now else None) None s1 = Inr (w, s2)"
    and s3: "tx_db s3 = tx_db s2\<lparr>memory_reviews := rs\<rparr>"
    and x: "(if memory_state_text st = ''accepted''
            then tbind (index_record L (decided row v (memory_state_text st)))
              (\<lambda>_. supersede_in_tx E key (decided row v (memory_state_text st)) reviewer now)
            else tret ()) s3 = Inr (w', s4)"
    and s': "tx_db s' = tx_db s4"
    by (rule record_decision_D)
  have id: "map_of (decided row v (memory_state_text st)) ''memory_id'' = Some (JStr i)" using row_named [OF n row] by (simp add: decided_def)
  have u': "\<exists>row'. find_memory (tx_db s3) i = Some row' \<and> m_review_state row' = st"
    by (rule change_rows(1) [OF e u refl id, where st = st and row = row and v = "v + 1"])
      (use row in \<open>simp_all add: s3 decided_def\<close>)
  show ?thesis
  proof (cases "memory_state_text st = ''accepted''")
    case True
    from x True obtain w2 s5 where i: "index_record L (decided row v ''accepted'') s3 = Inr (w2, s5)"
      and sup: "supersede_in_tx E key (decided row v ''accepted'') reviewer now s5 = Inr (w', s4)"
      by (auto simp: tx_Inr_iff(3))
    obtain f where f: "tx_db s5 = tx_db s3\<lparr>memory_fts := filter (\<lambda>r. f_memory_id r \<noteq> i) (memory_fts (tx_db s3)) @ [f]\<rparr>"
      by (rule index_record_D [OF i id [unfolded True]]) simp
    from sup obtain ids where ids: "texts_item (decided row v ''accepted'') ''supersedes'' = Inr ids"
      and t: "tfor (supersede_one E key (decided row v ''accepted'') reviewer now) ids s5 = Inr (w', s4)"
      by (auto simp: supersede_in_tx_def tx_simps)
    have "texts_item (dict_of (m_record row)) ''supersedes'' = Inr ids"
      using ids by (simp add: texts_item_def dict_item_def decided_def)
    then have "i \<notin> set ids" using own by blast
    moreover have "memory_named (tx_db s5)"
    proof -
      obtain ev where s1: "tx_db s1 = push_event ev (tx_db s)" using append_event_D [OF e] by auto
      have rc: "map_of (decided row v (memory_state_text st)) ''review_state'' = Some (JStr (memory_state_text st))"
        "map_of (decided row v (memory_state_text st)) ''aggregate_version'' = Some (JInt (v + 1))" by (simp_all add: decided_def)
      from update_projection_D [OF u id rc] obtain g where
          "s2 = s1\<lparr>tx_db := (tx_db s1)\<lparr>memory_records := update_where (\<lambda>r. m_memory_id r = i) g (memory_records (tx_db s1))\<rparr>\<rparr>"
          "\<And>r. memory_core (g r) = memory_core r" "\<And>r. names_memory (m_record (g r)) i"
        by metis
      then show ?thesis using n s1 by (auto simp: memory_named_def f s3 set_update_where memory_core_def)
    qed
    ultimately have "find_memory (tx_db s4) i = find_memory (tx_db s5) i" using supersede_rows [OF t] by simp
    then show ?thesis using u' by (simp add: s' f find_memory_def)
  qed (use x u' in \<open>simp add: s' tx_eval\<close>)
qed

section \<open>Commands that return\<close>

text \<open>A fresh command records its key, and nothing else does.\<close>

lemma run_command_keys:
  assumes "run_command E key cmd op d = (Inr v, d')" and "key \<notin> dd_key ` set (command_dedup d)"
  obtains s s' r where "tx_db s = d" and "op s = Inr (v, s')" and "d' = tx_db s'\<lparr>command_dedup := command_dedup (tx_db s') @ [r]\<rparr>"
    and "dd_key r = key"
proof -
  have none: "List.find (\<lambda>r. dd_key r = key) (command_dedup d) = None"
    using assms(2) by (auto simp: find_None_iff_all)
  from assms(1) obtain h replayed s1 where
    b: "command_body E key h op \<lparr>tx_db = d, tick = 1\<rparr> = Inr ((v, replayed), s1)" "d' = tx_db s1"
    by (auto simp: run_command_def command_def split: sum.splits if_splits prod.splits)
  from b(1) none obtain s' r where r: "insert_dedup r (tx_db s') = Inr (tx_db s1)"
    and "op \<lparr>tx_db = d, tick = 2\<rparr> = Inr (v, s')" "dd_key r = key"
    by (auto simp: command_body_def tx_simps numeral_2_eq_2)
  moreover have "tx_db s1 = tx_db s'\<lparr>command_dedup := command_dedup (tx_db s') @ [r]\<rparr>"
    using r by (auto simp: insert_dedup_def tx_simps)
  ultimately show ?thesis using that [of "\<lparr>tx_db = d, tick = 2\<rparr>" s' r] b(2) by simp
qed

section \<open>Sweeps\<close>

lemma mark_stale_marks:
  assumes "mark_stale E i reason v act key d = (Inr res, d')" and "key \<notin> dd_key ` set (command_dedup d)" and "memory_named d"
  shows "\<exists>row'. find_memory d' i = Some row' \<and> m_review_state row' = MStale"
    and "j \<noteq> i \<Longrightarrow> find_memory d' j = find_memory d j"
    and "dd_key ` set (command_dedup d') = insert key (dd_key ` set (command_dedup d))"
proof -
  from run_command_keys [OF assms(1) [unfolded mark_stale_def] assms(2)] obtain s s' r where s: "tx_db s = d"
    "mark_stale_op E key i reason v act s = Inr (res, s')" "d' = tx_db s'\<lparr>command_dedup := command_dedup (tx_db s') @ [r]\<rparr>" "dd_key r = key"
    by metis
  note rows = mark_stale_rows [OF s(2)]
  show "\<exists>row'. find_memory d' i = Some row' \<and> m_review_state row' = MStale"
    using rows(2) assms(3) s(1, 3) by (simp add: find_memory_def)
  show "j \<noteq> i \<Longrightarrow> find_memory d' j = find_memory d j" using rows(3) [of j] assms(3) s(1, 3) by (simp add: find_memory_def)
  show "dd_key ` set (command_dedup d') = insert key (dd_key ` set (command_dedup d))" using rows(4) assms(3) s by simp
qed

text \<open>What a sweep does: it marks the rows that are due, and only those.\<close>

definition due :: "(memory_row \<Rightarrow> string option result) \<Rightarrow> memory_row \<Rightarrow> bool" where
  "due judge r \<longleftrightarrow> (\<exists>reason. judge r = Inr (Some reason))"

lemma sweep_marks:
  assumes "sweep S act judge key rs d = (Inr ids, d')" and "memory_named d" and "distinct (map m_memory_id rs)"
    and "inj key" and "\<forall>r \<in> set rs. key (m_memory_id r) \<notin> dd_key ` set (command_dedup d)"
  shows "ids = map m_memory_id (filter (due judge) rs) \<and> (\<forall>r \<in> set rs. due judge r \<or> judge r = Inr None) \<and>
    (\<forall>j. if j \<in> set ids then \<exists>row'. find_memory d' j = Some row' \<and> m_review_state row' = MStale
      else find_memory d' j = find_memory d j)"
  using assms
proof (induction rs arbitrary: d ids)
  case (Cons r rs)
  show ?case
  proof (cases "judge r")
    case (Inr o')
    show ?thesis
    proof (cases o')
      case None
      with Inr Cons.prems have "sweep S act judge key rs d = (Inr ids, d')" by simp
      from Cons.IH [OF this] Cons.prems None Inr show ?thesis by (simp add: due_def)
    next
      case (Some reason)
      let ?i = "m_memory_id r"
      from Cons.prems(1) Inr Some obtain res d1 js where m:
          "mark_stale (S ?i) ?i reason (mk_aggregate_version (m_marker r)) act (key ?i) d = (Inr res, d1)"
        and sw: "sweep S act judge key rs d1 = (Inr js, d')" "ids = ?i # js"
        by (auto split: sum.splits prod.splits)
      have fresh: "key ?i \<notin> dd_key ` set (command_dedup d)" using Cons.prems(5) by simp
      note marks = mark_stale_marks [OF m fresh Cons.prems(2)]
      have "memory_named d1" using named_changes [OF mark_stale_changes [OF Cons.prems(2)] Cons.prems(2)] m by (metis snd_conv)
      moreover have "\<forall>q \<in> set rs. key (m_memory_id q) \<notin> dd_key ` set (command_dedup d1)"
        using marks(3) Cons.prems(3, 4, 5) by (auto simp: inj_eq) (metis imageI)
      ultimately have ih: "js = map m_memory_id (filter (due judge) rs)" "\<forall>q \<in> set rs. due judge q \<or> judge q = Inr None"
          "\<forall>j. if j \<in> set js then \<exists>row'. find_memory d' j = Some row' \<and> m_review_state row' = MStale else find_memory d' j = find_memory d1 j"
        using Cons.IH [OF sw(1)] Cons.prems(3, 4) by auto
      have "?i \<notin> set js" using ih(1) Cons.prems(3) by auto
      then have i: "find_memory d' ?i = find_memory d1 ?i" using ih(3) by metis
      have all: "if j \<in> set ids then \<exists>row'. find_memory d' j = Some row' \<and> m_review_state row' = MStale
          else find_memory d' j = find_memory d j" for j
      proof (cases "j = ?i")
        case True
        with i marks(1) sw(2) show ?thesis by simp
      next
        case False
        with ih(3) [rule_format, of j] marks(2) [of j] sw(2) show ?thesis by simp
      qed
      have "due judge r" using Inr Some by (simp add: due_def)
      then show ?thesis using ih(1, 2) sw(2) all by simp
    qed
  qed (use Cons.prems in simp)
qed simp

end
