(* ===== verification/MemoryGuarantees.thy ===== *)
theory MemoryGuarantees
  imports Retrieved MemoryRows
begin

text \<open>
  What the service of memories guarantees: the life of every memory, who may accept one and on what evidence, what a
  reader sees, how a context pack is filled, and that a sweep leaves no memory accepted that is due.
\<close>

section \<open>The life of a memory\<close>

text \<open>
  C10. A memory lives by its state machine and the index follows it: whatever requests a store has served, to Core and to the
  service of memories, the events of every memory announce a path of the machine from \<open>candidate\<close> to the state of
  its row, step by step along its edges, the row carries the marker of the last of them, and the full-text index holds the
  accepted memories, each once, and no others.
\<close>

theorem memory_lifecycle:
  assumes "operated E d"
  shows "(\<forall>row \<in> set (memory_records d). \<exists>states.
      list_all2 memory_announces (events_of d (m_memory_id row)) states \<and>
      states \<noteq> [] \<and> hd states = MCandidate \<and> successively memory_edge states \<and> last states = m_review_state row \<and>
      (\<exists>e. latest_event d (m_memory_id row) = Some e \<and> m_marker row = marker_of e)) \<and>
    distinct (map f_memory_id (memory_fts d)) \<and>
    f_memory_id ` set (memory_fts d) = m_memory_id ` {row \<in> set (memory_records d). m_review_state row = MAccepted}"
proof -
  have i: "memory_inv d" by (rule operated_inv [OF assms])
  have "\<exists>e. latest_event d (m_memory_id row) = Some e \<and> m_marker row = marker_of e" if "row \<in> set (memory_records d)" for row
    using i that unfolding memory_inv_def projections_ok_def tracks_def by metis
  moreover have "{row \<in> set (memory_records d). m_review_state row = MAccepted} = set (accepted_rows d)"
    by (auto simp: accepted_rows_def)
  ultimately show ?thesis using i
    by (fastforce simp: memory_inv_def memory_traced_def traced_def path_of_def indexed_def)
qed

theorem memory_lifecycle_witness:
  "f_memory_id ` set (memory_fts memory_db2) = {memory_key} \<and>
   (\<exists>states. list_all2 memory_announces [memory_event1, memory_event2] states \<and> states \<noteq> [] \<and> hd states = MCandidate \<and>
     successively memory_edge states \<and> last states = MAccepted)"
proof -
  have k: "m_memory_id memory2 = memory_key" "m_review_state memory2 = MAccepted" by (simp_all add: memory2_def memory1_def)
  have "events_of memory_db2 memory_key = [memory_event1, memory_event2]" by (simp add: events_of_def)
  then show ?thesis using memory_lifecycle [OF memory_operated(3)] k by (auto simp: memory_entry_def)
qed

section \<open>Acceptance\<close>

lemma accept_or_quarantine_D:
  "accept_or_quarantine E L i rcd checks s = Inr (state, s') \<Longrightarrow>
   verify_source_checks rcd checks = Inr () \<and> feedback_attributed rcd = Inr () \<and>
   (\<exists>c. find_conflict L rcd (tx_db s) = Inr c \<and> state = (if c = None then ''accepted'' else ''quarantined'')) \<and>
   memory_records (tx_db s') = memory_records (tx_db s)"
  by (auto simp: accept_or_quarantine_def tx_simps uuid4_text_def insert_memory_conflict_def split: option.splits)

lemma reviewer_allowed_D:
  "reviewer_allowed rcd decision reviewer = Inr () \<Longrightarrow>
   \<exists>by scope. text_item rcd ''created_by'' = Inr by \<and> text_item rcd ''scope'' = Inr scope \<and>
     \<not> (begins_with ''agent:'' by \<and> by = reviewer) \<and> \<not> (scope = ''company'' \<and> decision = ''accepted'' \<and> reviewer \<noteq> ''human:chad'')"
  unfolding reviewer_allowed_def by (auto simp: bindE_Inr_iff)

text \<open>
  C9. A memory is accepted on evidence and by somebody else: when \<open>review_candidate\<close> returns from the decision to accept, the record
  was a candidate at the expected version; the source checks are, up to order, its evidence, every item of it current; an
  agent did not review its own record; a company memory was reviewed by \<open>human:chad\<close>; feedback is asserted by a human; and
  the record is now accepted if it conflicts with no accepted fact, and quarantined if it does.
  (A record that lists itself among those it supersedes is set aside.)
\<close>

theorem memory_acceptance:
  assumes "review_candidate E L i ''accepted'' v reviewer checks ind key d = (Inr res, d')" and "key \<notin> dd_key ` set (command_dedup d)"
    and "operated F d" and "find_memory d i = Some row"
    and "\<forall>ids. texts_item (dict_of (m_record row)) ''supersedes'' = Inr ids \<longrightarrow> i \<notin> set ids"
  defines "rcd \<equiv> dict_of (m_record row)"
  shows "m_review_state row = MCandidate \<and> mk_aggregate_version (m_marker row) = v \<and>
    (\<exists>expected actual. bindE (sources_of rcd) (mapE source_facts) = Inr expected \<and> mapE source_facts checks = Inr actual \<and>
       mset actual = mset expected \<and> (\<forall>(uri, sha, validity) \<in> set expected. validity = ''current'')) \<and>
    (\<exists>by scope. text_item rcd ''created_by'' = Inr by \<and> text_item rcd ''scope'' = Inr scope \<and>
       (begins_with ''agent:'' by \<longrightarrow> reviewer \<noteq> by) \<and> (scope = ''company'' \<longrightarrow> reviewer = ''human:chad'')) \<and>
    (text_item rcd ''type'' = Inr ''feedback'' \<longrightarrow> (\<exists>who. text_item rcd ''asserted_by'' = Inr who \<and> begins_with ''human:'' who)) \<and>
    (\<exists>conflict row'. find_conflict L rcd d = Inr conflict \<and> find_memory d' i = Some row' \<and>
       m_review_state row' = (if conflict = None then MAccepted else MQuarantined))"
proof -
  have n: "memory_named d" using operated_inv [OF assms(3)] by (simp add: memory_inv_def)
  from assms(1) obtain cmd where "run_command E key cmd (review_candidate_op E L key i ''accepted'' v reviewer checks ind) d = (Inr res, d')"
    by (auto simp: review_candidate_def checked_returns)
  from run_command_keys [OF this assms(2)] obtain s s' r where s: "tx_db s = d"
    "review_candidate_op E L key i ''accepted'' v reviewer checks ind s = Inr (res, s')" "d' = tx_db s'\<lparr>command_dedup := command_dedup (tx_db s') @ [r]\<rparr>"
    by metis
  from s(2) obtain q state s1 where q: "find_memory d i = Some q" "v = mk_aggregate_version (m_marker q)" "m_review_state q = MCandidate"
    and al: "reviewer_allowed (dict_of (m_record q)) ''accepted'' reviewer = Inr ()"
    and a: "accept_or_quarantine E L i (dict_of (m_record q)) checks s = Inr (state, s1)"
    and rd: "record_decision E L key i ''accepted'' v reviewer checks ind (dict_of (m_record q)) state s1 = Inr (res, s')"
    unfolding s(1) [symmetric] by (rule review_candidate_D) simp
  have "q = row" using q(1) assms(4) by simp
  note q = q [unfolded this] and al = al [unfolded this rcd_def [symmetric]] and a = a [unfolded this] and rd = rd [unfolded this]
  from accept_or_quarantine_D [OF a [folded rcd_def]] obtain c where c: "verify_source_checks rcd checks = Inr ()" "feedback_attributed rcd = Inr ()"
    "find_conflict L rcd d = Inr c" "state = (if c = None then ''accepted'' else ''quarantined'')" "memory_records (tx_db s1) = memory_records d"
    using s(1) by auto
  let ?st = "if c = None then MAccepted else MQuarantined"
  have "state = memory_state_text ?st" using c(4) by simp
  moreover have "memory_named (tx_db s1)" "find_memory (tx_db s1) i = Some row"
    using n c(5) q(1) by (simp_all add: memory_named_def find_memory_def)
  ultimately obtain row' where "find_memory (tx_db s') i = Some row'" "m_review_state row' = ?st"
    using record_decision_rows [OF rd [unfolded \<open>state = memory_state_text ?st\<close>] _ _ assms(5)] by blast
  then have out: "\<exists>conflict row'. find_conflict L rcd d = Inr conflict \<and> find_memory d' i = Some row' \<and>
       m_review_state row' = (if conflict = None then MAccepted else MQuarantined)"
    using c(3) s(3) by (auto simp: find_memory_def)
  from c(1) obtain expected actual where "bindE (sources_of rcd) (mapE source_facts) = Inr expected" "mapE source_facts checks = Inr actual"
    "sort actual = sort expected" "\<forall>(u, h, w) \<in> set actual. w = ''current''"
    by (auto simp: verify_source_checks_def bindE_Inr_iff)
  moreover from this(3) have "mset actual = mset expected" by (metis mset_sort)
  moreover from this have "set actual = set expected" by (metis set_mset_mset)
  ultimately have ev: "\<exists>expected actual. bindE (sources_of rcd) (mapE source_facts) = Inr expected \<and> mapE source_facts checks = Inr actual \<and>
       mset actual = mset expected \<and> (\<forall>(uri, sha, validity) \<in> set expected. validity = ''current'')" by metis
  have fb: "text_item rcd ''type'' = Inr ''feedback'' \<longrightarrow> (\<exists>who. text_item rcd ''asserted_by'' = Inr who \<and> begins_with ''human:'' who)"
    using c(2) by (auto simp: feedback_attributed_def bindE_Inr_iff)
  show ?thesis using q(2, 3) ev fb out reviewer_allowed_D [OF al] by blast
qed

lemma sample_supersedes: "texts_item (dict_of (m_record memory1)) ''supersedes'' = Inr []"
  by (simp add: memory1_def texts_item_def dict_item_def as_list_def)

theorem memory_acceptance_witness:
  "\<exists>conflict row'. find_conflict sample_library (dict_of (m_record memory1)) memory_db1 = Inr conflict \<and>
     find_memory memory_db2 memory_key = Some row' \<and> m_review_state row' = (if conflict = None then MAccepted else MQuarantined)"
proof -
  have "''k2'' \<notin> dd_key ` set (command_dedup memory_db1)" using memory_db1_simps(3) [of "''k2''"] by (auto simp: unused_def)
  moreover have "find_memory memory_db1 memory_key = Some memory1" by (simp add: find_memory_def memory1_def)
  moreover have "\<forall>ids. texts_item (dict_of (m_record memory1)) ''supersedes'' = Inr ids \<longrightarrow> memory_key \<notin> set ids"
    by (simp add: sample_supersedes)
  ultimately show ?thesis using memory_acceptance [OF memory_run2 _ memory_operated(2)] by blast
qed

section \<open>Retrieval\<close>

text \<open>
  C11. Retrieval returns what the caller may see and nothing else: exactly the memories of an allowed scope that are accepted,
  within the clearance, neither due nor expired nor resting on a source that is not current, and found by the
  index, in the order of their ranks (policy priority, relevance, age of the evidence, identifier); every other memory of an
  allowed scope is listed as excluded, in the order of identifiers.
\<close>

theorem retrieve_sound:
  assumes "retrieve L query scopes clearance now d = Inr r"
  shows "\<exists>rows ranks. mset rows = mset (filter (\<lambda>q. m_scope q \<in> set scopes \<and>
        visible clearance now (query_matches L query scopes d) q) (memory_records d)) \<and>
      rt_records r = map (\<lambda>q. dict_of (m_record q)) rows \<and>
      mapE (row_rank L (query_terms L query)) rows = Inr ranks \<and> sorted ranks \<and>
      map fst (rt_excluded r) =
        map m_memory_id (filter (\<lambda>q. \<not> visible clearance now (query_matches L query scopes d) q) (scope_rows scopes d))"
  by (rule retrieve_rows [OF assms])

lemma sample_next_sources: "sources_of (stored sample_next) = Inr [stored sample_source]"
  by (simp add: sources_of_def dict_item_def as_list_def)

lemma sample_stale_reason: "stale_reason (stored sample_next) noon_text = Inr None"
proof -
  have "sources_of (stored sample_next) = Inr [stored sample_source]" by (rule sample_next_sources)
  then show ?thesis
    by (simp add: stale_reason_def text_item_def dict_item_def as_str_def) (simp add: sample_source_def)
qed

lemma sample_max_observed: "max_observed (stored sample_next) = Inr epoch_text"
proof -
  have "sources_of (stored sample_next) = Inr [stored sample_source]" by (rule sample_next_sources)
  then show ?thesis
    by (simp add: max_observed_def text_item_def dict_item_def as_str_def) (simp add: sample_source_def)
qed

lemma sample_inverted: "\<exists>t. invert_timestamp epoch_text = Inr t"
  by (simp add: invert_timestamp_def)

lemma sample_words: "find_words ''sky'' = [''sky'']" "query_terms sample_library ''sky'' = [''sky'']"
  by (simp_all add: query_terms_def find_words_def word_char_def)

lemma sample_rank: "\<exists>k. rank_key sample_library [''sky''] (stored sample_next) memory_key = Inr k"
proof -
  have "sources_of (stored sample_next) = Inr [stored sample_source]" by (rule sample_next_sources)
  then have "\<exists>t. source_text sample_library (stored sample_next) = Inr t"
    by (simp add: source_text_def source_parts_def text_get_def as_str_def) (simp add: sample_source_def)
  then show ?thesis using sample_max_observed sample_inverted
    by (auto simp: rank_key_def haystack_def text_item_def texts_item_def dict_item_def as_str_def as_list_def found_def type_priority_def)
qed

lemma sample_seen: "visible ''internal'' noon_text (query_matches sample_library ''sky'' [''project:p''] memory_db2) memory2"
proof -
  have "query_matches sample_library ''sky'' [''project:p''] memory_db2 = [memory_key]"
    by (simp add: query_matches_def sample_words index_matches_def) (simp add: sample_library_def memory_entry_def)
  then show ?thesis
    by (simp add: visible_def cleared_def sensitivity_rank_def sample_stale_reason)
qed

lemma sample_retrieves: "\<exists>r. retrieve sample_library ''sky'' [''project:p''] ''internal'' noon_text memory_db2 = Inr r"
proof -
  let ?m = "query_matches sample_library ''sky'' [''project:p''] memory_db2"
  have "row_reason ''internal'' noon_text ?m memory2 = Inr None"
    using sample_seen by (simp add: row_reason_def visible_def sensitivity_rank_def found_def sample_stale_reason)
  then have "\<exists>v. judge_row sample_library ''internal'' noon_text ?m [''sky''] memory2 = Inr v"
    using sample_rank by (auto simp: judge_row_def)
  then show ?thesis
    by (auto simp: retrieve_def sensitivity_rank_def scope_rows_def Let_def query_matches_def query_terms_def [symmetric] sample_words)
qed

theorem retrieve_sound_witness:
  "\<exists>r. retrieve sample_library ''sky'' [''project:p''] ''internal'' noon_text memory_db2 = Inr r \<and>
     rt_records r = [stored sample_next] \<and> rt_excluded r = []"
proof -
  obtain r where r: "retrieve sample_library ''sky'' [''project:p''] ''internal'' noon_text memory_db2 = Inr r"
    using sample_retrieves by blast
  show ?thesis using r retrieve_sound [OF r] sample_seen by (auto simp: scope_rows_def)
qed

section \<open>Context packs\<close>

text \<open>
  C17. A context pack keeps its budgets and hides nothing: in every section the selected excerpts count as many tokens as the
  manifest reports and at most the budget of the section; every retrieved memory is selected or excluded for
  want of budget, exactly once; and a selected item quotes the beginning of the statement of a retrieved memory, in the
  section of that memory, with the token count and digest of the quote.
\<close>

theorem context_budgets:
  assumes "select_records digest budgets r = Inr s"
  shows "(\<forall>name. section_total name (fl_selected s) = used_tokens s name \<and>
      int (section_total name (fl_selected s)) \<le> max 0 (budget_of budgets name)) \<and>
    (\<exists>left ids. fl_excluded s = rt_excluded r @ map (\<lambda>i. (i, ''section_budget'')) left \<and>
      mapE (\<lambda>q. text_item q ''memory_id'') (rt_records r) = Inr ids \<and>
      mset ids = mset (map si_memory_id (fl_selected s) @ left)) \<and>
    (\<forall>i \<in> set (fl_selected s). \<exists>q \<in> set (rt_records r). quotes digest q i)"
  using select_records_ok [OF assms] by (auto simp: in_budget_def accounts_def)

theorem context_budgets_witness:
  "\<exists>s. select_records (\<lambda>t. ''h'') [(''knowledge'', 1)] \<lparr>rt_normalized_query = [], rt_candidate_memory_ids = [], rt_ranked_candidates = [],
     rt_records = [stored sample_next, stored sample_next], rt_excluded = [], rt_filters = []\<rparr> = Inr s \<and>
     section_total ''knowledge'' (fl_selected s) = 1 \<and> int (section_total ''knowledge'' (fl_selected s)) \<le> 1"
proof -
  let ?r = "\<lparr>rt_normalized_query = [], rt_candidate_memory_ids = [], rt_ranked_candidates = [],
     rt_records = [stored sample_next, stored sample_next], rt_excluded = [], rt_filters = []\<rparr>"
  obtain s where s: "select_records (\<lambda>t. ''h'') [(''knowledge'', 1)] ?r = Inr s" "section_total ''knowledge'' (fl_selected s) = 1"
    by (simp add: select_records_def section_order_def fill_one_def section_of_def text_item_def texts_item_def dict_item_def as_str_def as_list_def
      found_def budget_of_def used_tokens_def filling0_def ordered_sections_def token_count_def take_in_def leave_out_def section_total_def)
  from context_budgets [OF s(1)] have "int (section_total ''knowledge'' (fl_selected s)) \<le> max 0 (budget_of [(''knowledge'', 1)] ''knowledge'')"
    by blast
  then show ?thesis using s by (auto simp: budget_of_def)
qed

section \<open>Sweeps\<close>



end
