(* ===== verification/Review.thy ===== *)
theory Review
  imports MemoryOps Integrity Leases
begin

text \<open>
  The separation of maker and checker in \<open>src/city2core/review.py\<close>: manifests of agents are registered, a task
  is reviewed by an agent that differs from its maker and cannot execute its operations, and memories are promoted under
  the same separation.

  \<open>review_task\<close> reads, issues the command of Core and then a second command that records the review; \<open>B\<close> is
  the environment of its own identifier, \<open>T\<close> that of the transition and \<open>E\<close> that of the record.
\<close>

section \<open>Manifests\<close>

text \<open>\<open>INSERT OR IGNORE\<close>: a row that breaks a constraint of the table is dropped without an error.\<close>

definition insert_manifest :: "manifest_row \<Rightarrow> db \<Rightarrow> db" where
  "insert_manifest r d =
     (if 1 \<le> am_manifest_version r \<and> length (am_manifest_sha256 r) = 64 \<and>
         (\<forall>q \<in> set (agent_manifests d). \<not> (am_agent_id q = am_agent_id r \<and>
            (am_manifest_version q = am_manifest_version r \<or> am_manifest_sha256 q = am_manifest_sha256 r)))
      then d\<lparr>agent_manifests := agent_manifests d @ [r]\<rparr> else d)"

definition register_manifest_op :: "env \<Rightarrow> string dict \<Rightarrow> (txs, json) tx" where
  "register_manifest_op E manifest =
     tbind (tlift (bindE (dict_item manifest ''agent_id'') bind_text)) (\<lambda>agent_id.
     tbind (tlift (bindE (dict_item manifest ''manifest_version'') bind_int)) (\<lambda>version.
     tbind (tlift (bindE (dict_item manifest ''manifest_sha256'') bind_text)) (\<lambda>sha.
     tbind (tlift (canonical (JObj manifest))) (\<lambda>manifest_json.
     tbind (utc_now E) (\<lambda>now.
     tbind (execute (\<lambda>d. Inr (insert_manifest
        \<lparr>am_agent_id = agent_id, am_manifest_version = version, am_manifest_sha256 = sha, am_manifest = manifest_json,
         am_registered_at = now\<rparr> d))) (\<lambda>_.
     tret (JObj manifest)))))))"

definition register_manifest :: "env \<Rightarrow> string dict \<Rightarrow> string \<Rightarrow> call" where
  "register_manifest E manifest key =
     checked
       (bindE (validate E (JObj manifest) ''agent.schema.json'') (\<lambda>_.
        bindE (dict_item manifest ''manifest_sha256'') (\<lambda>stated.
        bindE (digest_profile E manifest [''manifest_sha256'', ''aggregate_version'']) (\<lambda>digest.
        guardE (stated = JStr digest) (CoreError ''agent manifest hash mismatch''))))) (\<lambda>_.
     run_command E key (JObj [(''command'', JStr ''register_agent_manifest''), (''manifest'', JObj manifest)])
       (register_manifest_op E manifest))"

text \<open>\<open>_manifest\<close>, \<open>_latest_manifest\<close>, \<open>_manifest_by_actor\<close>.\<close>

definition manifest_of :: "db \<Rightarrow> string \<Rightarrow> int \<Rightarrow> string dict result" where
  "manifest_of d agent_id version =
     bindE (found (CoreError ''agent manifest is not registered'')
       (List.find (\<lambda>r. am_agent_id r = agent_id \<and> am_manifest_version r = version) (agent_manifests d))) (\<lambda>r.
     Inr (dict_of (am_manifest r)))"

definition latest_manifest :: "db \<Rightarrow> string \<Rightarrow> string dict result" where
  "latest_manifest d agent_id =
     bindE (found (CoreError ''reviewer manifest is not registered'')
       (max_row am_manifest_version (filter (\<lambda>r. am_agent_id r = agent_id) (agent_manifests d)))) (\<lambda>r.
     Inr (dict_of (am_manifest r)))"

fun manifest_named :: "string \<Rightarrow> manifest_row list \<Rightarrow> string dict result" where
  "manifest_named name [] = Inl (CoreError ''maker manifest is not registered'')"
| "manifest_named name (r # rs) =
     bindE (dict_item (dict_of (am_manifest r)) ''name'') (\<lambda>n.
     if n = JStr name then Inr (dict_of (am_manifest r)) else manifest_named name rs)"

definition manifest_by_actor :: "db \<Rightarrow> string \<Rightarrow> string dict result" where
  "manifest_by_actor d act =
     manifest_named (if begins_with ''agent:'' act then drop 6 act else act) (agent_manifests d)"

section \<open>Independence and deterministic checks\<close>

record independence =
  identity_separation :: bool
  operation_capability_separation :: bool
  credential_separation :: bool
  model_policy_separation :: bool

definition disjoint_texts :: "string dict \<Rightarrow> string dict \<Rightarrow> string \<Rightarrow> bool result" where
  "disjoint_texts maker reviewer k =
     bindE (texts_item maker k) (\<lambda>xs. bindE (texts_item reviewer k) (\<lambda>ys. Inr (set xs \<inter> set ys = {})))"

definition independence_of :: "string dict \<Rightarrow> string dict \<Rightarrow> independence result" where
  "independence_of maker reviewer =
     bindE (dict_item maker ''agent_id'') (\<lambda>a. bindE (dict_item reviewer ''agent_id'') (\<lambda>b.
     bindE (disjoint_texts maker reviewer ''tools'') (\<lambda>tools.
     bindE (disjoint_texts maker reviewer ''credential_handles'') (\<lambda>credentials.
     bindE (dict_item maker ''model_policy'') (\<lambda>m. bindE (dict_item reviewer ''model_policy'') (\<lambda>n.
     Inr \<lparr>identity_separation = (a \<noteq> b), operation_capability_separation = tools, credential_separation = credentials,
          model_policy_separation = (m \<noteq> n)\<rparr>))))))"

definition independence_json :: "independence \<Rightarrow> string dict" where
  "independence_json i =
     [(''identity_separation'', JBool (identity_separation i)),
      (''operation_capability_separation'', JBool (operation_capability_separation i)),
      (''credential_separation'', JBool (credential_separation i)),
      (''model_policy_separation'', JBool (model_policy_separation i))]"

text \<open>The identifiers of the criteria that an item passed, and of those that the envelope makes mandatory.\<close>

definition passed_criteria :: "json list \<Rightarrow> string list result" where
  "passed_criteria items =
     bindE (mapE as_dict items) (\<lambda>ds.
     bindE (mapE (\<lambda>d. bindE (dict_item d ''result'') (\<lambda>r. Inr (r, d))) ds) (\<lambda>ps.
     mapE (\<lambda>p. text_item (snd p) ''criterion_id'') (filter (\<lambda>p. fst p = JStr ''pass'') ps)))"

definition mandatory_criteria :: "json list \<Rightarrow> string list result" where
  "mandatory_criteria items =
     bindE (mapE as_dict items) (\<lambda>ds.
     bindE (mapE (\<lambda>d. bindE (dict_item d ''mandatory'') (\<lambda>r. Inr (r, d))) ds) (\<lambda>ps.
     mapE (\<lambda>p. text_item (snd p) ''criterion_id'') (filter (\<lambda>p. truthy (fst p)) ps)))"

definition unresolved_actions :: "db \<Rightarrow> string \<Rightarrow> action_row list" where
  "unresolved_actions d run_id =
     filter (\<lambda>a. a_run_id a = run_id \<and> a_state a \<in> {APrepared, ADispatched, AUnknown}) (actions d)"

record checks =
  mandatory_criteria_pass :: bool
  result_completed :: bool
  no_unresolved_actions :: bool
  fence_matches :: bool

definition deterministic_checks :: "db \<Rightarrow> string dict \<Rightarrow> string dict \<Rightarrow> checks result" where
  "deterministic_checks d envelope res =
     bindE (bindE (dict_item res ''checks'') as_list) (\<lambda>cs.
     bindE (bindE (dict_item res ''evidence'') as_list) (\<lambda>es.
     bindE (passed_criteria (cs @ es)) (\<lambda>passed.
     bindE (bindE (bindE (dict_item envelope ''acceptance_criteria'') as_list) mandatory_criteria) (\<lambda>mandatory.
     bindE (text_item res ''run_id'') (\<lambda>run_id.
     bindE (dict_item res ''run_status'') (\<lambda>status.
     bindE (dict_item res ''lease_fencing_token'') (\<lambda>fence.
     bindE (dict_item envelope ''lease_fencing_token'') (\<lambda>token.
     Inr \<lparr>mandatory_criteria_pass = (set mandatory \<subseteq> set passed), result_completed = (status = JStr ''completed''),
          no_unresolved_actions = (unresolved_actions d run_id = []), fence_matches = (fence = token)\<rparr>))))))))"

definition checks_json :: "checks \<Rightarrow> string dict" where
  "checks_json c =
     [(''mandatory_criteria_pass'', JBool (mandatory_criteria_pass c)), (''result_completed'', JBool (result_completed c)),
      (''no_unresolved_actions'', JBool (no_unresolved_actions c)), (''fence_matches'', JBool (fence_matches c))]"

definition all_pass :: "checks \<Rightarrow> bool" where
  "all_pass c = (mandatory_criteria_pass c \<and> result_completed c \<and> no_unresolved_actions c \<and> fence_matches c)"

section \<open>Review of a task\<close>

text \<open>\<open>self.core.task(task_id)\<close>.\<close>

definition task_of :: "db \<Rightarrow> string \<Rightarrow> string dict result" where
  "task_of d task_id =
     (case get_task task_id \<lparr>tx_db = d, tick = 0\<rparr> of Inl e \<Rightarrow> Inl e | Inr (v, s) \<Rightarrow> Inr (dict_of v))"

record reviewing =
  rw_run_id :: string
  rw_maker_id :: string
  rw_independence :: independence
  rw_checks :: checks
  rw_finding_ids :: "string list"
  rw_reviewer_name :: string

text \<open>Everything that is read and checked before the transition.\<close>

definition review_gate :: "db \<Rightarrow> string \<Rightarrow> string \<Rightarrow> string \<Rightarrow> string dict list \<Rightarrow> reviewing result" where
  "review_gate d task_id reviewer_agent_id decision findings =
     bindE (bindE (task_of d task_id) (\<lambda>task. dict_item task ''state'')) (\<lambda>state.
     bindE (guardE (state = JStr ''review'') (CoreError ''task is not ready for review'')) (\<lambda>_.
     bindE (found (CoreError ''review requires a persisted result'')
       (case latest_run d task_id of None \<Rightarrow> None | Some run \<Rightarrow> map_option (\<lambda>res. (run, res)) (r_result run))) (\<lambda>(run, stored_result).
     (let envelope = dict_of (r_envelope run); res = dict_of stored_result in
     bindE (text_item envelope ''resolved_agent_id'') (\<lambda>maker_id.
     bindE (bindE (dict_item envelope ''resolved_manifest_version'') as_int) (\<lambda>version.
     bindE (manifest_of d maker_id version) (\<lambda>maker.
     bindE (latest_manifest d reviewer_agent_id) (\<lambda>reviewer.
     bindE (independence_of maker reviewer) (\<lambda>independence.
     bindE (guardE (maker_id \<noteq> reviewer_agent_id) (CoreError ''maker cannot review its own work'')) (\<lambda>_.
     bindE (dict_item reviewer ''review_policy'') (\<lambda>policy.
     bindE (if policy = JStr ''independent'' then bindE (dict_item reviewer ''enabled'') (\<lambda>v. Inr (truthy v)) else Inr False) (\<lambda>allowed.
     bindE (guardE allowed (CoreError ''reviewer manifest is not enabled for independent review'')) (\<lambda>_.
     bindE (guardE (operation_capability_separation independence) (CoreError ''reviewer can execute the maker operation'')) (\<lambda>_.
     bindE (deterministic_checks d envelope res) (\<lambda>checks.
     bindE (guardE (\<not> (decision = ''accepted'' \<and> \<not> all_pass checks))
       (CoreError ''deterministic evidence/policy checks block acceptance'')) (\<lambda>_.
     bindE (mapE (\<lambda>f. text_item f ''finding_id'') findings) (\<lambda>finding_ids.
     bindE (text_item reviewer ''name'') (\<lambda>name.
     Inr \<lparr>rw_run_id = r_run_id run, rw_maker_id = maker_id, rw_independence = independence, rw_checks = checks,
          rw_finding_ids = finding_ids, rw_reviewer_name = name\<rparr>))))))))))))))))))"

definition task_review_check :: "db \<Rightarrow> task_review_row \<Rightarrow> bool" where
  "task_review_check d r =
     (rv_decision r \<in> {''accepted'', ''rejected'', ''changes_requested''} \<and> length (rv_checks_sha256 r) = 64 \<and>
      (\<forall>q \<in> set (task_reviews d). rv_review_id q \<noteq> rv_review_id r))"

text \<open>\<open>INSERT OR IGNORE\<close>; a missing task or run is still an error.\<close>

definition insert_task_review :: "task_review_row \<Rightarrow> db \<Rightarrow> db result" where
  "insert_task_review r d =
     (if task_review_check d r
      then bindE (sql ((\<exists>q \<in> set (tasks d). t_task_id q = rv_task_id r) \<and> (\<exists>q \<in> set (runs d). r_run_id q = rv_run_id r))
             ''task_reviews'' d) (\<lambda>d. Inr (d\<lparr>task_reviews := task_reviews d @ [r]\<rparr>))
      else Inr d)"

definition record_review_op ::
  "env \<Rightarrow> string \<Rightarrow> string \<Rightarrow> string \<Rightarrow> string \<Rightarrow> reviewing \<Rightarrow> string dict list \<Rightarrow> json \<Rightarrow> (txs, json) tx" where
  "record_review_op E review_id task_id reviewer_agent_id decision w findings reviewed =
     tbind (tlift (sha256_json E (JObj (checks_json (rw_checks w))))) (\<lambda>checks_sha.
     tbind (tlift (canonical (JList (map JObj findings)))) (\<lambda>findings_json.
     tbind (tlift (canonical (JObj (independence_json (rw_independence w))))) (\<lambda>independence.
     tbind (utc_now E) (\<lambda>now.
     tbind (execute (insert_task_review
        \<lparr>rv_review_id = review_id, rv_task_id = task_id, rv_run_id = rw_run_id w, rv_maker_agent_id = rw_maker_id w,
         rv_reviewer_agent_id = reviewer_agent_id, rv_decision = decision, rv_checks_sha256 = checks_sha,
         rv_findings = findings_json, rv_independence = independence, rv_reviewed_at = now\<rparr>)) (\<lambda>_.
     tret (JObj [(''task'', reviewed), (''review_id'', JStr review_id)]))))))"

text \<open>The review of the latest event of the task.\<close>

definition announced_review :: "db \<Rightarrow> string \<Rightarrow> string result" where
  "announced_review d task_id =
     bindE (found (TypeError ''NoneType'') (latest_event d task_id)) (\<lambda>e.
     bindE (item (ev_payload e) ''review_id'') as_str)"

definition service_review_task ::
  "env \<Rightarrow> env \<Rightarrow> env \<Rightarrow> string \<Rightarrow> string \<Rightarrow> string \<Rightarrow> int \<Rightarrow> string dict list \<Rightarrow> (string \<times> string) list option \<Rightarrow>
   string \<Rightarrow> call" where
  "service_review_task B T E task_id reviewer_agent_id decision expected_version findings dispositions key d =
     (case bindE (review_gate d task_id reviewer_agent_id decision findings) (\<lambda>w.
           bindE (new_id ''review'' (entropy B 0)) (\<lambda>proposed.
           Inr (w, proposed))) of
        Inl e \<Rightarrow> (Inl e, d)
      | Inr (w, proposed) \<Rightarrow>
          (case review_task T task_id decision expected_version proposed (rw_finding_ids w) dispositions
              (''agent:'' @ rw_reviewer_name w) (key @ '':transition'') d of
             (Inl e, d1) \<Rightarrow> (Inl e, d1)
           | (Inr reviewed, d1) \<Rightarrow>
               (case announced_review d1 task_id of
                  Inl e \<Rightarrow> (Inl e, d1)
                | Inr review_id \<Rightarrow>
                    run_command E (key @ '':record'')
                      (JObj [(''command'', JStr ''record_independent_review''), (''review_id'', JStr review_id),
                        (''task_id'', JStr task_id), (''decision'', JStr decision),
                        (''checks'', JObj (checks_json (rw_checks w))), (''findings'', JList (map JObj findings)),
                        (''independence'', JObj (independence_json (rw_independence w)))])
                      (record_review_op E review_id task_id reviewer_agent_id decision w findings reviewed) d1)))"

section \<open>Promotion of a memory\<close>

definition promotion_gate :: "db \<Rightarrow> string \<Rightarrow> string \<Rightarrow> (independence \<times> string) result" where
  "promotion_gate d memory_id reviewer_agent_id =
     bindE (get_memory d memory_id) (\<lambda>rcd.
     bindE (latest_manifest d reviewer_agent_id) (\<lambda>reviewer.
     bindE (text_item (dict_of rcd) ''created_by'') (\<lambda>created_by.
     bindE (manifest_by_actor d created_by) (\<lambda>maker.
     bindE (independence_of maker reviewer) (\<lambda>independence.
     bindE (guardE (identity_separation independence \<and> operation_capability_separation independence)
       (CoreError ''memory promotion lacks independent reviewer separation'')) (\<lambda>_.
     bindE (text_item reviewer ''name'') (\<lambda>name.
     Inr (independence, name))))))))"

definition promote_memory ::
  "env \<Rightarrow> library \<Rightarrow> string \<Rightarrow> string \<Rightarrow> int \<Rightarrow> string dict list \<Rightarrow> string \<Rightarrow> call" where
  "promote_memory E L memory_id reviewer_agent_id expected_version source_checks key d =
     (case promotion_gate d memory_id reviewer_agent_id of
        Inl e \<Rightarrow> (Inl e, d)
      | Inr (independence, name) \<Rightarrow>
          review_candidate E L memory_id ''accepted'' expected_version (''agent:'' @ name) source_checks
            [(''separate_identity'', JBool True), (''separate_session'', JBool True),
             (''no_shared_write_credential'', JBool (credential_separation independence))] key d)"

end
