(* ===== verification/Spec2Isabelle.thy ===== *)
theory Spec2Isabelle
  imports Outcomes MemoryGuarantees Review
begin

text \<open>
  City2 Core: the durable coordination service of the repository (\<open>src/src/city2core/\<close>), a library over one
  SQLite file. It keeps objectives, tasks, runs and external actions, grants fenced leases on tasks, and
  records every change in a hash-chained event log that is verified whenever the file is opened.

  The parts, from the bottom:

  \<^item> \<open>Prelude\<close>: exceptions as a datatype, results as a sum, transactions as functions of a state that may
    raise, and tables as lists of rows.

  \<^item> \<open>Json\<close>, \<open>Canonical\<close>, \<open>CanonicalText\<close>: JSON values and \<open>model.py\<close>'s canonical text (RFC 8785). The
    printer of floats equals ECMAScript's; the text read back gives the value with sorted keys and
    normalised numbers, so a stored text column is modelled by the normal form \<open>norm\<close> of its value.

  \<^item> \<open>Regex\<close>, \<open>Schema\<close>: the regular expressions of the code and \<open>schema.py\<close>, a validator of a subset of JSON
    Schema. \<open>validate_named\<close> takes the recursion limit as fuel; a verdict reached within a limit is the same
    under every larger one.

  \<^item> \<open>Ident\<close>: the environment \<open>env\<close> (clock, entropy, SHA-256, schema documents, fault hook, settings of the
    connection), UTC times and UUIDv7 identifiers.

  \<^item> \<open>Store\<close>, \<open>EventLog\<close>: the tables of \<open>migrations/\<close> as the record \<open>db\<close>, \<open>WriteTransaction\<close>, \<open>Store.command\<close>, and
    the replay of the log in \<open>verify_integrity\<close>. A command is atomic and idempotent, a key names one command,
    appending keeps the log verifiable, and a terminal hash pins the whole history of an aggregate.

  \<^item> \<open>CoreBase\<close>, \<open>Projection\<close>: statements with their constraints, lookups, calls; the contract between the log
    and the tables that project it, as a locale interpreted on the four tables.

  \<^item> \<open>Objectives\<close>, \<open>Tasks\<close>, \<open>Leases\<close>, \<open>Actions\<close>: the operations of \<open>core.py\<close>, each as the body of its transaction
    and as the call that runs it, with a lemma that says what a returning operation did to the tables.

  \<^item> \<open>Steps\<close>: all public operations of \<open>Core\<close> as requests, and the steps that a request can make.

  \<^item> \<open>Integrity\<close>, \<open>Records\<close>: the whole of \<open>Store.verify_integrity\<close>, \<open>Store.open\<close> and \<open>Core.status\<close>; what a
    stored normal form says about the value it was made from.

  Parameters of the model, because the code does not define them: SHA-256 (a function of the normal form
  of the value that the code hashes), the clock, the entropy of identifiers and tokens, the schema files, the answers
  of SQLite's pragmas, and Unicode normalisation. Not modelled: file handling, command-line parsing,
  printing, and the parts that the manifest lists.
\<close>

end
